(* ===== verification/Rk_Prelude.thy ===== *)
theory Rk_Prelude
  imports Complex_Main "HOL-Library.AList"
begin

text \<open>
  Shared vocabulary of the development: Python dictionaries as insertion-ordered
  association lists, sequencing of operations that may raise, and the generic list
  lemmas the components use.

  A Python \<^verbatim>\<open>dict\<close> keeps insertion order and overwrites in place; \<open>AList.update\<close> does
  exactly that, \<open>AList.delete\<close> is \<^verbatim>\<open>pop\<close> with a default and \<open>map_of\<close> is \<^verbatim>\<open>get\<close>.
  Python floats are modelled as exact \<^typ>\<open>real\<close> numbers: rounding is not modelled.
\<close>

named_theorems dict_simps \<open>facts on dictionaries as association lists\<close>
named_theorems act_simps \<open>unfolding of the sequencing combinators\<close>

section \<open>Dictionaries\<close>

type_synonym ('k, 'v) dict = "('k \<times> 'v) list"

abbreviation dict_get :: "('k, 'v) dict \<Rightarrow> 'k \<Rightarrow> 'v option" where
  "dict_get d k \<equiv> map_of d k"

abbreviation dict_set :: "'k \<Rightarrow> 'v \<Rightarrow> ('k, 'v) dict \<Rightarrow> ('k, 'v) dict" where
  "dict_set \<equiv> AList.update"

abbreviation dict_pop :: "'k \<Rightarrow> ('k, 'v) dict \<Rightarrow> ('k, 'v) dict" where
  "dict_pop \<equiv> AList.delete"

abbreviation dict_keys :: "('k, 'v) dict \<Rightarrow> 'k list" where
  "dict_keys d \<equiv> map fst d"

definition dict_has :: "('k, 'v) dict \<Rightarrow> 'k \<Rightarrow> bool" where
  "dict_has d k \<longleftrightarrow> map_of d k \<noteq> None"

definition dict_get_or :: "('k, 'v) dict \<Rightarrow> 'k \<Rightarrow> 'v \<Rightarrow> 'v" where
  "dict_get_or d k v = (case map_of d k of None \<Rightarrow> v | Some x \<Rightarrow> x)"

definition dict_ok :: "('k, 'v) dict \<Rightarrow> bool" where
  "dict_ok d \<longleftrightarrow> distinct (dict_keys d)"

text \<open>\<^verbatim>\<open>d.update(e)\<close> and the removal of a whole list of keys.\<close>

primrec dict_update_all :: "('k, 'v) dict \<Rightarrow> ('k, 'v) dict \<Rightarrow> ('k, 'v) dict" where
  "dict_update_all d [] = d"
| "dict_update_all d (p # ps) = dict_update_all (dict_set (fst p) (snd p) d) ps"

primrec dict_pop_all :: "'k list \<Rightarrow> ('k, 'v) dict \<Rightarrow> ('k, 'v) dict" where
  "dict_pop_all [] d = d"
| "dict_pop_all (k # ks) d = dict_pop_all ks (dict_pop k d)"

lemma dict_get_set [simp, dict_simps]:
  "dict_get (dict_set k v d) k' = (if k' = k then Some v else dict_get d k')"
  by (simp add: update_conv')

lemma dict_get_pop [simp, dict_simps]:
  "dict_get (dict_pop k d) k' = (if k' = k then None else dict_get d k')"
  by (simp add: delete_conv')

lemma dict_keys_set: "set (dict_keys (dict_set k v d)) = insert k (set (dict_keys d))"
  by (induction d) auto

lemma dict_keys_pop: "set (dict_keys (dict_pop k d)) = set (dict_keys d) - {k}"
  by (induction d) auto

lemma dict_keys_pop_filter: "dict_keys (dict_pop k d) = filter (\<lambda>x. x \<noteq> k) (dict_keys d)"
  by (induction d) auto

lemma dict_get_None [dict_simps]: "dict_get d k = None \<longleftrightarrow> k \<notin> set (dict_keys d)"
  by (induction d) auto

lemma dict_get_SomeD: "dict_get d k = Some v \<Longrightarrow> k \<in> set (dict_keys d)"
  by (induction d) (auto split: if_splits)

lemma dict_key_getE:
  assumes "k \<in> set (dict_keys d)"
  obtains v where "dict_get d k = Some v"
  using assms dict_get_None [of d k] by (cases "dict_get d k") auto

lemma dict_has_iff [dict_simps]: "dict_has d k \<longleftrightarrow> k \<in> set (dict_keys d)"
  by (simp add: dict_has_def dict_get_None)

lemma dict_keys_set_present:
  "k \<in> set (dict_keys d) \<Longrightarrow> dict_keys (dict_set k v d) = dict_keys d"
  by (induction d) auto

lemma dict_keys_set_absent:
  "k \<notin> set (dict_keys d) \<Longrightarrow> dict_keys (dict_set k v d) = dict_keys d @ [k]"
  by (induction d) auto

lemma dict_set_absent: "k \<notin> set (dict_keys d) \<Longrightarrow> dict_set k v d = d @ [(k, v)]"
  by (induction d) auto

lemma dict_ok_Nil [simp]: "dict_ok []"
  by (simp add: dict_ok_def)

lemma dict_ok_set [intro]: "dict_ok d \<Longrightarrow> dict_ok (dict_set k v d)"
  by (simp add: dict_ok_def distinct_update)

lemma dict_ok_pop [intro]: "dict_ok d \<Longrightarrow> dict_ok (dict_pop k d)"
  by (simp add: dict_ok_def dict_keys_pop_filter)

lemma dict_pop_absent: "k \<notin> set (dict_keys d) \<Longrightarrow> dict_pop k d = d"
  by (induction d) auto

lemma dict_get_pop_all [simp, dict_simps]:
  "dict_get (dict_pop_all ks d) k = (if k \<in> set ks then None else dict_get d k)"
  by (induction ks arbitrary: d) auto

lemma dict_keys_pop_all: "dict_keys (dict_pop_all ks d) = filter (\<lambda>x. x \<notin> set ks) (dict_keys d)"
  by (induction ks arbitrary: d) (auto simp: dict_keys_pop_filter intro: filter_cong)

lemma dict_ok_pop_all [intro]: "dict_ok d \<Longrightarrow> dict_ok (dict_pop_all ks d)"
  by (simp add: dict_ok_def dict_keys_pop_all)

lemma dict_pop_all_append: "dict_pop_all (xs @ ys) d = dict_pop_all ys (dict_pop_all xs d)"
  by (induction xs arbitrary: d) auto

lemma dict_get_update_all:
  "dict_ok e \<Longrightarrow> dict_get (dict_update_all d e) k
     = (case dict_get e k of None \<Rightarrow> dict_get d k | Some v \<Rightarrow> Some v)"
proof (induction e arbitrary: d)
  case Nil
  then show ?case by simp
next
  case (Cons p e)
  obtain a b where p: "p = (a, b)" by (cases p)
  from Cons.prems p have ok: "dict_ok e" and notin: "a \<notin> set (dict_keys e)"
    by (auto simp: dict_ok_def)
  from notin have "dict_get e a = None" by (simp add: dict_get_None)
  with Cons.IH [OF ok] p show ?case by (auto split: option.split)
qed

section \<open>Lists\<close>

lemma sorted_wrt_less_snoc:
  "sorted_wrt (<) (xs @ [x]) \<longleftrightarrow> sorted_wrt (<) xs \<and> (\<forall>y \<in> set xs. y < (x :: 'a :: linorder))"
  by (auto simp: sorted_wrt_append)

lemma sort_key_sorted:
  "sorted_wrt (\<lambda>a b. f a < f b) xs \<Longrightarrow> sort_key f xs = (xs :: 'a list)"
  for f :: "'a \<Rightarrow> 'b :: linorder"
proof (induction xs)
  case (Cons x xs)
  then have "sort_key f xs = xs" by simp
  moreover have "insort_key f x xs = x # xs"
    using Cons.prems by (cases xs) auto
  ultimately show ?case by simp
qed simp

lemma sum_list_concat_length: "length (concat xss) = (\<Sum>xs \<leftarrow> xss. length xs)"
  by (induction xss) auto

section \<open>Operations that may raise\<close>

text \<open>
  An operation of the code takes a state and either raises (\<^const>\<open>Inl\<close>) or returns
  (\<^const>\<open>Inr\<close>), in both cases with the state as it is then: what a Python method did before
  it raised stays done.
\<close>

type_synonym ('s, 'e, 'a) act = "'s \<Rightarrow> ('e + 'a) \<times> 's"

definition act_ret :: "'a \<Rightarrow> ('s, 'e, 'a) act" where
  "act_ret a s = (Inr a, s)"

definition act_raise :: "'e \<Rightarrow> ('s, 'e, 'a) act" where
  "act_raise e s = (Inl e, s)"

definition act_bind :: "('s, 'e, 'a) act \<Rightarrow> ('a \<Rightarrow> ('s, 'e, 'b) act) \<Rightarrow> ('s, 'e, 'b) act" where
  "act_bind m f s = (case m s of (Inl e, s') \<Rightarrow> (Inl e, s') | (Inr a, s') \<Rightarrow> f a s')"

definition act_try :: "('s, 'e, 'a) act \<Rightarrow> ('e \<Rightarrow> ('s, 'e, 'a) act) \<Rightarrow> ('s, 'e, 'a) act" where
  "act_try m h s = (case m s of (Inl e, s') \<Rightarrow> h e s' | (Inr a, s') \<Rightarrow> (Inr a, s'))"

definition act_upd :: "('s \<Rightarrow> 's) \<Rightarrow> ('s, 'e, unit) act" where
  "act_upd f s = (Inr (), f s)"

text \<open>\<^verbatim>\<open>try: m finally: f\<close> where the clean-up cannot raise.\<close>

definition act_finally :: "('s, 'e, 'a) act \<Rightarrow> ('s \<Rightarrow> 's) \<Rightarrow> ('s, 'e, 'a) act" where
  "act_finally m f s = (case m s of (r, s') \<Rightarrow> (r, f s'))"

lemmas act_defs [act_simps] =
  act_ret_def act_raise_def act_bind_def act_try_def act_upd_def act_finally_def

lemma act_bind_ret [simp]: "act_bind (act_ret a) f = f a"
  by (rule ext) (simp add: act_defs)

lemma act_bind_raise [simp]: "act_bind (act_raise e) f = act_raise e"
  by (rule ext) (simp add: act_defs)

lemma act_try_ret [simp]: "act_try (act_ret a) h = act_ret a"
  by (rule ext) (simp add: act_defs)

lemma act_try_raise [simp]: "act_try (act_raise e) h = h e"
  by (rule ext) (simp add: act_defs)

lemma act_bind_assoc: "act_bind (act_bind m f) g = act_bind m (\<lambda>a. act_bind (f a) g)"
  by (rule ext) (auto simp: act_defs split: prod.split sum.split)

text \<open>\<^verbatim>\<open>try: m finally: f\<close> where the clean-up may raise as well, and then wins.\<close>

definition act_ensure :: "('s, 'e, 'a) act \<Rightarrow> ('s, 'e, unit) act \<Rightarrow> ('s, 'e, 'a) act" where
  "act_ensure m f s = (case m s of (r, s') \<Rightarrow>
     (case f s' of (Inl e, s'') \<Rightarrow> (Inl e, s'') | (Inr _, s'') \<Rightarrow> (r, s'')))"

definition act_when :: "('s \<Rightarrow> bool) \<Rightarrow> ('s, 'e, unit) act \<Rightarrow> ('s, 'e, unit) act" where
  "act_when p m s = (if p s then m s else (Inr (), s))"

text \<open>Reading the state, and lifting a result that does not depend on it.\<close>

definition act_get :: "('s \<Rightarrow> ('s, 'e, 'a) act) \<Rightarrow> ('s, 'e, 'a) act" where
  "act_get f s = f s s"

definition act_of :: "'e + 'a \<Rightarrow> ('s, 'e, 'a) act" where
  "act_of r s = (r, s)"

lemmas act_more_defs [act_simps] = act_ensure_def act_when_def act_get_def act_of_def

lemma act_bind_of [simp]:
  "act_bind (act_of (Inr a)) f = f a" "act_bind (act_of (Inl e)) f = act_raise e"
  by (rule ext, simp add: act_defs act_more_defs)+

text \<open>An operation on one part of the state.\<close>

definition act_fst :: "('s, 'e, 'a) act \<Rightarrow> ('s \<times> 'p, 'e, 'a) act" where
  "act_fst m = (\<lambda>(s, p). case m s of (r, s') \<Rightarrow> (r, (s', p)))"

definition act_snd :: "('s, 'e, 'a) act \<Rightarrow> ('p \<times> 's, 'e, 'a) act" where
  "act_snd m = (\<lambda>(p, s). case m s of (r, s') \<Rightarrow> (r, (p, s')))"

lemma act_snd_run: "act_snd f (a, s) = (fst (f s), (a, snd (f s)))"
  by (simp add: act_snd_def split: prod.splits)

section \<open>Weakest preconditions\<close>

text \<open>\<open>wp m s Q\<close>: the result and the state after \<open>m\<close>, started in \<open>s\<close>, satisfy \<open>Q\<close>.  The rules in
  \<open>wp_simps\<close> take an operation apart at its combinators.\<close>

named_theorems wp_simps \<open>weakest preconditions of the sequencing combinators\<close>

definition wp :: "('s, 'e, 'a) act \<Rightarrow> 's \<Rightarrow> ('e + 'a \<Rightarrow> 's \<Rightarrow> bool) \<Rightarrow> bool" where
  "wp m s Q \<longleftrightarrow> (case m s of (r, s') \<Rightarrow> Q r s')"

lemma wpI: "(\<And>r s'. m s = (r, s') \<Longrightarrow> Q r s') \<Longrightarrow> wp m s Q"
  by (cases "m s") (simp add: wp_def)

lemma wpD: "wp m s Q \<Longrightarrow> m s = (r, s') \<Longrightarrow> Q r s'"
  by (simp add: wp_def)

lemma wp_mono: "wp m s Q \<Longrightarrow> (\<And>r s'. m s = (r, s') \<Longrightarrow> Q r s' \<Longrightarrow> R r s') \<Longrightarrow> wp m s R"
  by (cases "m s") (simp add: wp_def)

lemma wp_ret [wp_simps]: "wp (act_ret a) s Q \<longleftrightarrow> Q (Inr a) s"
  by (simp add: wp_def act_defs)

lemma wp_raise [wp_simps]: "wp (act_raise e) s Q \<longleftrightarrow> Q (Inl e) s"
  by (simp add: wp_def act_defs)

lemma wp_bind [wp_simps]:
  "wp (act_bind m f) s Q \<longleftrightarrow>
     wp m s (\<lambda>r s'. case r of Inl e \<Rightarrow> Q (Inl e) s' | Inr a \<Rightarrow> wp (f a) s' Q)"
  by (simp add: wp_def act_defs split: prod.split sum.split)

lemma wp_try [wp_simps]:
  "wp (act_try m h) s Q \<longleftrightarrow>
     wp m s (\<lambda>r s'. case r of Inl e \<Rightarrow> wp (h e) s' Q | Inr a \<Rightarrow> Q (Inr a) s')"
  by (simp add: wp_def act_defs split: prod.split sum.split)

lemma wp_upd [wp_simps]: "wp (act_upd f) s Q \<longleftrightarrow> Q (Inr ()) (f s)"
  by (simp add: wp_def act_defs)

lemma wp_ensure [wp_simps]:
  "wp (act_ensure m f) s Q \<longleftrightarrow>
     wp m s (\<lambda>r s'. wp f s' (\<lambda>r' s''. case r' of Inl e \<Rightarrow> Q (Inl e) s'' | Inr _ \<Rightarrow> Q r s''))"
  by (simp add: wp_def act_more_defs split: prod.split sum.split)

lemma wp_when [wp_simps]: "wp (act_when p m) s Q \<longleftrightarrow> (if p s then wp m s Q else Q (Inr ()) s)"
  by (simp add: wp_def act_more_defs)

lemma wp_get [wp_simps]: "wp (act_get f) s Q \<longleftrightarrow> wp (f s) s Q"
  by (simp add: wp_def act_more_defs)

lemma wp_of [wp_simps]: "wp (act_of r) s Q \<longleftrightarrow> Q r s"
  by (simp add: wp_def act_more_defs)

lemma wp_snd [wp_simps]: "wp (act_snd m) (p, s) Q \<longleftrightarrow> wp m s (\<lambda>r s'. Q r (p, s'))"
  by (simp add: wp_def act_snd_def split: prod.split)

lemma wp_fst [wp_simps]: "wp (act_fst m) (s, p) Q \<longleftrightarrow> wp m s (\<lambda>r s'. Q r (s', p))"
  by (simp add: wp_def act_fst_def split: prod.split)

end
