(* ===== verification/Rk_Types.thy ===== *)
theory Rk_Types
  imports Rk_Prelude
begin

text \<open>
  The data types of \<^verbatim>\<open>core/types.py\<close>: the enumerations, the values that AMQP headers
  carry, publish outcomes, message envelopes and classified errors.

  A Python \<^verbatim>\<open>str\<close> is a \<^typ>\<open>string\<close> whose characters stand for the code points 0 to 255,
  so its UTF-8 length counts two bytes for every character from 128 on.  Exceptions are
  records: \<open>exc_mro\<close> lists the names of the classes the exception is an instance of, most
  derived first, and the other fields are the attributes rabbitkit reads or sets.
\<close>

section \<open>Enumerations\<close>

datatype queue_type = QT_CLASSIC | QT_QUORUM | QT_STREAM

datatype exchange_type = ET_DIRECT | ET_FANOUT | ET_TOPIC | ET_HEADERS

datatype ack_policy = AP_AUTO | AP_MANUAL | AP_NACK_ON_ERROR | AP_ACK_FIRST

datatype dedup_mark_policy = DM_ON_SUCCESS | DM_ON_START | DM_CLAIM

datatype reject_without_dlx_policy = RX_AUTO_PROVISION | RX_ERROR | RX_DISCARD

datatype topology_mode = TM_AUTO_DECLARE | TM_PASSIVE_ONLY | TM_MANUAL

datatype error_severity = SV_TRANSIENT | SV_PERMANENT

datatype error_category =
  EC_RETRYABLE | EC_PERMANENT | EC_INVALID_MESSAGE | EC_UNKNOWN_OUTCOME | EC_INFRASTRUCTURE | EC_SHUTDOWN

datatype publish_status =
  PS_CONFIRMED | PS_SENT | PS_NACKED | PS_TIMEOUT | PS_RETURNED | PS_ERROR | PS_NOT_SENT | PS_UNKNOWN

datatype bulk_publish_status =
  BP_CONFIRMED | BP_UNROUTABLE | BP_NACKED | BP_INVALID | BP_NOT_SENT | BP_UNKNOWN

datatype settlement_action = SA_ACK | SA_NACK | SA_REJECT

datatype settlement_item_status =
  SI_DISPATCHED | SI_ALREADY_SETTLED | SI_DUPLICATE | SI_INVALID | SI_STALE | SI_NOT_ATTEMPTED | SI_FAILED

datatype delivery_state =
  DS_OUTSTANDING | DS_SUCCESS | DS_RETRY_PENDING | DS_FAILED | DS_CANCELLED | DS_NACK | DS_REJECT

datatype terminal_action = TA_DEAD_LETTER | TA_REJECT

datatype failure_category =
  FC_TRANSIENT | FC_TIMEOUT_UNKNOWN | FC_PERMANENT | FC_EXHAUSTED | FC_RETRY_AGE_EXCEEDED

datatype handoff_state = HS_HEALTHY | HS_DEGRADED | HS_EXHAUSTED

fun ec_value :: "error_category \<Rightarrow> string" where
  "ec_value EC_RETRYABLE = ''retryable''"
| "ec_value EC_PERMANENT = ''permanent''"
| "ec_value EC_INVALID_MESSAGE = ''invalid_message''"
| "ec_value EC_UNKNOWN_OUTCOME = ''unknown_outcome''"
| "ec_value EC_INFRASTRUCTURE = ''infrastructure''"
| "ec_value EC_SHUTDOWN = ''shutdown''"

definition ec_severity :: "error_category \<Rightarrow> error_severity" where
  "ec_severity c =
     (if c \<in> {EC_PERMANENT, EC_INVALID_MESSAGE} then SV_PERMANENT else SV_TRANSIENT)"

fun sv_value :: "error_severity \<Rightarrow> string" where
  "sv_value SV_TRANSIENT = ''transient''"
| "sv_value SV_PERMANENT = ''permanent''"

fun fc_value :: "failure_category \<Rightarrow> string" where
  "fc_value FC_TRANSIENT = ''transient''"
| "fc_value FC_TIMEOUT_UNKNOWN = ''timeout-unknown''"
| "fc_value FC_PERMANENT = ''permanent''"
| "fc_value FC_EXHAUSTED = ''exhausted''"
| "fc_value FC_RETRY_AGE_EXCEEDED = ''retry-age-exceeded''"

fun sa_value :: "settlement_action \<Rightarrow> string" where
  "sa_value SA_ACK = ''ack''"
| "sa_value SA_NACK = ''nack''"
| "sa_value SA_REJECT = ''reject''"

text \<open>The three predicates of \<^verbatim>\<open>DeliveryState\<close>.\<close>

definition is_ack_safe :: "delivery_state \<Rightarrow> bool" where
  "is_ack_safe s \<longleftrightarrow> s = DS_SUCCESS"

definition is_emittable :: "delivery_state \<Rightarrow> bool" where
  "is_emittable s \<longleftrightarrow> s \<in> {DS_SUCCESS, DS_NACK, DS_REJECT}"

definition blocks_frontier :: "delivery_state \<Rightarrow> bool" where
  "blocks_frontier s \<longleftrightarrow> \<not> is_emittable s"

lemmas delivery_state_preds = is_ack_safe_def is_emittable_def blocks_frontier_def

section \<open>Header values and exceptions\<close>

datatype pyval =
    PyNone
  | PyBool bool
  | PyInt int
  | PyFloat real
  | PyFloatInf
  | PyFloatNan
  | PyStr string
  | PyBytes string
  | PyTime real
  | PyList "pyval list"
  | PyDict "(string \<times> pyval) list"

type_synonym headers = "(string, pyval) dict"

record py_exc =
  exc_id :: nat
  exc_mro :: "string list"
  exc_str :: string
  exc_category :: "error_category option"
  exc_takes_attrs :: bool
  exc_outcome_unknown :: bool
  exc_terminal :: bool
  exc_dead_lettered :: bool
  exc_dead_letter_failed :: bool
  exc_on_dead_lettered :: "error_category option"
  exc_requeue :: bool
  exc_links :: "(nat, string \<times> nat option \<times> nat option) dict"

definition mk_exc :: "string list \<Rightarrow> string \<Rightarrow> py_exc" where
  "mk_exc names s = \<lparr>exc_id = 0, exc_mro = names, exc_str = s, exc_category = None,
     exc_takes_attrs = True, exc_outcome_unknown = False, exc_terminal = False,
     exc_dead_lettered = False, exc_dead_letter_failed = False,
     exc_on_dead_lettered = None, exc_requeue = False,
     exc_links = []\<rparr>"

definition isinstance :: "py_exc \<Rightarrow> string list \<Rightarrow> bool" where
  "isinstance e names \<longleftrightarrow> (\<exists>n \<in> set (exc_mro e). n \<in> set names)"

definition type_name :: "py_exc \<Rightarrow> string" where
  "type_name e = (case exc_mro e of [] \<Rightarrow> '''' | n # _ \<Rightarrow> n)"

text \<open>What Python's \<^verbatim>\<open>except Exception\<close> catches, as opposed to \<^verbatim>\<open>except BaseException\<close>.\<close>

definition is_exception :: "py_exc \<Rightarrow> bool" where
  "is_exception e \<longleftrightarrow> isinstance e [''Exception'']"

lemma isinstance_mk_exc [simp]: "isinstance (mk_exc ns s) names \<longleftrightarrow> (\<exists>n \<in> set ns. n \<in> set names)"
  by (simp add: isinstance_def mk_exc_def)

text \<open>\<^verbatim>\<open>try: hook() except Exception: log\<close>.\<close>

definition guarded_hook :: "('s, py_exc, unit) act \<Rightarrow> ('s, py_exc, unit) act" where
  "guarded_hook h = act_try h (\<lambda>e. if is_exception e then act_ret () else act_raise e)"

section \<open>AMQP short strings\<close>

definition AMQP_SHORTSTR_MAX_BYTES :: nat where
  "AMQP_SHORTSTR_MAX_BYTES = 255"

definition utf8_len :: "string \<Rightarrow> nat" where
  "utf8_len s = (\<Sum>c \<leftarrow> s. if of_char c < (128 :: nat) then 1 else 2)"

definition config_validation_error :: "string \<Rightarrow> py_exc" where
  "config_validation_error s =
     mk_exc [''ConfigValidationError'', ''ConfigurationError'', ''ValueError'', ''Exception'', ''BaseException''] s"

definition validate_amqp_shortstr :: "string \<Rightarrow> string \<Rightarrow> py_exc + unit" where
  "validate_amqp_shortstr field_name s =
     (if utf8_len s > AMQP_SHORTSTR_MAX_BYTES then Inl (config_validation_error field_name) else Inr ())"

section \<open>Message envelopes\<close>

record envelope =
  me_routing_key :: string
  me_body :: string
  me_exchange :: string
  me_headers :: headers
  me_message_id :: string
  me_correlation_id :: "string option"
  me_reply_to :: "string option"
  me_timestamp :: "real option"
  me_content_type :: string
  me_content_encoding :: "string option"
  me_expiration :: "string option"
  me_priority :: "int option"
  me_mandatory :: bool
  me_delivery_mode :: int
  me_type :: "string option"
  me_user_id :: "string option"
  me_app_id :: "string option"

text \<open>
  The construction of a \<^verbatim>\<open>MessageEnvelope\<close>: \<^verbatim>\<open>__post_init__\<close> checks both short strings,
  the routing key first.
\<close>

definition message_envelope :: "envelope \<Rightarrow> py_exc + envelope" where
  "message_envelope e =
     (case validate_amqp_shortstr ''routing_key'' (me_routing_key e) of
        Inl x \<Rightarrow> Inl x
      | Inr _ \<Rightarrow> (case validate_amqp_shortstr ''exchange'' (me_exchange e) of
                    Inl x \<Rightarrow> Inl x
                  | Inr _ \<Rightarrow> Inr e))"

lemma message_envelope_Inr [simp]:
  "message_envelope e = Inr e' \<longleftrightarrow>
     e' = e \<and> utf8_len (me_routing_key e) \<le> 255 \<and> utf8_len (me_exchange e) \<le> 255"
  by (auto simp: message_envelope_def validate_amqp_shortstr_def AMQP_SHORTSTR_MAX_BYTES_def)

section \<open>Publish outcomes\<close>

record publish_outcome =
  po_status :: publish_status
  po_delivery_tag :: "int option"
  po_exchange :: string
  po_routing_key :: string
  po_error :: "py_exc option"
  po_timestamp :: real
  po_reason :: "string option"
  po_reply_code :: "int option"
  po_reply_text :: "string option"

definition po_is_unknown :: "publish_outcome \<Rightarrow> bool" where
  "po_is_unknown p \<longleftrightarrow> po_status p \<in> {PS_UNKNOWN, PS_TIMEOUT}"

definition po_ok :: "publish_outcome \<Rightarrow> bool" where
  "po_ok p \<longleftrightarrow> po_status p \<in> {PS_CONFIRMED, PS_SENT}"

datatype publish_error = PublishError publish_outcome

definition raise_for_status :: "publish_outcome \<Rightarrow> publish_error + publish_outcome" where
  "raise_for_status p = (if \<not> po_ok p then Inl (PublishError p) else Inr p)"

section \<open>Classified errors\<close>

record classified_error =
  ce_severity :: error_severity
  ce_original :: py_exc
  ce_reason :: string
  ce_outcome_unknown :: bool
  ce_category :: error_category

text \<open>The construction of a \<^verbatim>\<open>ClassifiedError\<close>, with the normalisation of \<^verbatim>\<open>__post_init__\<close>.\<close>

definition classified_error_init ::
    "error_severity \<Rightarrow> py_exc \<Rightarrow> string \<Rightarrow> bool \<Rightarrow> error_category \<Rightarrow> classified_error" where
  "classified_error_init sev orig reason unk cat =
     (let c1 = (if ec_severity cat \<noteq> sev
                then (if sev = SV_TRANSIENT then EC_RETRYABLE else EC_PERMANENT) else cat);
          c2 = (if unk \<and> c1 = EC_RETRYABLE then EC_UNKNOWN_OUTCOME else c1)
      in \<lparr>ce_severity = sev, ce_original = orig, ce_reason = reason, ce_outcome_unknown = unk,
          ce_category = c2\<rparr>)"

lemma classified_error_init_simps [simp]:
  "ce_severity (classified_error_init sev orig reason unk cat) = sev"
  "ce_original (classified_error_init sev orig reason unk cat) = orig"
  "ce_reason (classified_error_init sev orig reason unk cat) = reason"
  "ce_outcome_unknown (classified_error_init sev orig reason unk cat) = unk"
  by (simp_all add: classified_error_init_def Let_def)

lemma classified_error_consistent:
  "ec_severity (ce_category (classified_error_init sev orig reason unk cat)) = sev"
  by (cases sev) (auto simp: classified_error_init_def ec_severity_def Let_def)

end
