(* ===== verification/Rk_Coordinator.thy ===== *)
theory Rk_Coordinator
  imports Rk_Types
begin

text \<open>
  \<^verbatim>\<open>SettlementCoordinator\<close> (\<^verbatim>\<open>core/settlement.py\<close>): the delivery ledger of one channel
  generation, its registration and intent operations, the planning walk and the
  plan/emit/commit bookkeeping.

  Every method of the class takes its lock for its whole body, so an operation is a function
  on the record of the coordinator's attributes.  The clock is passed as the argument \<open>now\<close>.
  Delivery tags and counters are Python integers.
\<close>

section \<open>Commands and batches\<close>

record settlement_command =
  sc_kind :: settlement_action
  sc_delivery_tag :: int
  sc_multiple :: bool
  sc_requeue :: bool
  sc_covers :: "int list"
  sc_generation :: int

record settlement_batch =
  sb_commands :: "settlement_command list"
  sb_generation :: int
  sb_batch_id :: int

definition covered_tags :: "settlement_batch \<Rightarrow> int list" where
  "covered_tags b = sort (concat (map sc_covers (sb_commands b)))"

record emission_report =
  er_batch_id :: int
  er_generation :: int
  er_emitted :: "settlement_command list"
  er_failed :: "settlement_command option"
  er_error :: "py_exc option"
  er_not_attempted :: "settlement_command list"
  er_invalidated :: bool
  er_unresolved_tags :: "int list"

definition er_ok :: "emission_report \<Rightarrow> bool" where
  "er_ok r \<longleftrightarrow> er_failed r = None \<and> er_not_attempted r = []"

definition er_settled_tags :: "emission_report \<Rightarrow> int" where
  "er_settled_tags r = (\<Sum>c \<leftarrow> er_emitted r. int (length (sc_covers c)))"

definition er_coalesced_tags :: "emission_report \<Rightarrow> int" where
  "er_coalesced_tags r =
     (\<Sum>c \<leftarrow> er_emitted r. if sc_multiple c \<and> length (sc_covers c) > 1
                       then int (length (sc_covers c)) - 1 else 0)"

datatype coordinator_error =
    CoordinatorError
  | UnknownDeliveryError
  | StaleGenerationError
  | ContradictorySettlementError
  | LedgerFullError

section \<open>The coordinator\<close>

record coordinator =
  c_generation :: int
  c_coalesce :: bool
  c_max_hold :: int
  c_max_pending :: int
  c_ledger :: "(int, delivery_state) dict"
  c_hold :: "(int, int) dict"
  c_requeue :: "(int, bool) dict"
  c_registered_at :: "(int, real) dict"
  c_last_registered :: int
  c_gap_floor :: int
  c_unregistered_gaps :: int
  c_prev_high_water :: int
  c_registered_count :: int
  c_settled_count :: int
  c_coalesced_count :: int
  c_frames_sent :: int
  c_invalidations :: int
  c_dropped_on_invalidate :: int
  c_reserved :: "(int, int) dict"
  c_next_batch_id :: int
  c_unresolved_count :: int
  c_frames_failed :: int
  c_frames_not_attempted :: int

definition coordinator_init :: "int \<Rightarrow> bool \<Rightarrow> int \<Rightarrow> int \<Rightarrow> coordinator" where
  "coordinator_init generation coalesce max_hold max_pending =
     \<lparr>c_generation = generation, c_coalesce = coalesce, c_max_hold = max 0 max_hold,
      c_max_pending = max 0 max_pending, c_ledger = [], c_hold = [], c_requeue = [],
      c_registered_at = [], c_last_registered = 0, c_gap_floor = 0, c_unregistered_gaps = 0,
      c_prev_high_water = 0, c_registered_count = 0, c_settled_count = 0, c_coalesced_count = 0,
      c_frames_sent = 0, c_invalidations = 0, c_dropped_on_invalidate = 0, c_reserved = [],
      c_next_batch_id = 1, c_unresolved_count = 0, c_frames_failed = 0,
      c_frames_not_attempted = 0\<rparr>"

definition transitions :: "delivery_state \<Rightarrow> delivery_state set" where
  "transitions s =
     (case s of
        DS_OUTSTANDING \<Rightarrow> {DS_SUCCESS, DS_NACK, DS_REJECT, DS_RETRY_PENDING, DS_FAILED, DS_CANCELLED}
      | DS_RETRY_PENDING \<Rightarrow> {DS_SUCCESS, DS_NACK, DS_REJECT, DS_FAILED, DS_CANCELLED}
      | DS_FAILED \<Rightarrow> {DS_NACK, DS_REJECT}
      | DS_CANCELLED \<Rightarrow> {DS_NACK, DS_REJECT}
      | DS_SUCCESS \<Rightarrow> {}
      | DS_NACK \<Rightarrow> {}
      | DS_REJECT \<Rightarrow> {})"

section \<open>Inspection\<close>

abbreviation ledger_tags :: "coordinator \<Rightarrow> int list" where
  "ledger_tags c \<equiv> dict_keys (c_ledger c)"

definition outstanding :: "coordinator \<Rightarrow> int" where
  "outstanding c = int (length (filter (\<lambda>s. s = DS_OUTSTANDING) (map snd (c_ledger c))))"

definition pending :: "coordinator \<Rightarrow> int" where
  "pending c = int (length (c_ledger c))"

definition ack_ready :: "coordinator \<Rightarrow> int" where
  "ack_ready c = int (length (filter is_ack_safe (map snd (c_ledger c))))"

definition state_of :: "coordinator \<Rightarrow> int \<Rightarrow> delivery_state option" where
  "state_of c tag = dict_get (c_ledger c) tag"

text \<open>The loop of \<^verbatim>\<open>_frontier_locked\<close>, over the sorted tags and with the value so far.\<close>

fun frontier_loop :: "coordinator \<Rightarrow> int list \<Rightarrow> int \<Rightarrow> int" where
  "frontier_loop c [] frontier = frontier"
| "frontier_loop c (tag # tags) frontier =
     (if c_gap_floor c \<noteq> 0 \<and> tag > c_gap_floor c then frontier
      else if map_option is_ack_safe (state_of c tag) = Some True then frontier_loop c tags tag
      else frontier)"

definition frontier :: "coordinator \<Rightarrow> int" where
  "frontier c = frontier_loop c (sort (ledger_tags c)) 0"

definition gap_count :: "coordinator \<Rightarrow> int" where
  "gap_count c =
     (let tags = sort (ledger_tags c);
          ready = filter (\<lambda>t. map_option is_ack_safe (state_of c t) = Some True) tags;
          highest_ready = (if ready = [] then 0 else Max (set ready))
      in int (length (filter (\<lambda>t. t < highest_ready
                \<and> map_option blocks_frontier (state_of c t) = Some True) tags)))"

definition oldest_pending_age :: "real \<Rightarrow> coordinator \<Rightarrow> real" where
  "oldest_pending_age now c =
     (if c_registered_at c = [] then 0
      else max 0 (now - min_list (map snd (c_registered_at c))))"

definition stats :: "real \<Rightarrow> coordinator \<Rightarrow> (string, real) dict" where
  "stats now c =
     [(''registered'', of_int (c_registered_count c)),
      (''pending'', of_int (pending c)),
      (''outstanding'', of_int (outstanding c)),
      (''ack_ready'', of_int (ack_ready c)),
      (''frontier'', of_int (frontier c)),
      (''settled'', of_int (c_settled_count c)),
      (''coalesced'', of_int (c_coalesced_count c)),
      (''frames_sent'', of_int (c_frames_sent c)),
      (''coalescing_ratio'',
         if c_frames_sent c \<noteq> 0 then of_int (c_settled_count c) / of_int (c_frames_sent c) else 0),
      (''invalidations'', of_int (c_invalidations c)),
      (''dropped_on_invalidate'', of_int (c_dropped_on_invalidate c)),
      (''reserved'', of_nat (length (c_reserved c))),
      (''unresolved'', of_int (c_unresolved_count c)),
      (''frames_failed'', of_int (c_frames_failed c)),
      (''frames_not_attempted'', of_int (c_frames_not_attempted c)),
      (''gap_floor'', of_int (c_gap_floor c)),
      (''unregistered_gaps'', of_int (c_unregistered_gaps c)),
      (''oldest_pending_age'', oldest_pending_age now c)]"

section \<open>Registration and intents\<close>

definition register :: "real \<Rightarrow> int \<Rightarrow> coordinator \<Rightarrow> coordinator_error + coordinator" where
  "register now tag c =
     (if tag \<le> 0 then Inl CoordinatorError
      else if tag \<le> c_last_registered c then Inl CoordinatorError
      else if c_max_pending c \<noteq> 0 \<and> int (length (c_ledger c)) \<ge> c_max_pending c then Inl LedgerFullError
      else
        let c1 = (if tag > c_last_registered c + 1
                  then c\<lparr>c_unregistered_gaps := c_unregistered_gaps c + 1,
                         c_gap_floor := (if c_gap_floor c = 0 then c_last_registered c + 1
                                         else c_gap_floor c)\<rparr>
                  else c)
        in Inr (c1\<lparr>c_ledger := dict_set tag DS_OUTSTANDING (c_ledger c1),
                   c_registered_at := dict_set tag now (c_registered_at c1),
                   c_last_registered := tag,
                   c_registered_count := c_registered_count c1 + 1\<rparr>))"

definition missing :: "int \<Rightarrow> coordinator \<Rightarrow> coordinator_error" where
  "missing tag c =
     (if tag \<le> c_last_registered c then ContradictorySettlementError
      else if tag \<le> c_prev_high_water c then StaleGenerationError
      else UnknownDeliveryError)"

definition set_intent ::
    "int \<Rightarrow> delivery_state \<Rightarrow> bool option \<Rightarrow> coordinator \<Rightarrow> coordinator_error + coordinator" where
  "set_intent tag state requeue c =
     (case dict_get (c_ledger c) tag of
        None \<Rightarrow> Inl (missing tag c)
      | Some current \<Rightarrow>
          if current = state then
            (if requeue \<noteq> None \<and> dict_get (c_requeue c) tag \<noteq> requeue
             then Inl ContradictorySettlementError else Inr c)
          else if state \<notin> transitions current then Inl ContradictorySettlementError
          else Inr (c\<lparr>c_ledger := dict_set tag state (c_ledger c),
                      c_requeue := (case requeue of None \<Rightarrow> c_requeue c
                                    | Some r \<Rightarrow> dict_set tag r (c_requeue c))\<rparr>))"

definition mark_success :: "int \<Rightarrow> coordinator \<Rightarrow> coordinator_error + coordinator" where
  "mark_success tag = set_intent tag DS_SUCCESS None"

definition mark_retry_pending :: "int \<Rightarrow> coordinator \<Rightarrow> coordinator_error + coordinator" where
  "mark_retry_pending tag = set_intent tag DS_RETRY_PENDING None"

definition mark_failed :: "int \<Rightarrow> coordinator \<Rightarrow> coordinator_error + coordinator" where
  "mark_failed tag = set_intent tag DS_FAILED None"

definition mark_cancelled :: "int \<Rightarrow> coordinator \<Rightarrow> coordinator_error + coordinator" where
  "mark_cancelled tag = set_intent tag DS_CANCELLED None"

definition mark_nack :: "int \<Rightarrow> bool \<Rightarrow> coordinator \<Rightarrow> coordinator_error + coordinator" where
  "mark_nack tag requeue = set_intent tag DS_NACK (Some requeue)"

definition mark_reject :: "int \<Rightarrow> bool \<Rightarrow> coordinator \<Rightarrow> coordinator_error + coordinator" where
  "mark_reject tag requeue = set_intent tag DS_REJECT (Some requeue)"

text \<open>\<^verbatim>\<open>release\<close> leaves a reservation of the tag in place, as the code does.\<close>

definition release :: "int \<Rightarrow> coordinator \<Rightarrow> coordinator" where
  "release tag c = c\<lparr>c_ledger := dict_pop tag (c_ledger c), c_hold := dict_pop tag (c_hold c),
     c_requeue := dict_pop tag (c_requeue c), c_registered_at := dict_pop tag (c_registered_at c)\<rparr>"

section \<open>Planning\<close>

text \<open>The local variables of \<^verbatim>\<open>_plan_locked\<close>, together with the \<^verbatim>\<open>_hold\<close> attribute it updates.
  The set \<^verbatim>\<open>covered\<close> is kept as a list.\<close>

record plan_acc =
  pa_commands :: "settlement_command list"
  pa_covered :: "int list"
  pa_run :: "int list"
  pa_blocked :: bool
  pa_hold :: "(int, int) dict"

definition ack_one :: "coordinator \<Rightarrow> int \<Rightarrow> settlement_command" where
  "ack_one c t = \<lparr>sc_kind = SA_ACK, sc_delivery_tag = t, sc_multiple = False, sc_requeue = False,
     sc_covers = [t], sc_generation = c_generation c\<rparr>"

definition ack_range :: "coordinator \<Rightarrow> int list \<Rightarrow> settlement_command" where
  "ack_range c safe = \<lparr>sc_kind = SA_ACK, sc_delivery_tag = last safe, sc_multiple = True,
     sc_requeue = False, sc_covers = safe, sc_generation = c_generation c\<rparr>"

definition refuse_one :: "coordinator \<Rightarrow> delivery_state \<Rightarrow> int \<Rightarrow> settlement_command" where
  "refuse_one c state t = \<lparr>sc_kind = (if state = DS_NACK then SA_NACK else SA_REJECT),
     sc_delivery_tag = t, sc_multiple = False,
     sc_requeue = dict_get_or (c_requeue c) t (state = DS_NACK),
     sc_covers = [t], sc_generation = c_generation c\<rparr>"

definition flush_commands :: "coordinator \<Rightarrow> bool \<Rightarrow> int list \<Rightarrow> settlement_command list" where
  "flush_commands c force_individual run =
     (let safe = (if c_gap_floor c \<noteq> 0 then filter (\<lambda>t. t < c_gap_floor c) run else run);
          rest = (if c_gap_floor c \<noteq> 0 then drop (length safe) run else [])
      in if c_coalesce c \<and> \<not> force_individual \<and> length safe \<ge> 2
         then ack_range c safe # map (ack_one c) rest
         else map (ack_one c) run)"

definition flush_run :: "coordinator \<Rightarrow> bool \<Rightarrow> plan_acc \<Rightarrow> plan_acc" where
  "flush_run c force_individual a =
     (if pa_run a = [] then a
      else a\<lparr>pa_commands := pa_commands a @ flush_commands c force_individual (pa_run a),
             pa_covered := pa_covered a @ pa_run a,
             pa_run := []\<rparr>)"

definition plan_tag :: "coordinator \<Rightarrow> bool \<Rightarrow> int \<Rightarrow> plan_acc \<Rightarrow> plan_acc" where
  "plan_tag c force_individual tag a =
     (if dict_has (c_reserved c) tag
      then (flush_run c force_individual a)\<lparr>pa_blocked := True\<rparr>
      else case dict_get (c_ledger c) tag of
        None \<Rightarrow> a
      | Some state \<Rightarrow>
          if is_ack_safe state then
            (if \<not> pa_blocked a then a\<lparr>pa_run := pa_run a @ [tag]\<rparr>
             else if c_coalesce c \<and> \<not> force_individual
                       \<and> dict_get_or (pa_hold a) tag 0 < c_max_hold c
             then a\<lparr>pa_hold := dict_set tag (dict_get_or (pa_hold a) tag 0 + 1) (pa_hold a)\<rparr>
             else a\<lparr>pa_commands := pa_commands a @ [ack_one c tag],
                    pa_covered := pa_covered a @ [tag]\<rparr>)
          else if state = DS_NACK \<or> state = DS_REJECT then
            (let a1 = flush_run c force_individual a
             in a1\<lparr>pa_commands := pa_commands a1 @ [refuse_one c state tag],
                   pa_covered := pa_covered a1 @ [tag]\<rparr>)
          else (flush_run c force_individual a)\<lparr>pa_blocked := True\<rparr>)"

definition plan_walk :: "coordinator \<Rightarrow> bool \<Rightarrow> int list \<Rightarrow> plan_acc" where
  "plan_walk c force_individual tags =
     fold (plan_tag c force_individual) tags
       \<lparr>pa_commands = [], pa_covered = [], pa_run = [], pa_blocked = False, pa_hold = c_hold c\<rparr>"

definition plan_locked ::
    "bool \<Rightarrow> coordinator \<Rightarrow> settlement_command list \<times> int list \<times> coordinator" where
  "plan_locked force_individual c =
     (let a = flush_run c force_individual (plan_walk c force_individual (sort (ledger_tags c)))
      in (sort_key sc_delivery_tag (pa_commands a), pa_covered a, c\<lparr>c_hold := pa_hold a\<rparr>))"

definition settle_tags :: "int list \<Rightarrow> coordinator \<Rightarrow> coordinator" where
  "settle_tags tags c = c\<lparr>
     c_ledger := dict_pop_all tags (c_ledger c),
     c_hold := dict_pop_all tags (c_hold c),
     c_requeue := dict_pop_all tags (c_requeue c),
     c_registered_at := dict_pop_all tags (c_registered_at c),
     c_reserved := dict_pop_all tags (c_reserved c)\<rparr>"

section \<open>Prepare, commit, fail, release\<close>

definition prepare :: "bool \<Rightarrow> coordinator \<Rightarrow> settlement_batch \<times> coordinator" where
  "prepare force_individual c =
     (if c_ledger c = []
      then (\<lparr>sb_commands = [], sb_generation = c_generation c, sb_batch_id = 0\<rparr>, c)
      else case plan_locked force_individual c of
        (commands, covered, c1) \<Rightarrow>
          (let batch_id = c_next_batch_id c1
           in (\<lparr>sb_commands = commands, sb_generation = c_generation c1, sb_batch_id = batch_id\<rparr>,
               c1\<lparr>c_next_batch_id := batch_id + 1,
                  c_reserved := dict_update_all (c_reserved c1) (map (\<lambda>t. (t, batch_id)) covered)\<rparr>)))"

definition commit_command :: "settlement_batch \<Rightarrow> settlement_command \<Rightarrow> coordinator \<Rightarrow> coordinator" where
  "commit_command batch command c =
     (if sb_generation batch \<noteq> c_generation c then c
      else let n = int (length (sc_covers command)); c1 = settle_tags (sc_covers command) c
           in c1\<lparr>c_settled_count := c_settled_count c1 + n,
                 c_frames_sent := c_frames_sent c1 + 1,
                 c_coalesced_count := (if sc_multiple command \<and> n > 1 then c_coalesced_count c1 + n
                                       else c_coalesced_count c1)\<rparr>)"

text \<open>\<^verbatim>\<open>invalidate\<close> returns the dropped tags.\<close>

definition invalidate :: "coordinator \<Rightarrow> int list \<times> coordinator" where
  "invalidate c =
     (let dropped = sort (ledger_tags c)
      in (dropped,
          c\<lparr>c_prev_high_water := max (c_prev_high_water c) (c_last_registered c),
            c_ledger := [], c_hold := [], c_requeue := [], c_registered_at := [],
            c_reserved := [], c_last_registered := 0, c_gap_floor := 0,
            c_generation := c_generation c + 1,
            c_invalidations := c_invalidations c + 1,
            c_dropped_on_invalidate := c_dropped_on_invalidate c + int (length dropped)\<rparr>))"

definition fail_command ::
    "settlement_batch \<Rightarrow> settlement_command \<Rightarrow> coordinator \<Rightarrow> bool \<times> coordinator" where
  "fail_command batch command c =
     (if sb_generation batch \<noteq> c_generation c then (False, c)
      else let c1 = settle_tags (sc_covers command) c;
               c2 = c1\<lparr>c_unresolved_count := c_unresolved_count c1 + int (length (sc_covers command)),
                       c_frames_failed := c_frames_failed c1 + 1\<rparr>
           in if sc_kind command \<in> {SA_NACK, SA_REJECT}
              then (True, snd (invalidate c2)) else (False, c2))"

definition release_one :: "settlement_batch \<Rightarrow> settlement_command \<Rightarrow> coordinator \<Rightarrow> coordinator" where
  "release_one batch command c =
     c\<lparr>c_reserved := fold (\<lambda>tag r. if dict_get r tag = Some (sb_batch_id batch) then dict_pop tag r else r)
                       (sc_covers command) (c_reserved c),
       c_frames_not_attempted := c_frames_not_attempted c + 1\<rparr>"

definition release_commands ::
    "settlement_batch \<Rightarrow> settlement_command list \<Rightarrow> coordinator \<Rightarrow> coordinator" where
  "release_commands batch commands c =
     (if sb_generation batch \<noteq> c_generation c then c
      else fold (release_one batch) commands c)"

definition plan :: "bool \<Rightarrow> coordinator \<Rightarrow> settlement_command list \<times> coordinator" where
  "plan force_individual c =
     (if c_ledger c = [] then ([], c)
      else case plan_locked force_individual c of
        (commands, covered, c1) \<Rightarrow>
          (let c2 = settle_tags covered c1
           in (commands,
               c2\<lparr>c_settled_count := c_settled_count c2 + int (length covered),
                  c_frames_sent := c_frames_sent c2 + int (length commands),
                  c_coalesced_count := c_coalesced_count c2
                    + (\<Sum>k \<leftarrow> commands. if sc_multiple k \<and> length (sc_covers k) > 1
                                    then int (length (sc_covers k)) else 0)\<rparr>)))"

definition drain_plan :: "coordinator \<Rightarrow> settlement_command list \<times> coordinator" where
  "drain_plan = plan True"

definition prepare_drain :: "coordinator \<Rightarrow> settlement_batch \<times> coordinator" where
  "prepare_drain = prepare True"

section \<open>Well-formed coordinators\<close>

text \<open>
  The invariant of the class: the ledger's insertion order is the ascending tag order, its
  tags were registered on this generation, the gap floor is a tag that was not, every entry
  has a registration time, every approved nack or reject has its requeue flag, and
  \<^verbatim>\<open>max_pending\<close> bounds the ledger.
\<close>

definition ledger_ok :: "coordinator \<Rightarrow> bool" where
  "ledger_ok c \<longleftrightarrow>
     sorted_wrt (<) (ledger_tags c)
     \<and> (\<forall>t \<in> set (ledger_tags c). 0 < t \<and> t \<le> c_last_registered c)
     \<and> 0 \<le> c_gap_floor c \<and> c_gap_floor c \<le> c_last_registered c
     \<and> c_gap_floor c \<notin> set (ledger_tags c)"

definition books_ok :: "coordinator \<Rightarrow> bool" where
  "books_ok c \<longleftrightarrow>
     dict_ok (c_hold c) \<and> dict_ok (c_requeue c) \<and> dict_ok (c_reserved c)
     \<and> dict_keys (c_registered_at c) = ledger_tags c
     \<and> set (dict_keys (c_hold c)) \<subseteq> set (ledger_tags c)
     \<and> (\<forall>t. 0 \<le> dict_get_or (c_hold c) t 0)
     \<and> (\<forall>t s. dict_get (c_ledger c) t = Some s \<and> s \<in> {DS_NACK, DS_REJECT}
              \<longrightarrow> dict_get (c_requeue c) t \<noteq> None)
     \<and> 0 \<le> c_max_hold c \<and> 0 \<le> c_max_pending c
     \<and> (c_max_pending c \<noteq> 0 \<longrightarrow> int (length (c_ledger c)) \<le> c_max_pending c)"

definition coord_ok :: "coordinator \<Rightarrow> bool" where
  "coord_ok c \<longleftrightarrow> ledger_ok c \<and> books_ok c"

lemma coord_ok_counters [simp]:
  "coord_ok (c\<lparr>c_settled_count := i\<rparr>) = coord_ok c" "coord_ok (c\<lparr>c_frames_sent := i\<rparr>) = coord_ok c"
  "coord_ok (c\<lparr>c_coalesced_count := i\<rparr>) = coord_ok c"
  "coord_ok (c\<lparr>c_unresolved_count := i\<rparr>) = coord_ok c"
  "coord_ok (c\<lparr>c_frames_failed := i\<rparr>) = coord_ok c"
  "coord_ok (c\<lparr>c_frames_not_attempted := i\<rparr>) = coord_ok c"
  by (simp_all add: coord_ok_def ledger_ok_def books_ok_def)

lemma coord_ok_hold:
  "coord_ok c \<Longrightarrow> dict_ok h \<Longrightarrow> set (dict_keys h) \<subseteq> set (ledger_tags c) \<Longrightarrow>
     (\<forall>t. 0 \<le> dict_get_or h t 0) \<Longrightarrow> coord_ok (c\<lparr>c_hold := h\<rparr>)"
  by (simp add: coord_ok_def ledger_ok_def books_ok_def)

lemma coord_ok_books:
  "coord_ok c \<Longrightarrow> dict_ok h \<Longrightarrow> set (dict_keys h) \<subseteq> set (ledger_tags c) \<Longrightarrow>
     (\<forall>t. 0 \<le> dict_get_or h t 0) \<Longrightarrow> dict_ok r \<Longrightarrow>
     coord_ok (c\<lparr>c_hold := h, c_next_batch_id := i, c_reserved := r\<rparr>)"
  by (simp add: coord_ok_def ledger_ok_def books_ok_def)

lemma ledger_ok_sort: "ledger_ok c \<Longrightarrow> sort (ledger_tags c) = ledger_tags c"
  by (simp add: ledger_ok_def sorted_sort_id strict_sorted_imp_sorted)

lemma ledger_ok_distinct: "ledger_ok c \<Longrightarrow> distinct (ledger_tags c)"
  by (simp add: ledger_ok_def strict_sorted_iff)

lemma ledger_ok_pop_all:
  "ledger_ok c \<Longrightarrow> c_ledger c' = dict_pop_all ts (c_ledger c) \<Longrightarrow>
     c_last_registered c' = c_last_registered c \<Longrightarrow> c_gap_floor c' = c_gap_floor c \<Longrightarrow> ledger_ok c'"
  by (auto simp: ledger_ok_def dict_keys_pop_all sorted_wrt_filter)

lemma coordinator_init_ok: "coord_ok (coordinator_init g co mh mp)"
  by (auto simp: coord_ok_def ledger_ok_def books_ok_def coordinator_init_def dict_get_or_def)

lemma register_Inr:
  assumes "register now tag c = Inr c'"
  shows "0 < tag" "c_last_registered c < tag"
    "c_max_pending c = 0 \<or> int (length (c_ledger c)) < c_max_pending c"
    "c_ledger c' = dict_set tag DS_OUTSTANDING (c_ledger c)"
    "c_last_registered c' = tag"
    "c_gap_floor c' = (if c_gap_floor c = 0 \<and> tag > c_last_registered c + 1
                       then c_last_registered c + 1 else c_gap_floor c)"
    "c_registered_at c' = dict_set tag now (c_registered_at c)"
    "c_hold c' = c_hold c" "c_requeue c' = c_requeue c" "c_reserved c' = c_reserved c"
    "c_max_hold c' = c_max_hold c" "c_max_pending c' = c_max_pending c"
    "c_generation c' = c_generation c" "c_coalesce c' = c_coalesce c"
  using assms by (auto simp: register_def Let_def split: if_splits)

lemma register_ok:
  assumes ok: "coord_ok c" and reg: "register now tag c = Inr c'"
  shows "coord_ok c'"
proof -
  note r = register_Inr [OF reg]
  have absent: "tag \<notin> set (ledger_tags c)"
    using ok r(2) by (auto simp: coord_ok_def ledger_ok_def)
  have "ledger_ok c'"
    using ok r(1,2) absent
    by (force simp: coord_ok_def ledger_ok_def r(4-6) dict_keys_set_absent sorted_wrt_less_snoc)
  moreover have "books_ok c'"
    using ok r(3) absent
    by (auto simp: coord_ok_def books_ok_def r(4,7-12) dict_set_absent dict_keys_set_absent split: if_splits)
  ultimately show ?thesis by (simp add: coord_ok_def)
qed

lemma set_intent_Inr:
  assumes "set_intent tag state requeue c = Inr c'"
  obtains "c' = c" "dict_get (c_ledger c) tag = Some state"
  | current where "dict_get (c_ledger c) tag = Some current" "state \<in> transitions current"
      "c' = c\<lparr>c_ledger := dict_set tag state (c_ledger c),
              c_requeue := (case requeue of None \<Rightarrow> c_requeue c | Some r \<Rightarrow> dict_set tag r (c_requeue c))\<rparr>"
  using assms by (auto simp: set_intent_def split: option.splits if_splits)

lemma set_intent_ok:
  assumes ok: "coord_ok c" and s: "set_intent tag state requeue c = Inr c'"
    and req: "state \<in> {DS_NACK, DS_REJECT} \<Longrightarrow> requeue \<noteq> None"
  shows "coord_ok c'"
  using s
proof (cases rule: set_intent_Inr)
  case 1
  with ok show ?thesis by simp
next
  case (2 current)
  then have present: "tag \<in> set (ledger_tags c)" by (auto dest: dict_get_SomeD)
  have len: "length (dict_set tag state (c_ledger c)) = length (c_ledger c)"
    using arg_cong [OF dict_keys_set_present [OF present, of state], of length] by simp
  have "ledger_ok c'" using ok 2(3) present
    by (simp add: coord_ok_def ledger_ok_def dict_keys_set_present)
  moreover have "books_ok c'" using ok 2(3) present req
    by (cases requeue)
       (auto simp: coord_ok_def books_ok_def dict_keys_set_present len split: if_splits)
  ultimately show ?thesis by (simp add: coord_ok_def)
qed

lemmas mark_defs = mark_success_def mark_retry_pending_def mark_failed_def mark_cancelled_def
  mark_nack_def mark_reject_def

lemma length_dict_pop_all: "length (dict_pop_all ts d) \<le> length d"
  by (metis dict_keys_pop_all length_filter_le length_map)

lemma books_ok_pop_all:
  assumes "books_ok c"
    and "c_ledger c' = dict_pop_all ts (c_ledger c)" "c_hold c' = dict_pop_all ts (c_hold c)"
    and "c_requeue c' = dict_pop_all ts (c_requeue c)"
    and "c_registered_at c' = dict_pop_all ts (c_registered_at c)"
    and "dict_ok (c_reserved c')" and "c_max_hold c' = c_max_hold c" "c_max_pending c' = c_max_pending c"
  shows "books_ok c'"
  using assms length_dict_pop_all [of ts "c_ledger c"]
  by (auto simp: books_ok_def dict_keys_pop_all dict_get_or_def)

lemma settle_tags_ok:
  assumes "coord_ok c"
  shows "coord_ok (settle_tags ts c)"
proof -
  have "ledger_ok (settle_tags ts c)"
    by (rule ledger_ok_pop_all [where c = c and ts = ts])
       (use assms in \<open>simp_all add: coord_ok_def settle_tags_def\<close>)
  moreover have "books_ok (settle_tags ts c)"
    by (rule books_ok_pop_all [where c = c and ts = ts])
       (use assms in \<open>auto simp: coord_ok_def settle_tags_def books_ok_def\<close>)
  ultimately show ?thesis by (simp add: coord_ok_def)
qed

lemma release_ok:
  assumes "coord_ok c"
  shows "coord_ok (release t c)"
proof -
  have "ledger_ok (release t c)"
    by (rule ledger_ok_pop_all [where c = c and ts = "[t]"])
       (use assms in \<open>simp_all add: coord_ok_def release_def\<close>)
  moreover have "books_ok (release t c)"
    by (rule books_ok_pop_all [where c = c and ts = "[t]"])
       (use assms in \<open>auto simp: coord_ok_def release_def books_ok_def\<close>)
  ultimately show ?thesis by (simp add: coord_ok_def)
qed

lemma invalidate_ok: "coord_ok c \<Longrightarrow> coord_ok (snd (invalidate c))"
  by (simp add: coord_ok_def ledger_ok_def books_ok_def invalidate_def Let_def dict_get_or_def)

lemma commit_command_ok: "coord_ok c \<Longrightarrow> coord_ok (commit_command b k c)"
  by (simp add: commit_command_def Let_def settle_tags_ok)

lemma fail_command_ok: "coord_ok c \<Longrightarrow> coord_ok (snd (fail_command b k c))"
  by (simp add: fail_command_def Let_def settle_tags_ok invalidate_ok)

lemma release_fold_ok:
  "dict_ok r \<Longrightarrow> dict_ok (fold (\<lambda>tag r. if dict_get r tag = Some i then dict_pop tag r else r) ts r)"
  by (induction ts arbitrary: r) auto

lemma release_one_ok: "coord_ok c \<Longrightarrow> coord_ok (release_one b k c)"
  by (simp add: release_one_def coord_ok_def ledger_ok_def books_ok_def release_fold_ok)

lemma release_commands_ok: "coord_ok c \<Longrightarrow> coord_ok (release_commands b ks c)"
proof -
  have "coord_ok c \<Longrightarrow> coord_ok (fold (release_one b) ks c)"
    by (induction ks arbitrary: c) (simp_all add: release_one_ok)
  then show "coord_ok c \<Longrightarrow> coord_ok (release_commands b ks c)"
    by (simp add: release_commands_def)
qed

end
