(* ===== verification/Rk_Plan.thy ===== *)
theory Rk_Plan
  imports Rk_Coordinator
begin

text \<open>
  The planning walk of the coordinator: what a plan may contain, proved by an invariant over
  the tags walked so far.  \<open>sweeps_ok\<close> is the condition under which a cumulative ack is safe;
  the channel model uses the same condition for the commands still to be sent.
\<close>

section \<open>Commands\<close>

abbreviation covers_all :: "settlement_command list \<Rightarrow> int list" where
  "covers_all ks \<equiv> concat (map sc_covers ks)"

fun action_state :: "settlement_action \<Rightarrow> delivery_state" where
  "action_state SA_ACK = DS_SUCCESS"
| "action_state SA_NACK = DS_NACK"
| "action_state SA_REJECT = DS_REJECT"

text \<open>A command the ledger justifies: it covers only unreserved entries in the state its kind
  needs, one of them unless it is a cumulative ack, and a cumulative ack stays below the gap.\<close>

definition cmd_ok :: "coordinator \<Rightarrow> settlement_command \<Rightarrow> bool" where
  "cmd_ok c k \<longleftrightarrow>
     sc_covers k \<noteq> [] \<and> sc_delivery_tag k = last (sc_covers k) \<and> sc_generation k = c_generation c
     \<and> (\<forall>t \<in> set (sc_covers k). \<not> dict_has (c_reserved c) t
           \<and> dict_get (c_ledger c) t = Some (action_state (sc_kind k)))
     \<and> (if sc_multiple k
        then sc_kind k = SA_ACK \<and> c_coalesce c \<and> length (sc_covers k) \<ge> 2
             \<and> (c_gap_floor c \<noteq> 0 \<longrightarrow> sc_delivery_tag k < c_gap_floor c)
        else sc_covers k = [sc_delivery_tag k])"

text \<open>Every cumulative ack in \<open>ks\<close> reaches only tags of \<open>T\<close> that are in \<open>A\<close>, or that it or an
  earlier command of the list covers.\<close>

fun sweeps_ok :: "int set \<Rightarrow> int set \<Rightarrow> settlement_command list \<Rightarrow> bool" where
  "sweeps_ok T A [] = True"
| "sweeps_ok T A (k # ks) =
     ((sc_multiple k \<longrightarrow> (\<forall>t \<in> T. t \<le> sc_delivery_tag k \<longrightarrow> t \<in> A \<union> set (sc_covers k)))
      \<and> sweeps_ok T (A \<union> set (sc_covers k)) ks)"

lemma sweeps_ok_append:
  "sweeps_ok T A (xs @ ys) \<longleftrightarrow> sweeps_ok T A xs \<and> sweeps_ok T (A \<union> set (covers_all xs)) ys"
  by (induction xs arbitrary: A) (auto simp: Un_assoc)

lemma sweeps_ok_single: "(\<forall>k \<in> set ks. \<not> sc_multiple k) \<Longrightarrow> sweeps_ok T A ks"
  by (induction ks arbitrary: A) auto

lemma sweeps_ok_mono:
  "sweeps_ok T A ks \<Longrightarrow> T' \<subseteq> T \<union> A \<Longrightarrow> A \<subseteq> A' \<Longrightarrow> sweeps_ok T' A' ks"
proof (induction ks arbitrary: A A')
  case (Cons k ks)
  have "sweeps_ok T' (A' \<union> set (sc_covers k)) ks"
    by (rule Cons.IH [of "A \<union> set (sc_covers k)"]) (use Cons.prems in auto)
  with Cons.prems show ?case by fastforce
qed simp

lemma sweeps_ok_insert:
  "sweeps_ok T A ks \<Longrightarrow> (\<forall>k \<in> set ks. sc_delivery_tag k < t) \<Longrightarrow> sweeps_ok (insert t T) A ks"
  by (induction ks arbitrary: A) auto

section \<open>Flushing a run\<close>

lemma filter_less_sorted:
  "sorted_wrt (<) (xs :: int list) \<Longrightarrow>
     filter (\<lambda>t. t < b) xs @ drop (length (filter (\<lambda>t. t < b) xs)) xs = xs"
proof (induction xs)
  case (Cons x xs)
  show ?case
  proof (cases "x < b")
    case False
    with Cons.prems have "filter (\<lambda>t. t < b) xs = []" by (auto simp: filter_empty_conv)
    with False show ?thesis by simp
  qed (use Cons in simp)
qed simp

lemma ack_one_simps [simp]:
  "sc_covers (ack_one c t) = [t]" "sc_delivery_tag (ack_one c t) = t" "\<not> sc_multiple (ack_one c t)"
  "sc_kind (ack_one c t) = SA_ACK" "sc_generation (ack_one c t) = c_generation c"
  by (simp_all add: ack_one_def)

lemma ack_range_simps [simp]:
  "sc_covers (ack_range c ts) = ts" "sc_delivery_tag (ack_range c ts) = last ts"
  "sc_multiple (ack_range c ts)" "sc_kind (ack_range c ts) = SA_ACK"
  "sc_generation (ack_range c ts) = c_generation c"
  by (simp_all add: ack_range_def)

lemma refuse_one_simps [simp]:
  "sc_covers (refuse_one c s t) = [t]" "sc_delivery_tag (refuse_one c s t) = t"
  "\<not> sc_multiple (refuse_one c s t)" "sc_generation (refuse_one c s t) = c_generation c"
  "sc_kind (refuse_one c s t) = (if s = DS_NACK then SA_NACK else SA_REJECT)"
  by (simp_all add: refuse_one_def)

text \<open>The two forms a flush takes.\<close>

lemma flush_commands_cases:
  assumes "sorted_wrt (<) run"
  obtains "flush_commands c fi run = map (ack_one c) run"
  | safe rest where "run = safe @ rest" "length safe \<ge> 2" "c_coalesce c" "\<not> fi"
      "flush_commands c fi run = ack_range c safe # map (ack_one c) rest"
      "c_gap_floor c \<noteq> 0 \<Longrightarrow> \<forall>t \<in> set safe. t < c_gap_floor c"
proof (cases "c_gap_floor c \<noteq> 0")
  case True
  let ?safe = "filter (\<lambda>t. t < c_gap_floor c) run"
  show thesis
  proof (cases "c_coalesce c \<and> \<not> fi \<and> length ?safe \<ge> 2")
    case True
    with \<open>c_gap_floor c \<noteq> 0\<close> show thesis
      by (intro that(2) [of ?safe "drop (length ?safe) run"])
         (simp_all add: filter_less_sorted [OF assms] flush_commands_def Let_def)
  next
    case False
    with \<open>c_gap_floor c \<noteq> 0\<close> show thesis
      by (intro that(1)) (auto simp: flush_commands_def Let_def)
  qed
next
  case False
  show thesis
  proof (cases "c_coalesce c \<and> \<not> fi \<and> length run \<ge> 2")
    case True
    with False show thesis
      by (intro that(2) [of run "[]"]) (simp_all add: flush_commands_def Let_def)
  next
    case False
    with \<open>\<not> c_gap_floor c \<noteq> 0\<close> show thesis
      by (intro that(1)) (auto simp: flush_commands_def Let_def)
  qed
qed

lemma covers_ack_ones [simp]: "covers_all (map (ack_one c) ts) = ts"
  by (induction ts) simp_all

lemma covers_flush_commands:
  "sorted_wrt (<) run \<Longrightarrow> covers_all (flush_commands c fi run) = run"
  by (rule flush_commands_cases [of run c fi]) (simp_all add: comp_def)

lemma flush_commands_ok:
  assumes "sorted_wrt (<) run"
    and run: "\<forall>t \<in> set run. \<not> dict_has (c_reserved c) t \<and> dict_get (c_ledger c) t = Some DS_SUCCESS"
  shows "\<forall>k \<in> set (flush_commands c fi run). cmd_ok c k"
proof -
  have one: "t \<in> set run \<Longrightarrow> cmd_ok c (ack_one c t)" for t
    using run by (simp add: cmd_ok_def)
  show ?thesis
  proof (cases rule: flush_commands_cases [OF assms(1), of c fi])
    case 1
    with one show ?thesis by auto
  next
    case (2 safe rest)
    have "safe \<noteq> []" using 2(2) by auto
    with 2 run have "cmd_ok c (ack_range c safe)" by (auto simp: cmd_ok_def)
    with 2 one show ?thesis by auto
  qed
qed

lemma flush_commands_sweeps:
  assumes sorted: "sorted_wrt (<) (pre @ run)" and T: "T \<subseteq> set pre \<union> set run"
  shows "sweeps_ok T (set pre) (flush_commands c fi run)"
proof -
  have "sorted_wrt (<) run" using sorted by (simp add: sorted_wrt_append)
  then show ?thesis
  proof (cases rule: flush_commands_cases [of run c fi])
    case 1
    then show ?thesis by (simp add: sweeps_ok_single)
  next
    case (2 safe rest)
    have "safe \<noteq> []" using 2(2) by auto
    then have last: "last safe \<in> set safe" by simp
    have "\<forall>t \<in> T. t \<le> last safe \<longrightarrow> t \<in> set pre \<union> set safe"
      using T sorted last unfolding 2(1) by (fastforce simp: sorted_wrt_append)
    with 2(5) show ?thesis by (simp add: sweeps_ok_single)
  qed
qed

section \<open>The walk\<close>

definition walk_inv :: "coordinator \<Rightarrow> bool \<Rightarrow> int list \<Rightarrow> plan_acc \<Rightarrow> bool" where
  "walk_inv c fi ts a \<longleftrightarrow>
     (\<forall>k \<in> set (pa_commands a). cmd_ok c k)
     \<and> ((fi \<or> \<not> c_coalesce c) \<longrightarrow> (\<forall>k \<in> set (pa_commands a). \<not> sc_multiple k))
     \<and> pa_covered a = covers_all (pa_commands a)
     \<and> sorted_wrt (<) (pa_covered a @ pa_run a)
     \<and> (\<forall>t \<in> set (pa_covered a) \<union> set (pa_run a). t \<in> set ts)
     \<and> (\<forall>t \<in> set (pa_run a). \<not> dict_has (c_reserved c) t \<and> dict_get (c_ledger c) t = Some DS_SUCCESS)
     \<and> (if pa_blocked a then pa_run a = [] else (\<forall>t \<in> set ts. t \<in> set (pa_covered a) \<union> set (pa_run a)))
     \<and> sweeps_ok (set ts) {} (pa_commands a)"

text \<open>What becomes of an emittable tag the walk has passed: planned, in the current run, or held
  for one more round behind a blocking delivery.\<close>

definition placed :: "coordinator \<Rightarrow> bool \<Rightarrow> plan_acc \<Rightarrow> int \<Rightarrow> bool" where
  "placed c fi a t \<longleftrightarrow> t \<in> set (pa_covered a) \<union> set (pa_run a)
     \<or> (dict_get (c_ledger c) t = Some DS_SUCCESS \<and> c_coalesce c \<and> \<not> fi
         \<and> dict_get_or (c_hold c) t 0 < c_max_hold c
         \<and> dict_get (pa_hold a) t = Some (dict_get_or (c_hold c) t 0 + 1))"

definition plannable :: "coordinator \<Rightarrow> int \<Rightarrow> bool" where
  "plannable c t \<longleftrightarrow> \<not> dict_has (c_reserved c) t
     \<and> (\<exists>s \<in> {DS_SUCCESS, DS_NACK, DS_REJECT}. dict_get (c_ledger c) t = Some s)"

definition hold_inv :: "coordinator \<Rightarrow> bool \<Rightarrow> int list \<Rightarrow> plan_acc \<Rightarrow> bool" where
  "hold_inv c fi ts a \<longleftrightarrow>
     (\<forall>t \<in> set ts. plannable c t \<longrightarrow> placed c fi a t)
     \<and> (\<forall>t. t \<notin> set ts \<longrightarrow> dict_get (pa_hold a) t = dict_get (c_hold c) t)
     \<and> (\<forall>t. dict_get_or (c_hold c) t 0 \<le> dict_get_or (pa_hold a) t 0)
     \<and> (dict_ok (c_hold c) \<longrightarrow> dict_ok (pa_hold a))"

lemma flush_run_simps [simp]:
  "pa_blocked (flush_run c fi a) = pa_blocked a"
  "pa_hold (flush_run c fi a) = pa_hold a"
  "pa_run (flush_run c fi a) = []"
  "pa_covered (flush_run c fi a) = pa_covered a @ pa_run a"
  by (simp_all add: flush_run_def)

lemma flush_run_commands:
  "pa_commands (flush_run c fi a) =
     (if pa_run a = [] then pa_commands a else pa_commands a @ flush_commands c fi (pa_run a))"
  by (simp add: flush_run_def)

lemma flush_commands_individual:
  "fi \<or> \<not> c_coalesce c \<Longrightarrow> k \<in> set (flush_commands c fi run) \<Longrightarrow> \<not> sc_multiple k"
  by (auto simp: flush_commands_def Let_def split: if_splits)

lemma walk_inv_flush:
  assumes "walk_inv c fi ts a"
  shows "walk_inv c fi ts (flush_run c fi a)"
proof (cases "pa_run a = []")
  case True
  with assms show ?thesis by (simp add: flush_run_def)
next
  case False
  with assms have nb: "\<not> pa_blocked a" and T: "set ts \<subseteq> set (pa_covered a) \<union> set (pa_run a)"
    by (auto simp: walk_inv_def split: if_splits)
  from assms have srt: "sorted_wrt (<) (pa_covered a @ pa_run a)" unfolding walk_inv_def by blast
  then have run: "sorted_wrt (<) (pa_run a)" by (simp add: sorted_wrt_append)
  have "\<forall>k \<in> set (flush_commands c fi (pa_run a)). cmd_ok c k"
    by (rule flush_commands_ok [OF run]) (use assms in \<open>simp add: walk_inv_def\<close>)
  moreover have "sweeps_ok (set ts) (set (pa_covered a)) (flush_commands c fi (pa_run a))"
    by (rule flush_commands_sweeps [OF srt T])
  ultimately show ?thesis
    using assms False nb T flush_commands_individual [of fi c _ "pa_run a"]
    by (auto simp: walk_inv_def flush_run_commands sweeps_ok_append covers_flush_commands [OF run])
qed

lemma hold_inv_flush: "hold_inv c fi ts a \<Longrightarrow> hold_inv c fi ts (flush_run c fi a)"
  by (simp add: hold_inv_def placed_def)

lemma walk_tags_below:
  assumes "walk_inv c fi ts a" and "\<forall>t \<in> set ts. t < tag" and "k \<in> set (pa_commands a)"
  shows "sc_delivery_tag k < tag"
proof -
  have "cmd_ok c k" using assms(1,3) by (simp add: walk_inv_def)
  then have "sc_delivery_tag k \<in> set (sc_covers k)" by (auto simp: cmd_ok_def)
  with assms show ?thesis by (fastforce simp: walk_inv_def)
qed

text \<open>One step of the walk: extending the tags walked, blocking, and adding an individual command.\<close>

lemma walk_inv_block:
  assumes "walk_inv c fi ts a" and "\<forall>t \<in> set ts. t < tag" and "pa_run a = []"
  shows "walk_inv c fi (ts @ [tag]) (a\<lparr>pa_blocked := True\<rparr>)"
  using assms walk_tags_below [OF assms(1,2)]
  by (auto simp: walk_inv_def sweeps_ok_insert split: if_splits)

lemma walk_inv_run:
  assumes "walk_inv c fi ts a" and "\<forall>t \<in> set ts. t < tag" and "\<not> pa_blocked a"
    and "\<not> dict_has (c_reserved c) tag" and "dict_get (c_ledger c) tag = Some DS_SUCCESS"
  shows "walk_inv c fi (ts @ [tag]) (a\<lparr>pa_run := pa_run a @ [tag]\<rparr>)"
  using assms walk_tags_below [OF assms(1,2)]
  by (auto simp: walk_inv_def sweeps_ok_insert sorted_wrt_less_snoc append_assoc [symmetric]
      simp del: append_assoc)

lemma walk_inv_hold:
  assumes "walk_inv c fi ts a" and "\<forall>t \<in> set ts. t < tag" and "pa_blocked a"
  shows "walk_inv c fi (ts @ [tag]) (a\<lparr>pa_hold := h\<rparr>)"
  using assms walk_tags_below [OF assms(1,2)]
  by (auto simp: walk_inv_def sweeps_ok_insert)

lemma walk_inv_add:
  assumes inv: "walk_inv c fi ts a" and gt: "\<forall>t \<in> set ts. t < tag" and run: "pa_run a = []"
    and k: "cmd_ok c k" "sc_covers k = [tag]" "\<not> sc_multiple k"
  shows "walk_inv c fi (ts @ [tag]) (a\<lparr>pa_commands := pa_commands a @ [k],
           pa_covered := pa_covered a @ [tag]\<rparr>)"
  using assms walk_tags_below [OF inv gt]
  by (auto simp: walk_inv_def sweeps_ok_append sweeps_ok_insert sorted_wrt_less_snoc)

lemma plan_tag_walk_inv:
  assumes inv: "walk_inv c fi ts a" and gt: "\<forall>t \<in> set ts. t < tag" and led: "tag \<in> set (ledger_tags c)"
  shows "walk_inv c fi (ts @ [tag]) (plan_tag c fi tag a)"
proof (cases "dict_has (c_reserved c) tag")
  case True
  then show ?thesis
    using walk_inv_block [OF walk_inv_flush [OF inv] gt] by (simp add: plan_tag_def)
next
  case unreserved: False
  from led obtain s where s: "dict_get (c_ledger c) tag = Some s" by (rule dict_key_getE)
  note flushed = walk_inv_flush [OF inv]
  consider "s = DS_SUCCESS" | "s = DS_NACK \<or> s = DS_REJECT" | "\<not> is_emittable s"
    by (auto simp: is_emittable_def)
  then show ?thesis
  proof cases
    case 1
    then have ack: "cmd_ok c (ack_one c tag)" using s unreserved by (simp add: cmd_ok_def)
    have "pa_blocked a \<Longrightarrow> pa_run a = []" using inv by (simp add: walk_inv_def)
    then show ?thesis
      using 1 s unreserved walk_inv_run [OF inv gt] walk_inv_hold [OF inv gt]
        walk_inv_add [OF inv gt _ ack]
      by (auto simp: plan_tag_def is_ack_safe_def)
  next
    case 2
    then have "cmd_ok c (refuse_one c s tag)" using s unreserved by (auto simp: cmd_ok_def)
    from walk_inv_add [OF flushed gt _ this] 2 s unreserved show ?thesis
      by (auto simp: plan_tag_def is_ack_safe_def Let_def)
  next
    case 3
    then show ?thesis
      using s unreserved walk_inv_block [OF flushed gt]
      by (auto simp: plan_tag_def is_ack_safe_def is_emittable_def)
  qed
qed

lemma plan_tag_mono:
  "set (pa_covered a) \<union> set (pa_run a)
     \<subseteq> set (pa_covered (plan_tag c fi tag a)) \<union> set (pa_run (plan_tag c fi tag a))"
  "t \<noteq> tag \<Longrightarrow> dict_get (pa_hold (plan_tag c fi tag a)) t = dict_get (pa_hold a) t"
  "dict_get_or (pa_hold a) t 0 \<le> dict_get_or (pa_hold (plan_tag c fi tag a)) t 0"
  "dict_ok (pa_hold a) \<Longrightarrow> dict_ok (pa_hold (plan_tag c fi tag a))"
  by (auto simp: plan_tag_def Let_def dict_get_or_def split: option.split)

lemma plan_tag_places:
  assumes "plannable c tag" and "dict_get (pa_hold a) tag = dict_get (c_hold c) tag"
  shows "placed c fi (plan_tag c fi tag a) tag"
proof -
  have "dict_get_or (pa_hold a) tag 0 = dict_get_or (c_hold c) tag 0"
    using assms(2) by (simp add: dict_get_or_def)
  moreover from assms(1) obtain s where "dict_get (c_ledger c) tag = Some s"
    "s \<in> {DS_SUCCESS, DS_NACK, DS_REJECT}" "\<not> dict_has (c_reserved c) tag"
    by (auto simp: plannable_def)
  ultimately show ?thesis
    by (auto simp: placed_def plan_tag_def is_ack_safe_def Let_def)
qed

lemma plan_tag_hold_inv:
  assumes inv: "hold_inv c fi ts a" and new: "tag \<notin> set ts"
  shows "hold_inv c fi (ts @ [tag]) (plan_tag c fi tag a)"
  unfolding hold_inv_def
proof (intro conjI allI ballI impI)
  fix t
  assume "t \<in> set (ts @ [tag])" and "plannable c t"
  then show "placed c fi (plan_tag c fi tag a) t"
  proof (cases "t = tag")
    case True
    with inv new \<open>plannable c t\<close> show ?thesis by (auto simp: hold_inv_def intro: plan_tag_places)
  next
    case False
    with \<open>t \<in> set (ts @ [tag])\<close> \<open>plannable c t\<close> inv have "placed c fi a t"
      by (simp add: hold_inv_def)
    with False show ?thesis
      using plan_tag_mono(1) [of a c fi tag] plan_tag_mono(2) [of t tag c fi a]
      unfolding placed_def by auto
  qed
next
  fix t
  have "dict_get_or (c_hold c) t 0 \<le> dict_get_or (pa_hold a) t 0" using inv by (simp add: hold_inv_def)
  with plan_tag_mono(3) show "dict_get_or (c_hold c) t 0 \<le> dict_get_or (pa_hold (plan_tag c fi tag a)) t 0"
    by (rule order_trans [rotated])
qed (use inv in \<open>auto simp: hold_inv_def plan_tag_mono\<close>)

lemma plan_walk_inv:
  assumes "sorted_wrt (<) ts" and "set ts \<subseteq> set (ledger_tags c)"
  shows "walk_inv c fi ts (plan_walk c fi ts)" and "hold_inv c fi ts (plan_walk c fi ts)"
proof -
  have "walk_inv c fi ts (plan_walk c fi ts) \<and> hold_inv c fi ts (plan_walk c fi ts)"
    using assms
  proof (induction ts rule: rev_induct)
    case Nil
    show ?case by (simp add: plan_walk_def walk_inv_def hold_inv_def)
  next
    case (snoc t ts)
    then have inv: "walk_inv c fi ts (plan_walk c fi ts)" "hold_inv c fi ts (plan_walk c fi ts)"
      and gt: "\<forall>u \<in> set ts. u < t" and led: "t \<in> set (ledger_tags c)"
      by (auto simp: sorted_wrt_less_snoc)
    have step: "plan_walk c fi (ts @ [t]) = plan_tag c fi t (plan_walk c fi ts)"
      by (simp add: plan_walk_def)
    from gt have "t \<notin> set ts" by auto
    with plan_tag_walk_inv [OF inv(1) gt led] plan_tag_hold_inv [OF inv(2)]
    show ?case by (simp add: step)
  qed
  then show "walk_inv c fi ts (plan_walk c fi ts)" "hold_inv c fi ts (plan_walk c fi ts)" by auto
qed

section \<open>What a plan contains\<close>

lemma sorted_covers_tags:
  "sorted_wrt (<) (covers_all ks) \<Longrightarrow> \<forall>k \<in> set ks. sc_covers k \<noteq> [] \<and> sc_delivery_tag k = last (sc_covers k)
     \<Longrightarrow> sorted_wrt (\<lambda>j k. sc_delivery_tag j < sc_delivery_tag k) ks"
proof (induction ks)
  case (Cons k ks)
  then have "\<forall>j \<in> set ks. sc_delivery_tag k < sc_delivery_tag j"
    by (auto simp: sorted_wrt_append)
  with Cons show ?case by (auto simp: sorted_wrt_append)
qed simp

text \<open>The result of \<^verbatim>\<open>_plan_locked\<close> on a well-formed coordinator: the final sort changes nothing.\<close>

lemma plan_locked_walk:
  assumes ok: "ledger_ok c" and res: "plan_locked fi c = (ks, covered, c')"
  obtains a where "walk_inv c fi (ledger_tags c) a" "hold_inv c fi (ledger_tags c) a" "pa_run a = []"
    "ks = pa_commands a" "covered = pa_covered a" "c' = c\<lparr>c_hold := pa_hold a\<rparr>"
    "sorted_wrt (\<lambda>j k. sc_delivery_tag j < sc_delivery_tag k) ks" "sorted_wrt (<) covered"
proof -
  define a where "a = flush_run c fi (plan_walk c fi (ledger_tags c))"
  have srt: "sorted_wrt (<) (ledger_tags c)" using ok by (simp add: ledger_ok_def)
  have inv: "walk_inv c fi (ledger_tags c) a" and hold: "hold_inv c fi (ledger_tags c) a"
    using plan_walk_inv [OF srt order_refl] by (auto simp: a_def walk_inv_flush hold_inv_flush)
  have run: "pa_run a = []" by (simp add: a_def)
  have cmds: "\<forall>k \<in> set (pa_commands a). cmd_ok c k" "pa_covered a = covers_all (pa_commands a)"
    "sorted_wrt (<) (pa_covered a @ pa_run a)"
    using inv unfolding walk_inv_def by blast+
  have srtk: "sorted_wrt (\<lambda>j k. sc_delivery_tag j < sc_delivery_tag k) (pa_commands a)"
  proof (rule sorted_covers_tags)
    show "sorted_wrt (<) (covers_all (pa_commands a))" using run cmds(2,3) by simp
    show "\<forall>k \<in> set (pa_commands a). sc_covers k \<noteq> [] \<and> sc_delivery_tag k = last (sc_covers k)"
      using cmds(1) by (simp add: cmd_ok_def)
  qed
  have "plan_locked fi c = (sort_key sc_delivery_tag (pa_commands a), pa_covered a, c\<lparr>c_hold := pa_hold a\<rparr>)"
    by (simp add: plan_locked_def Let_def ledger_ok_sort [OF ok] a_def)
  with res sort_key_sorted [OF srtk] have "ks = pa_commands a" "covered = pa_covered a"
    "c' = c\<lparr>c_hold := pa_hold a\<rparr>"
    by auto
  with that [OF inv hold run] srtk cmds(3) run show thesis by simp
qed

lemma plan_locked_commands:
  assumes "ledger_ok c" and "plan_locked fi c = (ks, covered, c')"
  shows "\<forall>k \<in> set ks. cmd_ok c k"
    and "fi \<or> \<not> c_coalesce c \<Longrightarrow> \<forall>k \<in> set ks. \<not> sc_multiple k"
    and "covered = covers_all ks" and "sorted_wrt (<) covered" and "set covered \<subseteq> set (ledger_tags c)"
    and "sweeps_ok (set (ledger_tags c)) {} ks"
    and "sorted_wrt (\<lambda>j k. sc_delivery_tag j < sc_delivery_tag k) ks"
    and "\<exists>h. c' = c\<lparr>c_hold := h\<rparr>"
proof -
  obtain a where a: "walk_inv c fi (ledger_tags c) a" "ks = pa_commands a" "covered = pa_covered a"
    "c' = c\<lparr>c_hold := pa_hold a\<rparr>"
    and srt: "sorted_wrt (<) covered" "sorted_wrt (\<lambda>j k. sc_delivery_tag j < sc_delivery_tag k) ks"
    using assms by (rule plan_locked_walk)
  from a(4) show "\<exists>h. c' = c\<lparr>c_hold := h\<rparr>" by blast
  from a(1) show "\<forall>k \<in> set ks. cmd_ok c k" "covered = covers_all ks"
    "fi \<or> \<not> c_coalesce c \<Longrightarrow> \<forall>k \<in> set ks. \<not> sc_multiple k"
    "sweeps_ok (set (ledger_tags c)) {} ks" "set covered \<subseteq> set (ledger_tags c)"
    unfolding walk_inv_def a(2,3) by blast+
qed (use plan_locked_walk [OF assms] in blast)+

lemma plan_locked_hold:
  assumes "ledger_ok c" and "plan_locked fi c = (ks, covered, c')"
  shows "plannable c t \<Longrightarrow> t \<in> set covered
      \<or> (dict_get (c_ledger c) t = Some DS_SUCCESS \<and> c_coalesce c \<and> \<not> fi
          \<and> dict_get_or (c_hold c) t 0 < c_max_hold c
          \<and> dict_get (c_hold c') t = Some (dict_get_or (c_hold c) t 0 + 1))"
    and "books_ok c \<Longrightarrow> dict_ok (c_hold c') \<and> set (dict_keys (c_hold c')) \<subseteq> set (ledger_tags c)
      \<and> (\<forall>t. 0 \<le> dict_get_or (c_hold c') t 0)"
proof -
  obtain a where hold: "hold_inv c fi (ledger_tags c) a" and run: "pa_run a = []"
    and a: "covered = pa_covered a" "c' = c\<lparr>c_hold := pa_hold a\<rparr>"
    using assms by (rule plan_locked_walk)
  show "t \<in> set covered
      \<or> (dict_get (c_ledger c) t = Some DS_SUCCESS \<and> c_coalesce c \<and> \<not> fi
          \<and> dict_get_or (c_hold c) t 0 < c_max_hold c
          \<and> dict_get (c_hold c') t = Some (dict_get_or (c_hold c) t 0 + 1))" if "plannable c t"
  proof -
    have "t \<in> set (ledger_tags c)" using that by (auto simp: plannable_def dest: dict_get_SomeD)
    with that hold run show ?thesis by (auto simp: hold_inv_def placed_def a)
  qed
  have "u \<in> set (ledger_tags c)" if "books_ok c" and u: "u \<in> set (dict_keys (pa_hold a))" for u
  proof (rule ccontr)
    assume "u \<notin> set (ledger_tags c)"
    then have "dict_get (pa_hold a) u = dict_get (c_hold c) u" using hold by (simp add: hold_inv_def)
    with u have "u \<in> set (dict_keys (c_hold c))" by (metis dict_get_None)
    with \<open>books_ok c\<close> \<open>u \<notin> set (ledger_tags c)\<close> show False by (auto simp: books_ok_def)
  qed
  moreover have "0 \<le> dict_get_or (pa_hold a) u 0" if "books_ok c" for u
    using that hold unfolding books_ok_def hold_inv_def by (meson order_trans)
  ultimately show "dict_ok (c_hold c') \<and> set (dict_keys (c_hold c')) \<subseteq> set (ledger_tags c)
      \<and> (\<forall>t. 0 \<le> dict_get_or (c_hold c') t 0)" if "books_ok c"
    using that hold by (auto simp: books_ok_def hold_inv_def a)
qed

section \<open>Preparing a batch\<close>

lemma dict_update_all_keys:
  "set (dict_keys (dict_update_all d e)) = set (dict_keys d) \<union> set (dict_keys e)"
  by (induction e arbitrary: d) (auto simp: dict_keys_set simp del: set_map)

lemma dict_update_all_ok: "dict_ok d \<Longrightarrow> dict_ok (dict_update_all d e)"
  by (induction e arbitrary: d) auto

text \<open>The part of the coordinator that \<^verbatim>\<open>prepare\<close> leaves alone, and what it adds.\<close>

lemma prepare_state:
  assumes ok: "coord_ok c" and p: "prepare fi c = (b, c')"
  shows "c_ledger c' = c_ledger c" "c_last_registered c' = c_last_registered c"
    "c_gap_floor c' = c_gap_floor c" "c_generation c' = c_generation c"
    "c_requeue c' = c_requeue c" "c_max_hold c' = c_max_hold c" "c_coalesce c' = c_coalesce c"
    "sb_generation b = c_generation c"
    "set (dict_keys (c_reserved c')) = set (dict_keys (c_reserved c)) \<union> set (covers_all (sb_commands b))"
    "coord_ok c'"
proof -
  obtain ks covered c1 where pl: "plan_locked fi c = (ks, covered, c1)" by (metis prod_cases3)
  have lo: "ledger_ok c" and bo: "books_ok c" using ok by (auto simp: coord_ok_def)
  obtain h where c1: "c1 = c\<lparr>c_hold := h\<rparr>" using plan_locked_commands(8) [OF lo pl] by blast
  have cov: "covered = covers_all ks" by (rule plan_locked_commands(3) [OF lo pl])
  have h: "dict_ok h" "set (dict_keys h) \<subseteq> set (ledger_tags c)" "\<forall>t. 0 \<le> dict_get_or h t 0"
    using plan_locked_hold(2) [OF lo pl bo] by (auto simp: c1)
  note [simp] = prepare_def Let_def pl c1
  show "c_ledger c' = c_ledger c" "c_last_registered c' = c_last_registered c"
    "c_gap_floor c' = c_gap_floor c" "c_generation c' = c_generation c"
    "c_requeue c' = c_requeue c" "c_max_hold c' = c_max_hold c" "c_coalesce c' = c_coalesce c"
    "sb_generation b = c_generation c"
    using p by (auto split: if_splits)
  show "set (dict_keys (c_reserved c')) = set (dict_keys (c_reserved c)) \<union> set (covers_all (sb_commands b))"
    using p by (auto simp: dict_update_all_keys cov comp_def simp del: set_map split: if_splits)
  have "dict_ok (c_reserved c)" using bo by (simp add: books_ok_def)
  then show "coord_ok c'"
    using p ok coord_ok_books [OF ok h] dict_update_all_ok by (auto split: if_splits)
qed

lemma prepare_commands:
  assumes ok: "coord_ok c" and p: "prepare fi c = (b, c')"
  shows "\<forall>k \<in> set (sb_commands b). cmd_ok c k"
    and "fi \<or> \<not> c_coalesce c \<Longrightarrow> \<forall>k \<in> set (sb_commands b). \<not> sc_multiple k"
    and "sorted_wrt (<) (covers_all (sb_commands b))"
    and "set (covers_all (sb_commands b)) \<subseteq> set (ledger_tags c)"
    and "sweeps_ok (set (ledger_tags c)) {} (sb_commands b)"
    and "sorted_wrt (\<lambda>j k. sc_delivery_tag j < sc_delivery_tag k) (sb_commands b)"
    and "plannable c t \<Longrightarrow> t \<in> set (covers_all (sb_commands b))
      \<or> (dict_get (c_ledger c) t = Some DS_SUCCESS \<and> c_coalesce c \<and> \<not> fi
          \<and> dict_get_or (c_hold c) t 0 < c_max_hold c
          \<and> dict_get (c_hold c') t = Some (dict_get_or (c_hold c) t 0 + 1))"
proof -
  obtain ks covered c1 where pl: "plan_locked fi c = (ks, covered, c1)" by (metis prod_cases3)
  have lo: "ledger_ok c" using ok by (simp add: coord_ok_def)
  note props = plan_locked_commands [OF lo pl]
  have b: "sb_commands b = (if c_ledger c = [] then [] else ks)"
    using p by (auto simp: prepare_def Let_def pl)
  show "\<forall>k \<in> set (sb_commands b). cmd_ok c k" "sorted_wrt (<) (covers_all (sb_commands b))"
    "fi \<or> \<not> c_coalesce c \<Longrightarrow> \<forall>k \<in> set (sb_commands b). \<not> sc_multiple k"
    "set (covers_all (sb_commands b)) \<subseteq> set (ledger_tags c)"
    "sweeps_ok (set (ledger_tags c)) {} (sb_commands b)"
    "sorted_wrt (\<lambda>j k. sc_delivery_tag j < sc_delivery_tag k) (sb_commands b)"
    using props(1,2,4-7) by (simp_all add: b props(3))
  show "t \<in> set (covers_all (sb_commands b))
      \<or> (dict_get (c_ledger c) t = Some DS_SUCCESS \<and> c_coalesce c \<and> \<not> fi
          \<and> dict_get_or (c_hold c) t 0 < c_max_hold c
          \<and> dict_get (c_hold c') t = Some (dict_get_or (c_hold c) t 0 + 1))" if "plannable c t"
  proof -
    have "c_ledger c \<noteq> []" using that by (auto simp: plannable_def)
    moreover from this have "c_hold c' = c_hold c1" using p by (auto simp: prepare_def Let_def pl)
    ultimately show ?thesis using plan_locked_hold(1) [OF lo pl that] props(3) by (simp add: b)
  qed
qed

lemma plan_ok: "coord_ok c \<Longrightarrow> coord_ok (snd (plan fi c))"
proof -
  assume ok: "coord_ok c"
  obtain ks covered c1 where pl: "plan_locked fi c = (ks, covered, c1)" by (metis prod_cases3)
  have lo: "ledger_ok c" and bo: "books_ok c" using ok by (auto simp: coord_ok_def)
  obtain h where c1: "c1 = c\<lparr>c_hold := h\<rparr>" using plan_locked_commands(8) [OF lo pl] by blast
  have "coord_ok c1" using plan_locked_hold(2) [OF lo pl bo] coord_ok_hold [OF ok, of h]
    by (simp add: c1)
  then have "coord_ok (settle_tags covered c1)" by (rule settle_tags_ok)
  with ok show ?thesis by (simp add: plan_def Let_def pl)
qed

text \<open>Repeated planning rounds without other traffic.\<close>

primrec rounds :: "bool \<Rightarrow> nat \<Rightarrow> coordinator \<Rightarrow> coordinator" where
  "rounds fi 0 c = c"
| "rounds fi (Suc n) c = rounds fi n (snd (prepare fi c))"

lemma round_plannable:
  assumes ok: "coord_ok c" and pl: "plannable c t" and p: "prepare fi c = (b, c')"
    and held: "t \<notin> set (covers_all (sb_commands b))"
  shows "plannable c' t" and "dict_get_or (c_hold c') t 0 = dict_get_or (c_hold c) t 0 + 1"
    and "dict_get_or (c_hold c) t 0 < c_max_hold c"
proof -
  show "dict_get_or (c_hold c') t 0 = dict_get_or (c_hold c) t 0 + 1"
    "dict_get_or (c_hold c) t 0 < c_max_hold c"
    using prepare_commands(7) [OF ok p pl] held by (auto simp: dict_get_or_def)
  show "plannable c' t"
    using pl held prepare_state(9) [OF ok p]
    by (simp add: plannable_def prepare_state(1) [OF ok p] dict_has_iff)
qed

lemma hold_is_bounded:
  assumes "coord_ok c" and "plannable c t" and "c_max_hold c - dict_get_or (c_hold c) t 0 \<le> int d"
  shows "\<exists>n \<le> d. t \<in> set (covers_all (sb_commands (fst (prepare fi (rounds fi n c)))))"
  using assms
proof (induction d arbitrary: c)
  case 0
  then show ?case using round_plannable(3) [of c t fi] by (cases "prepare fi c") force
next
  case (Suc d)
  obtain b c' where p: "prepare fi c = (b, c')" by fastforce
  show ?case
  proof (cases "t \<in> set (covers_all (sb_commands b))")
    case True
    with p show ?thesis by (intro exI [of _ 0]) simp
  next
    case False
    note nxt = round_plannable [OF Suc.prems(1,2) p False]
    have "\<exists>n \<le> d. t \<in> set (covers_all (sb_commands (fst (prepare fi (rounds fi n c')))))"
      by (rule Suc.IH)
         (use Suc.prems(3) nxt prepare_state(6,10) [OF Suc.prems(1) p] in auto)
    then obtain n where "n \<le> d"
      "t \<in> set (covers_all (sb_commands (fst (prepare fi (rounds fi n c')))))" by blast
    then show ?thesis using p by (intro exI [of _ "Suc n"]) simp
  qed
qed

section \<open>Properties\<close>

text \<open>C14: a prepared batch settles every tag at most once, in strictly ascending tag order, and only
  tags whose recorded decision is the one the frame carries: an ack for \<open>SUCCESS\<close>, a nack for
  \<open>NACK\<close>, a reject for \<open>REJECT\<close>.  A failed, cancelled, outstanding or retry-pending delivery, or one
  whose earlier frame is still in flight, is never in a batch.\<close>

theorem prepared_batch_sound:
  assumes ok: "coord_ok c" and p: "prepare fi c = (b, c')"
  shows "sorted_wrt (<) (covers_all (sb_commands b))
    \<and> sorted_wrt (\<lambda>j k. sc_delivery_tag j < sc_delivery_tag k) (sb_commands b)
    \<and> (\<forall>k \<in> set (sb_commands b). \<forall>t \<in> set (sc_covers k).
          state_of c t = Some (action_state (sc_kind k)) \<and> \<not> dict_has (c_reserved c) t)"
  using prepare_commands(1,3,6) [OF assms] by (simp add: cmd_ok_def state_of_def)

text \<open>C2: a cumulative ack is safe.  Whatever ledger entry lies at or below the tag of a cumulative
  ack is either covered by it, and then approved, or settled by an earlier frame of the same
  batch; the ack stays below the first tag the ledger never saw; and with coalescing off or at
  shutdown there is no cumulative ack at all.\<close>

theorem cumulative_ack_safe:
  assumes ok: "coord_ok c" and p: "prepare fi c = (b, c')"
    and split: "sb_commands b = xs @ k # ys" and multi: "sc_multiple k"
  shows "(\<forall>t \<in> set (ledger_tags c). t \<le> sc_delivery_tag k \<longrightarrow>
            t \<in> set (covers_all xs) \<or> (t \<in> set (sc_covers k) \<and> state_of c t = Some DS_SUCCESS))
    \<and> (c_gap_floor c \<noteq> 0 \<longrightarrow> sc_delivery_tag k < c_gap_floor c)
    \<and> c_coalesce c \<and> \<not> fi"
proof -
  have "cmd_ok c k" using prepare_commands(1) [OF ok p] split by simp
  moreover have "sweeps_ok (set (ledger_tags c)) {} (xs @ k # ys)"
    using prepare_commands(5) [OF ok p] split by simp
  moreover have "c_coalesce c \<and> \<not> fi" using prepare_commands(2) [OF ok p] split multi by auto
  ultimately show ?thesis using multi by (auto simp: sweeps_ok_append cmd_ok_def state_of_def)
qed

text \<open>C15: nothing approved is forgotten.  With holding off, without coalescing or at shutdown, the
  tags a batch settles are exactly the approved deliveries that are not already in flight.\<close>

theorem prepare_complete:
  assumes ok: "coord_ok c" and p: "prepare fi c = (b, c')"
    and now: "c_max_hold c = 0 \<or> \<not> c_coalesce c \<or> fi"
  shows "set (covers_all (sb_commands b))
    = {t. (\<exists>s. state_of c t = Some s \<and> is_emittable s) \<and> \<not> dict_has (c_reserved c) t}"
proof -
  have eq: "{t. (\<exists>s. state_of c t = Some s \<and> is_emittable s) \<and> \<not> dict_has (c_reserved c) t}
      = {t. plannable c t}"
    by (auto simp: plannable_def state_of_def is_emittable_def)
  have nonneg: "\<not> dict_get_or (c_hold c) t 0 < 0" for t
    using ok by (simp add: coord_ok_def books_ok_def not_less)
  have "t \<in> set (covers_all (sb_commands b))" if "plannable c t" for t
    using prepare_commands(7) [OF ok p that] now nonneg [of t] by auto
  moreover have "plannable c t" if "t \<in> set (covers_all (sb_commands b))" for t
  proof -
    from that obtain k where "k \<in> set (sb_commands b)" "t \<in> set (sc_covers k)" by auto
    with prepare_commands(1) [OF ok p] show ?thesis
      by (cases "sc_kind k") (auto simp: plannable_def cmd_ok_def)
  qed
  ultimately show ?thesis unfolding eq by blast
qed

text \<open>C16: one slow handler cannot pin its siblings.  An approved delivery that is not in flight is
  covered by a batch after at most \<open>max_hold\<close> rounds of being held back.\<close>

theorem bounded_hold:
  assumes "coord_ok c" and "state_of c t = Some s" and "is_emittable s"
    and "\<not> dict_has (c_reserved c) t"
  shows "\<exists>n \<le> nat (c_max_hold c). t \<in> set (covers_all (sb_commands (fst (prepare fi (rounds fi n c)))))"
proof (rule hold_is_bounded [OF assms(1)])
  show "plannable c t" using assms(2-4) by (auto simp: plannable_def state_of_def is_emittable_def)
  show "c_max_hold c - dict_get_or (c_hold c) t 0 \<le> int (nat (c_max_hold c))"
    using assms(1) by (simp add: coord_ok_def books_ok_def)
qed

text \<open>The example of the planning walk's documentation, on tags 1 to 5, and the same with a slow
  delivery below.\<close>

definition doc_coordinator :: coordinator where
  "doc_coordinator = (coordinator_init 0 True 0 0)\<lparr>
     c_ledger := [(1, DS_SUCCESS), (2, DS_SUCCESS), (3, DS_NACK), (4, DS_SUCCESS), (5, DS_SUCCESS)],
     c_requeue := [(3, True)],
     c_registered_at := [(1, 0), (2, 0), (3, 0), (4, 0), (5, 0)], c_last_registered := 5\<rparr>"

definition slow_coordinator :: coordinator where
  "slow_coordinator = (coordinator_init 0 True 2 0)\<lparr>
     c_ledger := [(1, DS_OUTSTANDING), (2, DS_SUCCESS), (3, DS_SUCCESS)],
     c_registered_at := [(1, 0), (2, 0), (3, 0)], c_last_registered := 3\<rparr>"

lemma doc_coordinator_ok: "coord_ok doc_coordinator"
  by (auto simp: doc_coordinator_def coord_ok_def ledger_ok_def books_ok_def coordinator_init_def
      dict_ok_def dict_get_or_def split: if_splits)

lemma slow_coordinator_ok: "coord_ok slow_coordinator"
  by (auto simp: slow_coordinator_def coord_ok_def ledger_ok_def books_ok_def coordinator_init_def
      dict_ok_def dict_get_or_def split: if_splits)

lemma doc_batch:
  "sb_commands (fst (prepare False doc_coordinator)) =
     [ack_range doc_coordinator [1, 2], refuse_one doc_coordinator DS_NACK 3,
      ack_range doc_coordinator [4, 5]]"
  by code_simp

theorem prepared_batch_sound_witness:
  "sorted_wrt (<) (covers_all (sb_commands (fst (prepare False doc_coordinator))))"
  using prepared_batch_sound [OF doc_coordinator_ok, of False "fst (prepare False doc_coordinator)"
      "snd (prepare False doc_coordinator)"]
  by simp

theorem cumulative_ack_safe_witness:
  "state_of doc_coordinator 4 = Some DS_SUCCESS
   \<and> 3 \<in> set (covers_all [ack_range doc_coordinator [1, 2], refuse_one doc_coordinator DS_NACK 3])"
proof -
  let ?k = "ack_range doc_coordinator [4, 5]"
  have "\<forall>t \<in> set (ledger_tags doc_coordinator). t \<le> sc_delivery_tag ?k \<longrightarrow>
      t \<in> set (covers_all [ack_range doc_coordinator [1, 2], refuse_one doc_coordinator DS_NACK 3])
      \<or> (t \<in> set (sc_covers ?k) \<and> state_of doc_coordinator t = Some DS_SUCCESS)"
    using cumulative_ack_safe [OF doc_coordinator_ok prod.collapse [symmetric], where ys = "[]" and k = ?k,
        of False "[ack_range doc_coordinator [1, 2], refuse_one doc_coordinator DS_NACK 3]"]
    by (simp add: doc_batch)
  then show ?thesis by (simp add: doc_coordinator_def)
qed

theorem prepare_complete_witness:
  "3 \<in> set (covers_all (sb_commands (fst (prepare True doc_coordinator))))"
proof -
  have "set (covers_all (sb_commands (fst (prepare True doc_coordinator))))
      = {t. (\<exists>s. state_of doc_coordinator t = Some s \<and> is_emittable s)
            \<and> \<not> dict_has (c_reserved doc_coordinator) t}"
    by (rule prepare_complete [OF doc_coordinator_ok prod.collapse [symmetric]]) simp
  moreover have "state_of doc_coordinator 3 = Some DS_NACK" "is_emittable DS_NACK"
    "\<not> dict_has (c_reserved doc_coordinator) 3"
    by (simp_all add: doc_coordinator_def state_of_def is_emittable_def dict_has_def
        coordinator_init_def)
  ultimately show ?thesis by blast
qed

theorem bounded_hold_witness:
  "(\<exists>n \<le> nat 2. 3 \<in> set (covers_all (sb_commands (fst (prepare False (rounds False n slow_coordinator))))))
   \<and> 3 \<notin> set (covers_all (sb_commands (fst (prepare False slow_coordinator))))"
proof
  have "state_of slow_coordinator 3 = Some DS_SUCCESS" "is_emittable DS_SUCCESS"
    "\<not> dict_has (c_reserved slow_coordinator) 3" "c_max_hold slow_coordinator = 2"
    by (simp_all add: slow_coordinator_def state_of_def is_emittable_def dict_has_def
        coordinator_init_def)
  then show "\<exists>n \<le> nat 2. 3 \<in> set (covers_all (sb_commands (fst (prepare False (rounds False n slow_coordinator)))))"
    using bounded_hold [OF slow_coordinator_ok, of 3 DS_SUCCESS False] by simp
  show "3 \<notin> set (covers_all (sb_commands (fst (prepare False slow_coordinator))))"
    by code_simp
qed

end
