(* ===== verification/Rk_Emission.thy ===== *)
theory Rk_Emission
  imports Rk_Plan
begin

text \<open>
  Driving a prepared batch onto the wire (\<^verbatim>\<open>apply_commands\<close>, \<^verbatim>\<open>emit_batch\<close> and its asynchronous
  twin in \<^verbatim>\<open>core/settlement.py\<close>).  The transport's three callables are a parameter: each takes
  a tag and a flag and maps a world to a result and the world after the call.
\<close>

record 'w wire =
  wr_ack :: "int \<Rightarrow> bool \<Rightarrow> 'w \<Rightarrow> (py_exc + unit) \<times> 'w"
  wr_nack :: "int \<Rightarrow> bool \<Rightarrow> 'w \<Rightarrow> (py_exc + unit) \<times> 'w"
  wr_reject :: "int \<Rightarrow> bool \<Rightarrow> 'w \<Rightarrow> (py_exc + unit) \<times> 'w"

definition emit_one :: "'w wire \<Rightarrow> settlement_command \<Rightarrow> 'w \<Rightarrow> (py_exc + unit) \<times> 'w" where
  "emit_one wire k =
     (case sc_kind k of
        SA_ACK \<Rightarrow> wr_ack wire (sc_delivery_tag k) (sc_multiple k)
      | SA_NACK \<Rightarrow> wr_nack wire (sc_delivery_tag k) (sc_requeue k)
      | SA_REJECT \<Rightarrow> wr_reject wire (sc_delivery_tag k) (sc_requeue k))"

text \<open>\<^verbatim>\<open>apply_commands\<close> catches \<^verbatim>\<open>Exception\<close> only; anything else propagates.\<close>

fun apply_loop ::
    "'w wire \<Rightarrow> settlement_command list \<Rightarrow> (settlement_command \<times> py_exc option) list \<Rightarrow> 'w
       \<Rightarrow> (py_exc + (settlement_command \<times> py_exc option) list) \<times> 'w" where
  "apply_loop wire [] results w = (Inr results, w)"
| "apply_loop wire (k # ks) results w =
     (case emit_one wire k w of
        (Inr _, w') \<Rightarrow> apply_loop wire ks (results @ [(k, None)]) w'
      | (Inl e, w') \<Rightarrow> if is_exception e then (Inr (results @ [(k, Some e)]), w') else (Inl e, w'))"

definition apply_commands ::
    "'w wire \<Rightarrow> settlement_command list \<Rightarrow> 'w
       \<Rightarrow> (py_exc + (settlement_command \<times> py_exc option) list) \<times> 'w" where
  "apply_commands wire ks w = apply_loop wire ks [] w"

definition report_ok :: "settlement_batch \<Rightarrow> settlement_command list \<Rightarrow> emission_report" where
  "report_ok b emitted = \<lparr>er_batch_id = sb_batch_id b, er_generation = sb_generation b,
     er_emitted = emitted, er_failed = None, er_error = None, er_not_attempted = [],
     er_invalidated = False, er_unresolved_tags = []\<rparr>"

definition report_failed ::
    "settlement_batch \<Rightarrow> settlement_command list \<Rightarrow> settlement_command \<Rightarrow> py_exc
       \<Rightarrow> settlement_command list \<Rightarrow> bool \<Rightarrow> emission_report" where
  "report_failed b emitted k e rest invalidated =
     \<lparr>er_batch_id = sb_batch_id b, er_generation = sb_generation b, er_emitted = emitted,
      er_failed = Some k, er_error = Some e, er_not_attempted = rest,
      er_invalidated = invalidated, er_unresolved_tags = sc_covers k\<rparr>"

text \<open>What both drivers do with a failed command: fail it, and release the rest unless the
  generation was invalidated.\<close>

definition emission_failed ::
    "settlement_batch \<Rightarrow> settlement_command \<Rightarrow> settlement_command list \<Rightarrow> coordinator
       \<Rightarrow> bool \<times> coordinator" where
  "emission_failed b k rest c =
     (case fail_command b k c of
        (True, c1) \<Rightarrow> (True, c1)
      | (False, c1) \<Rightarrow> (False, release_commands b rest c1))"

fun emit_loop ::
    "settlement_batch \<Rightarrow> 'w wire \<Rightarrow> settlement_command list \<Rightarrow> settlement_command list \<Rightarrow> coordinator
       \<Rightarrow> 'w \<Rightarrow> (py_exc + emission_report) \<times> coordinator \<times> 'w" where
  "emit_loop b wire [] emitted c w = (Inr (report_ok b emitted), c, w)"
| "emit_loop b wire (k # rest) emitted c w =
     (case emit_one wire k w of
        (Inr _, w') \<Rightarrow> emit_loop b wire rest (emitted @ [k]) (commit_command b k c) w'
      | (Inl e, w') \<Rightarrow>
          if is_exception e
          then (case emission_failed b k rest c of
                  (invd, c') \<Rightarrow> (Inr (report_failed b emitted k e rest invd), c', w'))
          else (Inl e, c, w'))"

definition emit_batch ::
    "settlement_batch \<Rightarrow> 'w wire \<Rightarrow> coordinator \<Rightarrow> 'w \<Rightarrow> (py_exc + emission_report) \<times> coordinator \<times> 'w" where
  "emit_batch b wire c w = emit_loop b wire (sb_commands b) [] c w"

text \<open>The asynchronous driver also treats \<^verbatim>\<open>CancelledError\<close> as a failure of the command in flight,
  and re-raises it once the ledger is consistent.\<close>

fun emit_loop_async ::
    "settlement_batch \<Rightarrow> 'w wire \<Rightarrow> settlement_command list \<Rightarrow> settlement_command list \<Rightarrow> coordinator
       \<Rightarrow> 'w \<Rightarrow> (py_exc + emission_report) \<times> coordinator \<times> 'w" where
  "emit_loop_async b wire [] emitted c w = (Inr (report_ok b emitted), c, w)"
| "emit_loop_async b wire (k # rest) emitted c w =
     (case emit_one wire k w of
        (Inr _, w') \<Rightarrow> emit_loop_async b wire rest (emitted @ [k]) (commit_command b k c) w'
      | (Inl e, w') \<Rightarrow>
          if is_exception e \<or> isinstance e [''CancelledError'']
          then (case emission_failed b k rest c of
                  (invd, c') \<Rightarrow>
                    (if isinstance e [''CancelledError''] then Inl e
                     else Inr (report_failed b emitted k e rest invd), c', w'))
          else (Inl e, c, w'))"

definition emit_batch_async ::
    "settlement_batch \<Rightarrow> 'w wire \<Rightarrow> coordinator \<Rightarrow> 'w \<Rightarrow> (py_exc + emission_report) \<times> coordinator \<times> 'w" where
  "emit_batch_async b wire c w = emit_loop_async b wire (sb_commands b) [] c w"

section \<open>What the wire sees\<close>

text \<open>The world after sending exactly the given commands.\<close>

definition send_all :: "'w wire \<Rightarrow> settlement_command list \<Rightarrow> 'w \<Rightarrow> 'w" where
  "send_all wire ks w = fold (\<lambda>k w. snd (emit_one wire k w)) ks w"

definition attempted :: "emission_report \<Rightarrow> settlement_command list" where
  "attempted r = er_emitted r @ (case er_failed r of None \<Rightarrow> [] | Some k \<Rightarrow> [k])"

lemma report_simps [simp]:
  "er_emitted (report_ok b ks) = ks" "er_failed (report_ok b ks) = None"
  "er_not_attempted (report_ok b ks) = []" "attempted (report_ok b ks) = ks"
  "er_emitted (report_failed b ks k e rest i) = ks" "er_failed (report_failed b ks k e rest i) = Some k"
  "er_not_attempted (report_failed b ks k e rest i) = rest"
  "attempted (report_failed b ks k e rest i) = ks @ [k]"
  "er_invalidated (report_failed b ks k e rest i) = i" "\<not> er_invalidated (report_ok b ks)"
  by (simp_all add: report_ok_def report_failed_def attempted_def)

lemma emit_loop_wire:
  "emit_loop b wire ks emitted c w = (Inr r, c', w') \<Longrightarrow>
     \<exists>sent. attempted r = emitted @ sent \<and> emitted @ ks = attempted r @ er_not_attempted r
       \<and> w' = send_all wire sent w \<and> (\<exists>done. er_emitted r = emitted @ done)
       \<and> (er_failed r = None \<longrightarrow> er_not_attempted r = [])"
proof (induction ks arbitrary: emitted c w)
  case Nil
  then show ?case by (auto simp: send_all_def)
next
  case (Cons k rest)
  obtain res w1 where one: "emit_one wire k w = (res, w1)" by fastforce
  show ?case
  proof (cases res)
    case (Inl e)
    obtain invd c1 where "emission_failed b k rest c = (invd, c1)" by fastforce
    with Inl Cons.prems one have r: "r = report_failed b emitted k e rest invd" and w: "w' = w1"
      by (auto split: if_splits)
    show ?thesis
      by (rule exI [of _ "[k]"]) (simp add: r w send_all_def one)
  next
    case (Inr u)
    with Cons.prems one have "emit_loop b wire rest (emitted @ [k]) (commit_command b k c) w1 = (Inr r, c', w')"
      by simp
    from Cons.IH [OF this] obtain sent dn where ih: "attempted r = (emitted @ [k]) @ sent"
      "(emitted @ [k]) @ rest = attempted r @ er_not_attempted r" "w' = send_all wire sent w1"
      "er_emitted r = (emitted @ [k]) @ dn" "er_failed r = None \<longrightarrow> er_not_attempted r = []"
      by (elim exE conjE) (rule that)
    show ?thesis
    proof (intro exI conjI)
      show "attempted r = emitted @ (k # sent)" using ih(1) by simp
      show "emitted @ k # rest = attempted r @ er_not_attempted r" using ih(2) by simp
      show "w' = send_all wire (k # sent) w" using ih(3) by (simp add: send_all_def one)
      show "er_emitted r = emitted @ (k # dn)" using ih(4) by simp
    qed (fact ih(5))
  qed
qed

section \<open>What the ledger keeps\<close>

lemma release_fold_get:
  "dict_get (fold (\<lambda>tag r. if dict_get r tag = Some i then dict_pop tag r else r) ts r) t
     = (if t \<in> set ts \<and> dict_get r t = Some i then None else dict_get r t)"
  by (induction ts arbitrary: r) auto

lemma release_fold_commands:
  "c_ledger (fold (release_one b) ks c) = c_ledger c"
  "c_generation (fold (release_one b) ks c) = c_generation c"
  "dict_get (c_reserved (fold (release_one b) ks c)) t
     = (if t \<in> set (covers_all ks) \<and> dict_get (c_reserved c) t = Some (sb_batch_id b) then None
        else dict_get (c_reserved c) t)"
  by (induction ks arbitrary: c) (auto simp: release_one_def release_fold_get)

lemma commit_command_same:
  assumes "sb_generation b = c_generation c"
  shows "c_ledger (commit_command b k c) = dict_pop_all (sc_covers k) (c_ledger c)"
    "c_reserved (commit_command b k c) = dict_pop_all (sc_covers k) (c_reserved c)"
    "c_generation (commit_command b k c) = c_generation c"
  using assms by (simp_all add: commit_command_def Let_def settle_tags_def)

text \<open>The state after a failed command, when the generation still matches.\<close>

definition unresolved :: "settlement_command \<Rightarrow> coordinator \<Rightarrow> coordinator" where
  "unresolved k c = (settle_tags (sc_covers k) c)
     \<lparr>c_unresolved_count := c_unresolved_count c + int (length (sc_covers k)),
      c_frames_failed := c_frames_failed c + 1\<rparr>"

lemma unresolved_simps [simp]:
  "c_ledger (unresolved k c) = dict_pop_all (sc_covers k) (c_ledger c)"
  "c_reserved (unresolved k c) = dict_pop_all (sc_covers k) (c_reserved c)"
  "c_generation (unresolved k c) = c_generation c"
  by (simp_all add: unresolved_def settle_tags_def)

lemma fail_command_same:
  assumes "sb_generation b = c_generation c"
  shows "fail_command b k c =
    (if sc_kind k = SA_ACK then (False, unresolved k c) else (True, snd (invalidate (unresolved k c))))"
proof -
  have "c_unresolved_count (settle_tags ts c) = c_unresolved_count c"
    "c_frames_failed (settle_tags ts c) = c_frames_failed c" for ts
    by (simp_all add: settle_tags_def)
  then show ?thesis
    using assms by (cases "sc_kind k") (simp_all add: fail_command_def Let_def unresolved_def)
qed

lemma emission_failed_same:
  assumes "sb_generation b = c_generation c"
  shows "emission_failed b k rest c =
    (if sc_kind k = SA_ACK then (False, fold (release_one b) rest (unresolved k c))
     else (True, snd (invalidate (unresolved k c))))"
  using assms by (simp add: emission_failed_def fail_command_same release_commands_def)

lemma invalidate_simps [simp]:
  "c_ledger (snd (invalidate c)) = []" "c_reserved (snd (invalidate c)) = []"
  "c_generation (snd (invalidate c)) = c_generation c + 1"
  "c_last_registered (snd (invalidate c)) = 0" "c_gap_floor (snd (invalidate c)) = 0"
  by (simp_all add: invalidate_def Let_def)

definition ledger_after :: "coordinator \<Rightarrow> int \<Rightarrow> settlement_command list \<Rightarrow> emission_report \<Rightarrow> coordinator \<Rightarrow> bool" where
  "ledger_after c i sent r c' \<longleftrightarrow>
     (er_invalidated r \<longleftrightarrow> (\<exists>k. er_failed r = Some k \<and> sc_kind k \<noteq> SA_ACK))
     \<and> (if er_invalidated r then c_ledger c' = [] \<and> c_generation c' = c_generation c + 1
        else c_ledger c' = dict_pop_all (covers_all sent) (c_ledger c) \<and> c_generation c' = c_generation c
          \<and> (\<forall>t. dict_get (c_reserved c') t =
               (if t \<in> set (covers_all sent)
                   \<or> t \<in> set (covers_all (er_not_attempted r)) \<and> dict_get (c_reserved c) t = Some i then None
                else dict_get (c_reserved c) t)))"

lemma emit_loop_ledger:
  assumes "emit_loop b wire ks emitted c w = (Inr r, c', w')" and "sb_generation b = c_generation c"
  shows "\<exists>sent. attempted r = emitted @ sent \<and> ledger_after c (sb_batch_id b) sent r c'"
  using assms
proof (induction ks arbitrary: emitted c w)
  case Nil
  then show ?case by (auto simp: ledger_after_def)
next
  case (Cons k rest)
  obtain res w1 where one: "emit_one wire k w = (res, w1)" by fastforce
  show ?case
  proof (cases res)
    case (Inl e)
    obtain invd c1 where f: "emission_failed b k rest c = (invd, c1)" by fastforce
    with Inl Cons.prems one have r: "r = report_failed b emitted k e rest invd" and c': "c' = c1"
      by (auto split: if_splits)
    from f emission_failed_same [OF Cons.prems(2)] have
      "invd \<longleftrightarrow> sc_kind k \<noteq> SA_ACK"
      "c1 = (if invd then snd (invalidate (unresolved k c)) else fold (release_one b) rest (unresolved k c))"
      by (auto split: if_splits)
    then show ?thesis
      by (intro exI [of _ "[k]"]) (simp add: r c' ledger_after_def release_fold_commands)
  next
    case (Inr u)
    with Cons.prems one have "emit_loop b wire rest (emitted @ [k]) (commit_command b k c) w1 = (Inr r, c', w')"
      by simp
    from Cons.IH [OF this] obtain sent where "attempted r = (emitted @ [k]) @ sent"
      "ledger_after (commit_command b k c) (sb_batch_id b) sent r c'"
      by (auto simp: Cons.prems(2) commit_command_same)
    then show ?thesis
      by (intro exI [of _ "k # sent"])
         (auto simp: ledger_after_def commit_command_same [OF Cons.prems(2)] dict_pop_all_append)
  qed
qed

section \<open>Planning as emission without failures\<close>

lemma emit_loop_success:
  assumes "\<And>k w. fst (emit_one wire k w) = Inr ()"
  shows "emit_loop b wire ks emitted c w
    = (Inr (report_ok b (emitted @ ks)), fold (commit_command b) ks c, send_all wire ks w)"
proof (induction ks arbitrary: emitted c w)
  case (Cons k ks)
  obtain w1 where "emit_one wire k w = (Inr (), w1)"
    using assms [of k w] by (metis prod.collapse)
  then show ?case using Cons.IH by (simp add: send_all_def)
qed (simp add: send_all_def)

definition coalesced_by :: "settlement_command \<Rightarrow> int" where
  "coalesced_by k = (if sc_multiple k \<and> length (sc_covers k) > 1 then int (length (sc_covers k)) else 0)"

lemma commit_fold:
  assumes "sb_generation b = c_generation c"
  shows "c_ledger (fold (commit_command b) ks c) = dict_pop_all (covers_all ks) (c_ledger c)"
    "c_hold (fold (commit_command b) ks c) = dict_pop_all (covers_all ks) (c_hold c)"
    "c_requeue (fold (commit_command b) ks c) = dict_pop_all (covers_all ks) (c_requeue c)"
    "c_registered_at (fold (commit_command b) ks c) = dict_pop_all (covers_all ks) (c_registered_at c)"
    "c_reserved (fold (commit_command b) ks c) = dict_pop_all (covers_all ks) (c_reserved c)"
    "c_settled_count (fold (commit_command b) ks c) = c_settled_count c + int (length (covers_all ks))"
    "c_frames_sent (fold (commit_command b) ks c) = c_frames_sent c + int (length ks)"
    "c_coalesced_count (fold (commit_command b) ks c) = c_coalesced_count c + (\<Sum>k \<leftarrow> ks. coalesced_by k)"
  using assms
  by (induction ks arbitrary: c)
     (auto simp: commit_command_def Let_def settle_tags_def dict_pop_all_append coalesced_by_def)

text \<open>The outcome of \<^verbatim>\<open>plan\<close> in the terms of \<^verbatim>\<open>prepare\<close>'s batch.\<close>

lemma plan_by_batch:
  assumes ok: "coord_ok c" and p: "prepare fi c = (b, c1)" and pl: "plan fi c = (ks, c2)"
  shows "ks = sb_commands b"
    and "c_ledger c2 = dict_pop_all (covers_all ks) (c_ledger c1)"
    and "c_hold c2 = dict_pop_all (covers_all ks) (c_hold c1)"
    and "c_requeue c2 = dict_pop_all (covers_all ks) (c_requeue c1)"
    and "c_registered_at c2 = dict_pop_all (covers_all ks) (c_registered_at c1)"
    and "c_settled_count c2 = c_settled_count c1 + int (length (covers_all ks))"
    and "c_frames_sent c2 = c_frames_sent c1 + int (length ks)"
    and "c_coalesced_count c2 = c_coalesced_count c1 + (\<Sum>k \<leftarrow> ks. coalesced_by k)"
proof -
  obtain ks' covered c0 where lk: "plan_locked fi c = (ks', covered, c0)" by (metis prod_cases3)
  have "covered = covers_all ks'"
    by (rule plan_locked_commands(3) [OF _ lk]) (use ok in \<open>simp add: coord_ok_def\<close>)
  note [simp] = this plan_def prepare_def lk Let_def settle_tags_def coalesced_by_def
  from p pl show "ks = sb_commands b" by (auto split: if_splits)
  from p pl show "c_ledger c2 = dict_pop_all (covers_all ks) (c_ledger c1)"
    "c_hold c2 = dict_pop_all (covers_all ks) (c_hold c1)"
    "c_requeue c2 = dict_pop_all (covers_all ks) (c_requeue c1)"
    "c_registered_at c2 = dict_pop_all (covers_all ks) (c_registered_at c1)"
    "c_settled_count c2 = c_settled_count c1 + int (length (covers_all ks))"
    "c_frames_sent c2 = c_frames_sent c1 + int (length ks)"
    "c_coalesced_count c2 = c_coalesced_count c1 + (\<Sum>k \<leftarrow> ks. coalesced_by k)"
    by (auto split: if_splits)
qed

section \<open>Reachable coordinators\<close>

text \<open>The public operations of the class, one rule each.\<close>

inductive coord_step :: "coordinator \<Rightarrow> coordinator \<Rightarrow> bool" where
  cs_register: "register now t c = Inr c' \<Longrightarrow> coord_step c c'"
| cs_success: "mark_success t c = Inr c' \<Longrightarrow> coord_step c c'"
| cs_retry: "mark_retry_pending t c = Inr c' \<Longrightarrow> coord_step c c'"
| cs_failed: "mark_failed t c = Inr c' \<Longrightarrow> coord_step c c'"
| cs_cancelled: "mark_cancelled t c = Inr c' \<Longrightarrow> coord_step c c'"
| cs_nack: "mark_nack t r c = Inr c' \<Longrightarrow> coord_step c c'"
| cs_reject: "mark_reject t r c = Inr c' \<Longrightarrow> coord_step c c'"
| cs_release: "coord_step c (release t c)"
| cs_prepare: "coord_step c (snd (prepare fi c))"
| cs_commit: "coord_step c (commit_command b k c)"
| cs_fail: "coord_step c (snd (fail_command b k c))"
| cs_release_commands: "coord_step c (release_commands b ks c)"
| cs_plan: "coord_step c (snd (plan fi c))"
| cs_invalidate: "coord_step c (snd (invalidate c))"

lemma coord_step_ok: "coord_step c c' \<Longrightarrow> coord_ok c \<Longrightarrow> coord_ok c'"
proof (induction rule: coord_step.induct)
  case (cs_prepare c fi)
  then show ?case using prepare_state(10) [of c fi] by (metis prod.collapse)
qed (auto simp: mark_defs intro: register_ok set_intent_ok release_ok commit_command_ok
      fail_command_ok release_commands_ok plan_ok invalidate_ok)

lemma reserved_by_prepare:
  assumes ok: "coord_ok c" and p: "prepare fi c = (b, c1)" and t: "t \<in> set (covers_all (sb_commands b))"
  shows "dict_get (c_reserved c1) t = Some (sb_batch_id b)"
proof -
  obtain ks covered c0 where lk: "plan_locked fi c = (ks, covered, c0)" by (metis prod_cases3)
  have lo: "ledger_ok c" using ok by (simp add: coord_ok_def)
  let ?e = "map (\<lambda>t. (t, c_next_batch_id c0)) covered"
  have "distinct covered" using plan_locked_commands(4) [OF lo lk] by (simp add: strict_sorted_iff)
  then have "dict_ok ?e" by (simp add: dict_ok_def comp_def)
  moreover have "c_ledger c \<noteq> []" using p t by (auto simp: prepare_def)
  moreover from this p t lk plan_locked_commands(3) [OF lo lk]
  have "t \<in> set covered" "c_reserved c1 = dict_update_all (c_reserved c0) ?e"
    "sb_batch_id b = c_next_batch_id c0"
    by (auto simp: prepare_def Let_def)
  moreover have "dict_get ?e t = Some (c_next_batch_id c0)" using \<open>t \<in> set covered\<close>
    by (induction covered) auto
  ultimately show ?thesis by (simp add: dict_get_update_all)
qed

section \<open>Properties\<close>

text \<open>C4: every state a coordinator can reach through its public operations is well formed: the ledger
  stays in ascending tag order and within the registered tags, the gap floor is a tag the ledger
  does not hold, every approved nack or reject has its requeue flag, and the ledger never
  exceeds \<open>max_pending\<close>.\<close>

theorem coordinator_invariant:
  assumes "coord_step\<^sup>*\<^sup>* (coordinator_init g co mh mp) c"
  shows "coord_ok c"
  using assms by (induction rule: rtranclp_induct) (auto intro: coordinator_init_ok coord_step_ok)


text \<open>C17: \<^verbatim>\<open>plan\<close> is \<^verbatim>\<open>prepare\<close> plus an emission in which every frame succeeds: the same commands,
  and the same ledger, hold, requeue and timing books and statistics afterwards.\<close>

theorem plan_is_faultless_emission:
  assumes ok: "coord_ok c" and wire: "\<And>k w. fst (emit_one wire k w) = Inr ()"
    and p: "prepare fi c = (b, c1)" and e: "emit_batch b wire c1 w = (res, c2, w')"
  shows "sb_commands b = fst (plan fi c)
    \<and> c_ledger c2 = c_ledger (snd (plan fi c)) \<and> c_hold c2 = c_hold (snd (plan fi c))
    \<and> c_requeue c2 = c_requeue (snd (plan fi c))
    \<and> c_registered_at c2 = c_registered_at (snd (plan fi c))
    \<and> c_settled_count c2 = c_settled_count (snd (plan fi c))
    \<and> c_frames_sent c2 = c_frames_sent (snd (plan fi c))
    \<and> c_coalesced_count c2 = c_coalesced_count (snd (plan fi c))"
proof -
  have gen: "sb_generation b = c_generation c1" using prepare_state(4,8) [OF ok p] by simp
  have "c2 = fold (commit_command b) (sb_commands b) c1"
    using e emit_loop_success [OF wire, of b "sb_commands b" "[]" c1 w]
    by (simp add: emit_batch_def)
  then show ?thesis
    using plan_by_batch [OF ok p prod.collapse [symmetric]] by (simp add: commit_fold [OF gen])
qed

text \<open>Wires for the instances: one on which every frame succeeds, and one whose nacks fail; the
  world counts the calls.\<close>

definition steady_wire :: "nat wire" where
  "steady_wire = \<lparr>wr_ack = (\<lambda>_ _ n. (Inr (), n + 1)), wr_nack = (\<lambda>_ _ n. (Inr (), n + 1)),
     wr_reject = (\<lambda>_ _ n. (Inr (), n + 1))\<rparr>"

definition nackless_wire :: "nat wire" where
  "nackless_wire = steady_wire\<lparr>wr_nack :=
     (\<lambda>_ _ n. (Inl (mk_exc [''ConnectionError'', ''OSError'', ''Exception''] ''gone''), n + 1))\<rparr>"

definition doc_prepared :: "settlement_batch \<times> coordinator" where
  "doc_prepared = prepare False doc_coordinator"

theorem coordinator_invariant_witness:
  "coord_ok (projr (register 5 3 (coordinator_init 0 True 0 2)))
   \<and> c_gap_floor (projr (register 5 3 (coordinator_init 0 True 0 2))) = 1"
proof -
  let ?c = "projr (register 5 3 (coordinator_init 0 True 0 2))"
  have "register 5 3 (coordinator_init 0 True 0 2) = Inr ?c"
    by (simp add: register_def coordinator_init_def Let_def)
  then have "coord_step\<^sup>*\<^sup>* (coordinator_init 0 True 0 2) ?c"
    by (blast intro: cs_register r_into_rtranclp)
  then have "coord_ok ?c" by (rule coordinator_invariant)
  then show ?thesis by (simp add: register_def coordinator_init_def Let_def)
qed

lemma doc_emission:
  "map_prod (map_sum id (\<lambda>r. (er_invalidated r, er_not_attempted r))) (map_prod c_ledger id)
     (emit_batch (fst doc_prepared) nackless_wire (snd doc_prepared) 0)
   = (Inr (True, [ack_range doc_coordinator [4, 5]]), [], 2)"
  by code_simp


theorem plan_is_faultless_emission_witness:
  "c_ledger (fst (snd (emit_batch (fst doc_prepared) steady_wire (snd doc_prepared) 0)))
     = c_ledger (snd (plan False doc_coordinator))
   \<and> c_frames_sent (snd (plan False doc_coordinator)) = 3"
proof
  have s: "fst (emit_one steady_wire k n) = Inr ()" for k n
    by (cases "sc_kind k") (simp_all add: emit_one_def steady_wire_def)
  have p: "prepare False doc_coordinator = (fst doc_prepared, snd doc_prepared)"
    by (simp add: doc_prepared_def)
  let ?e = "emit_batch (fst doc_prepared) steady_wire (snd doc_prepared) 0"
  have "?e = (fst ?e, fst (snd ?e), snd (snd ?e))" by simp
  from plan_is_faultless_emission [OF doc_coordinator_ok s p this]
  show "c_ledger (fst (snd ?e)) = c_ledger (snd (plan False doc_coordinator))" by blast
  show "c_frames_sent (snd (plan False doc_coordinator)) = 3" by code_simp
qed

end
