(* ===== verification/Rk_Channel.thy ===== *)
theory Rk_Channel
  imports Rk_Emission
begin

text \<open>
  The coordinator on a live channel.  A step relation interleaves the broker (deliveries,
  frames taking effect, reconnects), the consumers (registration, handler outcomes,
  settlements made elsewhere) and any number of batches being emitted concurrently, with
  frames that fail in every possible way.  The broker's side is the AMQP specification: a
  cumulative ack settles every unacknowledged tag up to its own, as the documentation of
  \<^verbatim>\<open>SettlementBatch\<close> in \<^verbatim>\<open>core/settlement.py\<close> states; any other frame settles its own tag.
\<close>

definition frame_settles :: "settlement_command \<Rightarrow> int set \<Rightarrow> int set" where
  "frame_settles k U = (if sc_multiple k then {u \<in> U. u \<le> sc_delivery_tag k} else U \<inter> {sc_delivery_tag k})"

text \<open>
  \<open>ch_unacked\<close> holds the tags the broker has delivered and not seen settled, \<open>ch_top\<close> the last
  delivery tag, \<open>ch_approved\<close> the tags whose success a handler reported, \<open>ch_acked\<close> the tags that
  an ack of the coordinator settled, and \<open>ch_flight\<close> the prepared batches with the commands
  still to be sent.  A new channel restarts all of them.
\<close>

record chan =
  ch_coord :: coordinator
  ch_unacked :: "int set"
  ch_top :: int
  ch_approved :: "int set"
  ch_acked :: "int set"
  ch_flight :: "(settlement_batch \<times> settlement_command list) list"

definition chan_init :: "coordinator \<Rightarrow> chan" where
  "chan_init c = \<lparr>ch_coord = c, ch_unacked = {}, ch_top = 0, ch_approved = {}, ch_acked = {}, ch_flight = []\<rparr>"

text \<open>The effect of a frame that reached the broker.\<close>

definition frame_lands :: "settlement_command \<Rightarrow> chan \<Rightarrow> chan" where
  "frame_lands k s = s\<lparr>ch_unacked := ch_unacked s - frame_settles k (ch_unacked s),
     ch_acked := ch_acked s \<union> (if sc_kind k = SA_ACK then frame_settles k (ch_unacked s) else {})\<rparr>"

inductive chan_step :: "chan \<Rightarrow> chan \<Rightarrow> bool" where
  deliver: "t = ch_top s + 1 \<Longrightarrow>
    chan_step s (s\<lparr>ch_unacked := insert t (ch_unacked s), ch_top := t\<rparr>)"
| registered: "register now t (ch_coord s) = Inr c \<Longrightarrow> t \<le> ch_top s \<Longrightarrow> chan_step s (s\<lparr>ch_coord := c\<rparr>)"
| succeeded: "mark_success t (ch_coord s) = Inr c \<Longrightarrow>
    chan_step s (s\<lparr>ch_coord := c, ch_approved := insert t (ch_approved s)\<rparr>)"
| decided: "m \<in> {mark_retry_pending t, mark_failed t, mark_cancelled t, mark_nack t r, mark_reject t r} \<Longrightarrow>
    m (ch_coord s) = Inr c \<Longrightarrow> chan_step s (s\<lparr>ch_coord := c\<rparr>)"
| elsewhere: "chan_step s (s\<lparr>ch_unacked := ch_unacked s - {t}\<rparr>)"
| released: "t \<notin> ch_unacked s \<Longrightarrow> chan_step s (s\<lparr>ch_coord := release t (ch_coord s)\<rparr>)"
| prepared: "prepare fi (ch_coord s) = (b, c) \<Longrightarrow>
    chan_step s (s\<lparr>ch_coord := c, ch_flight := ch_flight s @ [(b, sb_commands b)]\<rparr>)"
| emitted: "ch_flight s = xs @ (b, k # ks) # ys \<Longrightarrow>
    chan_step s ((frame_lands k s)\<lparr>ch_coord := commit_command b k (ch_coord s),
                                   ch_flight := xs @ (b, ks) # ys\<rparr>)"
| emit_failed: "ch_flight s = xs @ (b, k # ks) # ys \<Longrightarrow> s' = s \<or> s' = frame_lands k s \<Longrightarrow>
    chan_step s (s'\<lparr>ch_coord := snd (emission_failed b k ks (ch_coord s)), ch_flight := xs @ ys\<rparr>)"
| emit_crashed: "ch_flight s = xs @ (b, k # ks) # ys \<Longrightarrow> s' = s \<or> s' = frame_lands k s \<Longrightarrow>
    chan_step s (s'\<lparr>ch_flight := xs @ ys\<rparr>)"
| finished: "ch_flight s = xs @ (b, []) # ys \<Longrightarrow> chan_step s (s\<lparr>ch_flight := xs @ ys\<rparr>)"
| invalidated: "chan_step s (s\<lparr>ch_coord := snd (invalidate (ch_coord s))\<rparr>)"
| reconnected: "chan_step s (chan_init (snd (invalidate (ch_coord s))))"

section \<open>The invariant\<close>

definition flight_ok :: "chan \<Rightarrow> settlement_command list \<Rightarrow> bool" where
  "flight_ok s ks \<longleftrightarrow> sweeps_ok (ch_unacked s) (ch_approved s) ks
     \<and> (\<forall>k \<in> set ks. sc_delivery_tag k \<le> ch_top s
          \<and> (sc_kind k = SA_ACK \<longrightarrow> set (sc_covers k) \<subseteq> ch_approved s)
          \<and> (if sc_multiple k then sc_kind k = SA_ACK else sc_covers k = [sc_delivery_tag k]))"

definition coord_inv :: "coordinator \<Rightarrow> int set \<Rightarrow> int \<Rightarrow> bool" where
  "coord_inv c A hi \<longleftrightarrow> coord_ok c \<and> c_last_registered c \<le> hi
     \<and> (\<forall>t. state_of c t = Some DS_SUCCESS \<longrightarrow> t \<in> A)"

text \<open>Every unacknowledged tag is in the ledger, approved, at or above the gap, or not registered
  yet: a cumulative ack that respects the ledger and the gap can reach no other.\<close>

definition known :: "coordinator \<Rightarrow> int set \<Rightarrow> int \<Rightarrow> bool" where
  "known c A u \<longleftrightarrow> u \<in> set (ledger_tags c) \<or> u \<in> A
     \<or> (c_gap_floor c \<noteq> 0 \<and> c_gap_floor c \<le> u) \<or> c_last_registered c < u"

definition chan_inv :: "chan \<Rightarrow> bool" where
  "chan_inv s \<longleftrightarrow> coord_inv (ch_coord s) (ch_approved s) (ch_top s)
     \<and> 0 \<le> ch_top s
     \<and> (\<forall>u \<in> ch_unacked s. 0 < u \<and> u \<le> ch_top s \<and> known (ch_coord s) (ch_approved s) u)
     \<and> (\<forall>b ks. (b, ks) \<in> set (ch_flight s) \<longrightarrow> flight_ok s ks)
     \<and> ch_acked s \<subseteq> ch_approved s"

lemma sweeps_ok_cut:
  "sweeps_ok T B ks \<Longrightarrow> T' \<subseteq> T \<Longrightarrow> T' \<inter> B \<subseteq> A \<Longrightarrow> sweeps_ok T' A ks"
proof (induction ks arbitrary: A B)
  case (Cons k ks)
  have "sweeps_ok T' (A \<union> set (sc_covers k)) ks"
    by (rule Cons.IH [of "B \<union> set (sc_covers k)"]) (use Cons.prems in auto)
  with Cons.prems show ?case by fastforce
qed simp

lemma sweeps_ok_transfer:
  "sweeps_ok T B ks \<Longrightarrow> B \<subseteq> A \<Longrightarrow>
     (\<And>k u. k \<in> set ks \<Longrightarrow> sc_multiple k \<Longrightarrow> u \<in> U \<Longrightarrow> u \<le> sc_delivery_tag k \<Longrightarrow> u \<in> T \<or> u \<in> A) \<Longrightarrow>
     sweeps_ok U A ks"
proof (induction ks arbitrary: A B)
  case (Cons k ks)
  have "sweeps_ok U (A \<union> set (sc_covers k)) ks"
    by (rule Cons.IH [of "B \<union> set (sc_covers k)"]) (use Cons.prems in auto)
  with Cons.prems show ?case by fastforce
qed simp

text \<open>A smaller set of unacknowledged tags and a larger set of approvals keep a flight safe.\<close>

lemma flight_ok_mono:
  "flight_ok s ks \<Longrightarrow> ch_unacked s' \<subseteq> ch_unacked s \<Longrightarrow> ch_approved s \<subseteq> ch_approved s' \<Longrightarrow>
     ch_top s \<le> ch_top s' \<Longrightarrow> flight_ok s' ks"
  unfolding flight_ok_def by (force intro: sweeps_ok_cut)

lemma cmd_ok_form:
  assumes "cmd_ok c k"
  shows "if sc_multiple k then sc_kind k = SA_ACK else sc_covers k = [sc_delivery_tag k]"
proof -
  from assms have "if sc_multiple k
      then sc_kind k = SA_ACK \<and> c_coalesce c \<and> length (sc_covers k) \<ge> 2
           \<and> (c_gap_floor c \<noteq> 0 \<longrightarrow> sc_delivery_tag k < c_gap_floor c)
      else sc_covers k = [sc_delivery_tag k]"
    unfolding cmd_ok_def by (elim conjE)
  then show ?thesis by (auto split: if_splits)
qed

text \<open>Preparing a batch establishes the flight condition.\<close>

lemma prepared_flight_ok:
  assumes inv: "chan_inv s" and p: "prepare fi (ch_coord s) = (b, c)"
  shows "flight_ok s (sb_commands b)"
proof -
  have ok: "coord_ok (ch_coord s)" using inv by (simp add: chan_inv_def coord_inv_def)
  have cmd: "cmd_ok (ch_coord s) k" if "k \<in> set (sb_commands b)" for k
    using prepare_commands(1) [OF ok p] that by blast
  have led: "sc_delivery_tag k \<in> set (ledger_tags (ch_coord s))" if "k \<in> set (sb_commands b)" for k
    using cmd [OF that] prepare_commands(4) [OF ok p] that
    by (force simp: cmd_ok_def dest: last_in_set)
  have last: "sc_delivery_tag k \<le> c_last_registered (ch_coord s)" if "k \<in> set (sb_commands b)" for k
    using led [OF that] ok by (auto simp: coord_ok_def ledger_ok_def)
  have "sweeps_ok (ch_unacked s) (ch_approved s) (sb_commands b)"
  proof (rule sweeps_ok_transfer [OF prepare_commands(5) [OF ok p]])
    fix k u
    assume k: "k \<in> set (sb_commands b)" "sc_multiple k" and u: "u \<in> ch_unacked s" "u \<le> sc_delivery_tag k"
    have "known (ch_coord s) (ch_approved s) u" using inv u(1) by (simp add: chan_inv_def)
    with last [OF k(1)] cmd [OF k(1)] k(2) u(2)
    show "u \<in> set (ledger_tags (ch_coord s)) \<or> u \<in> ch_approved s"
      by (auto simp: known_def cmd_ok_def)
  qed simp
  moreover have "sc_delivery_tag k \<le> ch_top s" if "k \<in> set (sb_commands b)" for k
    using last [OF that] inv by (simp add: chan_inv_def coord_inv_def)
  moreover have "set (sc_covers k) \<subseteq> ch_approved s" if "k \<in> set (sb_commands b)" "sc_kind k = SA_ACK" for k
  proof
    fix t
    assume "t \<in> set (sc_covers k)"
    then have "state_of (ch_coord s) t = Some DS_SUCCESS"
      using cmd [OF that(1)] that(2) by (simp add: cmd_ok_def state_of_def)
    then show "t \<in> ch_approved s" using inv by (simp add: chan_inv_def coord_inv_def)
  qed
  moreover have "if sc_multiple k then sc_kind k = SA_ACK else sc_covers k = [sc_delivery_tag k]"
    if "k \<in> set (sb_commands b)" for k
    by (rule cmd_ok_form [OF cmd [OF that]])
  ultimately show ?thesis unfolding flight_ok_def by blast
qed

section \<open>Every step keeps the invariant\<close>

lemma chan_inv_coord:
  "chan_inv s \<Longrightarrow> coord_inv c (ch_approved s) (ch_top s) \<Longrightarrow>
     (\<And>u. u \<in> ch_unacked s \<Longrightarrow> known (ch_coord s) (ch_approved s) u \<Longrightarrow> 0 < u \<Longrightarrow> known c (ch_approved s) u) \<Longrightarrow>
     chan_inv (s\<lparr>ch_coord := c\<rparr>)"
  by (simp add: chan_inv_def flight_ok_def)

lemma register_coord_inv:
  assumes "coord_inv c A hi" and reg: "register now t c = Inr c'" and "t \<le> hi"
  shows "coord_inv c' A hi" and "known c A u \<Longrightarrow> known c' A u"
proof -
  note r = register_Inr [OF reg]
  have ok: "coord_ok c" using assms(1) by (simp add: coord_inv_def)
  show "coord_inv c' A hi"
    using assms register_ok [OF ok reg] by (auto simp: coord_inv_def state_of_def r(4,5) split: if_splits)
  show "known c' A u" if "known c A u"
  proof (cases "c_last_registered c < u \<and> u < t")
    case True
    moreover have "c_gap_floor c \<le> c_last_registered c" "0 \<le> c_gap_floor c"
      using ok by (auto simp: coord_ok_def ledger_ok_def)
    moreover have "0 \<le> c_last_registered c" using calculation by linarith
    ultimately show ?thesis by (auto simp: known_def r(6))
  next
    case False
    have gap: "c_gap_floor c \<noteq> 0 \<Longrightarrow> c_gap_floor c' = c_gap_floor c" by (simp add: r(6))
    have keys: "set (ledger_tags c') = insert t (set (ledger_tags c))"
      by (simp add: r(4) dict_keys_set del: set_map)
    from that False show ?thesis
      unfolding known_def keys r(5) using gap by force
  qed
qed

lemma set_intent_coord_inv:
  assumes inv: "coord_inv c A hi" and s: "set_intent t st rq c = Inr c'"
    and rq: "st \<in> {DS_NACK, DS_REJECT} \<Longrightarrow> rq \<noteq> None" and A: "st = DS_SUCCESS \<Longrightarrow> t \<in> A'" "A \<subseteq> A'"
  shows "coord_inv c' A' hi" and "known c A u \<Longrightarrow> known c' A' u"
proof -
  have ok: "coord_ok c'" using inv set_intent_ok [OF _ s rq] by (simp add: coord_inv_def)
  show "coord_inv c' A' hi"
    using s
  proof (cases rule: set_intent_Inr)
    case 1
    then show ?thesis using inv A ok by (auto simp: coord_inv_def)
  next
    case (2 current)
    then show ?thesis using inv A ok by (auto simp: coord_inv_def state_of_def split: if_splits)
  qed
  show "known c' A' u" if "known c A u"
    using s
  proof (cases rule: set_intent_Inr)
    case (2 current)
    then have "ledger_tags c' = ledger_tags c"
      by (auto simp: dict_keys_set_present dest!: dict_get_SomeD)
    with that A 2(3) show ?thesis by (auto simp: known_def)
  qed (use that A in \<open>auto simp: known_def\<close>)
qed

text \<open>Dropping tags that are settled or approved.\<close>

lemma drop_coord_inv:
  assumes inv: "coord_inv c A hi" and c': "coord_ok c'" "c_ledger c' = dict_pop_all ts (c_ledger c)"
    "c_last_registered c' = c_last_registered c" "c_gap_floor c' = c_gap_floor c"
  shows "coord_inv c' A hi" and "known c A u \<Longrightarrow> (u \<in> set ts \<Longrightarrow> u \<in> A) \<Longrightarrow> known c' A u"
  using inv c' by (auto simp: coord_inv_def state_of_def known_def dict_keys_pop_all simp del: set_map
      split: if_splits)

lemma invalidate_coord_inv:
  "coord_inv c A hi \<Longrightarrow> 0 \<le> hi \<Longrightarrow> coord_inv (snd (invalidate c)) A hi"
  "0 < u \<Longrightarrow> known (snd (invalidate c)) A u"
  by (simp_all add: coord_inv_def invalidate_ok state_of_def known_def)

lemma commit_coord_inv:
  assumes "coord_inv c A hi"
  shows "coord_inv (commit_command b k c) A hi"
    and "known c A u \<Longrightarrow> (u \<in> set (sc_covers k) \<Longrightarrow> u \<in> A) \<Longrightarrow> known (commit_command b k c) A u"
proof -
  let ?c = "commit_command b k c"
  have ok: "coord_ok ?c" using assms by (simp add: coord_inv_def commit_command_ok)
  have eq: "c_last_registered ?c = c_last_registered c" "c_gap_floor ?c = c_gap_floor c"
    "sb_generation b = c_generation c \<Longrightarrow> c_ledger ?c = dict_pop_all (sc_covers k) (c_ledger c)"
    by (simp_all add: commit_command_def Let_def settle_tags_def)
  have "sb_generation b \<noteq> c_generation c \<Longrightarrow> ?c = c" by (simp add: commit_command_def)
  with drop_coord_inv [OF assms ok eq(3,1,2)] assms
  show "coord_inv ?c A hi"
    "known c A u \<Longrightarrow> (u \<in> set (sc_covers k) \<Longrightarrow> u \<in> A) \<Longrightarrow> known ?c A u"
    by (cases "sb_generation b = c_generation c"; simp)+
qed

lemma failed_coord_inv:
  assumes inv: "coord_inv c A hi" "0 \<le> hi" and ack: "sc_kind k = SA_ACK \<Longrightarrow> set (sc_covers k) \<subseteq> A"
  shows "coord_inv (snd (emission_failed b k ks c)) A hi"
    and "known c A u \<Longrightarrow> 0 < u \<Longrightarrow> known (snd (emission_failed b k ks c)) A u"
proof -
  let ?f = "emission_failed b k ks c"
  have ok: "coord_ok (unresolved k c)"
    using inv settle_tags_ok by (simp add: coord_inv_def unresolved_def)
  have eq: "c_last_registered (unresolved k c) = c_last_registered c"
    "c_gap_floor (unresolved k c) = c_gap_floor c"
    by (simp_all add: unresolved_def settle_tags_def)
  have uinv: "coord_inv (unresolved k c) A hi"
    "known c A u \<Longrightarrow> (u \<in> set (sc_covers k) \<Longrightarrow> u \<in> A) \<Longrightarrow> known (unresolved k c) A u"
    using drop_coord_inv [OF inv(1) ok _ eq] by auto
  have rel: "c_last_registered (fold (release_one b) ks d) = c_last_registered d"
    "c_gap_floor (fold (release_one b) ks d) = c_gap_floor d"
    "coord_ok d \<Longrightarrow> coord_ok (fold (release_one b) ks d)" for d
    by (induction ks arbitrary: d) (simp_all add: release_one_ok, simp_all add: release_one_def)
  have rinv: "coord_inv (fold (release_one b) ks (unresolved k c)) A hi"
    "known (unresolved k c) A u \<Longrightarrow> known (fold (release_one b) ks (unresolved k c)) A u"
    using uinv(1) rel ok by (auto simp: coord_inv_def known_def state_of_def release_fold_commands)
  consider "snd ?f = c" | "snd ?f = fold (release_one b) ks (unresolved k c)" "sc_kind k = SA_ACK"
    | "snd ?f = snd (invalidate (unresolved k c))"
    using emission_failed_same [of b c k ks]
    by (cases "sb_generation b = c_generation c"; cases "sc_kind k = SA_ACK")
       (auto simp: emission_failed_def fail_command_def release_commands_def)
  note cases = this
  show "coord_inv (snd ?f) A hi"
    by (rule cases) (simp_all add: inv rinv(1) invalidate_coord_inv(1) [OF uinv(1) inv(2)])
  show "known (snd ?f) A u" if "known c A u" "0 < u"
    by (rule cases) (use that rinv(2) uinv(2) ack invalidate_coord_inv(2) in auto)
qed

text \<open>A landed frame settles only approved tags when it is an ack, and keeps every other part of the
  invariant.\<close>

lemma ack_settles_approved:
  assumes "flight_ok s (k # ks)" and "sc_kind k = SA_ACK"
  shows "frame_settles k (ch_unacked s) \<subseteq> ch_approved s"
proof (cases "sc_multiple k")
  case True
  then have "\<forall>t \<in> ch_unacked s. t \<le> sc_delivery_tag k \<longrightarrow> t \<in> ch_approved s \<union> set (sc_covers k)"
    using assms(1) by (simp add: flight_ok_def)
  moreover have "set (sc_covers k) \<subseteq> ch_approved s" using assms by (simp add: flight_ok_def)
  ultimately show ?thesis using True by (auto simp: frame_settles_def)
next
  case False
  then have "set (sc_covers k) = {sc_delivery_tag k}" "set (sc_covers k) \<subseteq> ch_approved s"
    using assms by (auto simp: flight_ok_def)
  then show ?thesis using False by (auto simp: frame_settles_def)
qed

lemma frame_lands_simps [simp]:
  "ch_coord (frame_lands k s) = ch_coord s" "ch_top (frame_lands k s) = ch_top s"
  "ch_approved (frame_lands k s) = ch_approved s" "ch_flight (frame_lands k s) = ch_flight s"
  "ch_unacked (frame_lands k s) = ch_unacked s - frame_settles k (ch_unacked s)"
  by (simp_all add: frame_lands_def)

lemma frame_lands_inv:
  assumes inv: "chan_inv s" and fl: "(b, k # ks) \<in> set (ch_flight s)"
  shows "chan_inv (frame_lands k s)"
proof -
  have "flight_ok s (k # ks)" using inv fl by (auto simp: chan_inv_def)
  then have acked: "ch_acked (frame_lands k s) \<subseteq> ch_approved s"
    using inv ack_settles_approved [of s k ks] by (auto simp: frame_lands_def chan_inv_def)
  have "flight_ok (frame_lands k s) js" if "(b', js) \<in> set (ch_flight s)" for b' js
    by (rule flight_ok_mono [of s]) (use inv that in \<open>auto simp: chan_inv_def\<close>)
  with inv acked show ?thesis by (simp add: chan_inv_def)
qed

text \<open>The rest of a batch after its first command landed, or was never needed for it.\<close>

lemma flight_ok_rest:
  assumes fl: "flight_ok s (k # ks)"
  shows "flight_ok (frame_lands k s) ks"
proof -
  have "sweeps_ok (ch_unacked s) (ch_approved s \<union> set (sc_covers k)) ks" using fl by (simp add: flight_ok_def)
  moreover have "(ch_unacked s - frame_settles k (ch_unacked s)) \<inter> (ch_approved s \<union> set (sc_covers k))
      \<subseteq> ch_approved s"
  proof (cases "sc_kind k = SA_ACK")
    case True
    then show ?thesis using fl by (auto simp: flight_ok_def)
  next
    case False
    then have "set (sc_covers k) = {sc_delivery_tag k}" "\<not> sc_multiple k"
      using fl by (auto simp: flight_ok_def split: if_splits)
    then show ?thesis by (auto simp: frame_settles_def)
  qed
  ultimately have "sweeps_ok (ch_unacked (frame_lands k s)) (ch_approved s) ks"
    unfolding frame_lands_simps by (rule sweeps_ok_cut [OF _ Diff_subset])
  with fl show ?thesis by (simp add: flight_ok_def)
qed

lemma chan_inv_flight:
  "chan_inv s \<Longrightarrow> (\<And>b ks. (b, ks) \<in> set fs \<Longrightarrow> flight_ok s ks) \<Longrightarrow> chan_inv (s\<lparr>ch_flight := fs\<rparr>)"
  by (simp add: chan_inv_def flight_ok_def)

lemma emitted_inv:
  assumes inv: "chan_inv s" and fl: "ch_flight s = xs @ (b, k # ks) # ys"
  shows "chan_inv ((frame_lands k s)\<lparr>ch_coord := commit_command b k (ch_coord s), ch_flight := xs @ (b, ks) # ys\<rparr>)"
proof -
  let ?l = "frame_lands k s"
  have here: "(b, k # ks) \<in> set (ch_flight s)" using fl by simp
  have ok: "flight_ok s (k # ks)" using inv here by (auto simp: chan_inv_def)
  have l: "chan_inv ?l" by (rule frame_lands_inv [OF inv here])
  have "chan_inv (?l\<lparr>ch_coord := commit_command b k (ch_coord s)\<rparr>)"
  proof (rule chan_inv_coord [OF l])
    have ci: "coord_inv (ch_coord s) (ch_approved s) (ch_top s)" using inv by (simp add: chan_inv_def)
    then show "coord_inv (commit_command b k (ch_coord s)) (ch_approved ?l) (ch_top ?l)"
      by (simp add: commit_coord_inv(1))
    fix u
    assume u: "u \<in> ch_unacked ?l" "known (ch_coord ?l) (ch_approved ?l) u"
    have "u \<in> ch_approved s" if "u \<in> set (sc_covers k)"
    proof (cases "sc_kind k = SA_ACK")
      case True
      then show ?thesis using ok that by (auto simp: flight_ok_def)
    next
      case False
      then have "set (sc_covers k) = {sc_delivery_tag k}" "\<not> sc_multiple k"
        using ok by (auto simp: flight_ok_def split: if_splits)
      then show ?thesis using u(1) that by (auto simp: frame_settles_def)
    qed
    with u(2) show "known (commit_command b k (ch_coord s)) (ch_approved ?l) u"
      using commit_coord_inv(2) [OF ci, of u k b] by simp
  qed
  moreover have "flight_ok ?l js" if "(b', js) \<in> set (xs @ (b, ks) # ys)" for b' js
    using that l flight_ok_rest [OF ok] by (auto simp: chan_inv_def fl)
  ultimately show ?thesis
    using chan_inv_flight [of "?l\<lparr>ch_coord := commit_command b k (ch_coord s)\<rparr>" "xs @ (b, ks) # ys"]
    by (simp add: flight_ok_def)
qed

lemma failed_inv:
  assumes inv: "chan_inv s" and fl: "ch_flight s = xs @ (b, k # ks) # ys" and s': "s' = s \<or> s' = frame_lands k s"
  shows "chan_inv (s'\<lparr>ch_coord := snd (emission_failed b k ks (ch_coord s)), ch_flight := xs @ ys\<rparr>)"
    and "chan_inv (s'\<lparr>ch_flight := xs @ ys\<rparr>)"
proof -
  let ?c = "snd (emission_failed b k ks (ch_coord s))"
  have here: "(b, k # ks) \<in> set (ch_flight s)" using fl by simp
  have ok: "flight_ok s (k # ks)" using inv here by (auto simp: chan_inv_def)
  have inv': "chan_inv s'" using s' inv frame_lands_inv [OF inv here] by auto
  have same: "ch_coord s' = ch_coord s" "ch_approved s' = ch_approved s" "ch_top s' = ch_top s"
    "ch_flight s' = ch_flight s"
    using s' by auto
  have ci: "coord_inv (ch_coord s) (ch_approved s) (ch_top s)" "0 \<le> ch_top s"
    using inv by (auto simp: chan_inv_def)
  have ack: "sc_kind k = SA_ACK \<Longrightarrow> set (sc_covers k) \<subseteq> ch_approved s" using ok by (simp add: flight_ok_def)
  note f = failed_coord_inv [OF ci ack, where b = b and ks = ks]
  have c: "chan_inv (s'\<lparr>ch_coord := ?c\<rparr>)"
    by (rule chan_inv_coord [OF inv']) (use f in \<open>simp_all add: same\<close>)
  have fls: "flight_ok s' js" if "(b', js) \<in> set (xs @ ys)" for b' js
    using that inv' by (auto simp: chan_inv_def same fl)
  then show "chan_inv (s'\<lparr>ch_flight := xs @ ys\<rparr>)" by (rule chan_inv_flight [OF inv'])
  from fls show "chan_inv (s'\<lparr>ch_coord := ?c, ch_flight := xs @ ys\<rparr>)"
    using chan_inv_flight [OF c, of "xs @ ys"] by (simp add: flight_ok_def)
qed

lemma decided_inv:
  assumes inv: "chan_inv s" and s: "set_intent t st rq (ch_coord s) = Inr c"
    and rq: "st \<in> {DS_NACK, DS_REJECT} \<Longrightarrow> rq \<noteq> None" and st: "st \<noteq> DS_SUCCESS"
  shows "chan_inv (s\<lparr>ch_coord := c\<rparr>)"
proof (rule chan_inv_coord [OF inv])
  have ci: "coord_inv (ch_coord s) (ch_approved s) (ch_top s)" using inv by (simp add: chan_inv_def)
  note si = set_intent_coord_inv [OF ci s rq, where A' = "ch_approved s"]
  from si(1) st show "coord_inv c (ch_approved s) (ch_top s)" by blast
  from si(2) st show "\<And>u. known (ch_coord s) (ch_approved s) u \<Longrightarrow> known c (ch_approved s) u" by blast
qed

lemma succeeded_inv:
  assumes inv: "chan_inv s" and s: "mark_success t (ch_coord s) = Inr c"
  shows "chan_inv (s\<lparr>ch_coord := c, ch_approved := insert t (ch_approved s)\<rparr>)"
proof -
  let ?A = "insert t (ch_approved s)"
  let ?s = "s\<lparr>ch_coord := c, ch_approved := ?A\<rparr>"
  have ci: "coord_inv (ch_coord s) (ch_approved s) (ch_top s)" using inv by (simp add: chan_inv_def)
  note si = set_intent_coord_inv [OF ci s [unfolded mark_success_def], where A' = "?A"]
  have "flight_ok ?s ks" if "(b, ks) \<in> set (ch_flight s)" for b ks
    by (rule flight_ok_mono [of s]) (use inv that in \<open>auto simp: chan_inv_def\<close>)
  moreover have "coord_inv c ?A (ch_top s)" using si(1) by blast
  moreover have "known c ?A u" if "u \<in> ch_unacked s" for u
  proof -
    have "known (ch_coord s) (ch_approved s) u" using inv that by (simp add: chan_inv_def)
    with si(2) show ?thesis by blast
  qed
  ultimately show ?thesis using inv by (auto simp: chan_inv_def)
qed

lemma deliver_inv:
  assumes inv: "chan_inv s"
  shows "chan_inv (s\<lparr>ch_unacked := insert (ch_top s + 1) (ch_unacked s), ch_top := ch_top s + 1\<rparr>)"
    (is "chan_inv ?s")
proof -
  have "flight_ok ?s ks" if "(b, ks) \<in> set (ch_flight s)" for b ks
  proof -
    have ok: "flight_ok s ks" using inv that by (auto simp: chan_inv_def)
    then have "sweeps_ok (insert (ch_top s + 1) (ch_unacked s)) (ch_approved s) ks"
      by (intro sweeps_ok_insert) (force simp: flight_ok_def)+
    with ok show ?thesis by (force simp: flight_ok_def)
  qed
  moreover have "coord_inv (ch_coord s) (ch_approved s) (ch_top s + 1)"
    using inv by (simp add: chan_inv_def coord_inv_def)
  moreover have "known (ch_coord s) (ch_approved s) (ch_top s + 1)"
    using inv by (simp add: chan_inv_def coord_inv_def known_def)
  ultimately show ?thesis using inv by (auto simp: chan_inv_def)
qed

lemma released_inv:
  assumes inv: "chan_inv s" and t: "t \<notin> ch_unacked s"
  shows "chan_inv (s\<lparr>ch_coord := release t (ch_coord s)\<rparr>)"
proof (rule chan_inv_coord [OF inv])
  have ci: "coord_inv (ch_coord s) (ch_approved s) (ch_top s)" using inv by (simp add: chan_inv_def)
  then have ok: "coord_ok (release t (ch_coord s))" by (simp add: coord_inv_def release_ok)
  show "coord_inv (release t (ch_coord s)) (ch_approved s) (ch_top s)"
    by (rule drop_coord_inv(1) [OF ci ok, of "[t]"]) (simp_all add: release_def)
  fix u
  assume "u \<in> ch_unacked s" and k: "known (ch_coord s) (ch_approved s) u"
  then have "u \<noteq> t" using t by auto
  with k show "known (release t (ch_coord s)) (ch_approved s) u"
    by (auto simp: known_def release_def dict_keys_pop simp del: set_map)
qed

lemma fewer_unacked_inv:
  assumes "chan_inv s"
  shows "chan_inv (s\<lparr>ch_unacked := ch_unacked s - T\<rparr>)"
proof -
  have "flight_ok (s\<lparr>ch_unacked := ch_unacked s - T\<rparr>) ks" if "(b, ks) \<in> set (ch_flight s)" for b ks
    by (rule flight_ok_mono [of s]) (use assms that in \<open>auto simp: chan_inv_def\<close>)
  with assms show ?thesis by (simp add: chan_inv_def)
qed

lemma prepared_inv:
  assumes inv: "chan_inv s" and p: "prepare fi (ch_coord s) = (b, c)"
  shows "chan_inv (s\<lparr>ch_coord := c, ch_flight := ch_flight s @ [(b, sb_commands b)]\<rparr>)"
proof -
  have ok: "coord_ok (ch_coord s)" using inv by (simp add: chan_inv_def coord_inv_def)
  note st = prepare_state [OF ok p]
  have "coord_inv c (ch_approved s) (ch_top s)"
    using inv st(10) by (simp add: chan_inv_def coord_inv_def state_of_def st(1,2))
  then have "chan_inv (s\<lparr>ch_coord := c\<rparr>)"
    by (rule chan_inv_coord [OF inv]) (simp add: known_def st(1-3))
  moreover have "flight_ok s ks" if "(b', ks) \<in> set (ch_flight s @ [(b, sb_commands b)])" for b' ks
    using that inv prepared_flight_ok [OF inv p] by (auto simp: chan_inv_def)
  ultimately show ?thesis
    using chan_inv_flight [of "s\<lparr>ch_coord := c\<rparr>" "ch_flight s @ [(b, sb_commands b)]"]
    by (simp add: flight_ok_def)
qed

lemma chan_init_inv:
  "coord_ok c \<Longrightarrow> c_ledger c = [] \<Longrightarrow> c_last_registered c = 0 \<Longrightarrow> chan_inv (chan_init c)"
  by (simp add: chan_inv_def chan_init_def coord_inv_def state_of_def)

lemma chan_step_inv: "chan_step s s' \<Longrightarrow> chan_inv s \<Longrightarrow> chan_inv s'"
proof (induction rule: chan_step.induct)
  case (registered now t s c)
  then have ci: "coord_inv (ch_coord s) (ch_approved s) (ch_top s)" by (simp add: chan_inv_def)
  note r = register_coord_inv [OF ci registered.hyps]
  show ?case by (rule chan_inv_coord [OF registered.prems]) (use r in auto)
next
  case (decided m t r s c)
  then show ?case by (auto simp: mark_defs intro: decided_inv)
next
  case (invalidated s)
  then have ci: "coord_inv (ch_coord s) (ch_approved s) (ch_top s)" "0 \<le> ch_top s"
    by (auto simp: chan_inv_def)
  show ?case
    by (rule chan_inv_coord [OF invalidated.prems]) (simp_all add: invalidate_coord_inv ci)
next
  case (reconnected s)
  then have "coord_ok (ch_coord s)" by (simp add: chan_inv_def coord_inv_def)
  then show ?case by (intro chan_init_inv) (simp_all add: invalidate_ok)
next
  case (finished s xs b ys)
  then show ?case by (intro chan_inv_flight) (auto simp: chan_inv_def)
qed (auto intro: deliver_inv succeeded_inv fewer_unacked_inv released_inv prepared_inv emitted_inv failed_inv)

section \<open>Properties\<close>


text \<open>A run that acknowledges one delivery: it is delivered, registered, reported successful,
  planned and acked.\<close>

definition run_0 :: chan where
  "run_0 = chan_init (coordinator_init 0 True 0 0)"

definition run_1 :: chan where
  "run_1 = run_0\<lparr>ch_unacked := insert 1 (ch_unacked run_0), ch_top := 1\<rparr>"

definition run_2 :: chan where
  "run_2 = run_1\<lparr>ch_coord := projr (register 0 1 (ch_coord run_1))\<rparr>"

definition run_3 :: chan where
  "run_3 = run_2\<lparr>ch_coord := projr (mark_success 1 (ch_coord run_2)),
     ch_approved := insert 1 (ch_approved run_2)\<rparr>"

definition run_4 :: chan where
  "run_4 = run_3\<lparr>ch_coord := snd (prepare False (ch_coord run_3)),
     ch_flight := ch_flight run_3 @ [(fst (prepare False (ch_coord run_3)),
                                      sb_commands (fst (prepare False (ch_coord run_3))))]\<rparr>"

lemmas run_defs = run_0_def run_1_def run_2_def run_3_def run_4_def chan_init_def coordinator_init_def

lemma run_coord:
  "register 0 1 (ch_coord run_1) = Inr (ch_coord run_2)"
  "mark_success 1 (ch_coord run_2) = Inr (ch_coord run_3)"
  "sb_commands (fst (prepare False (ch_coord run_3))) = [ack_one (ch_coord run_3) 1]"
  by (simp_all add: run_defs register_def Let_def mark_success_def set_intent_def transitions_def
      prepare_def plan_locked_def plan_walk_def plan_tag_def is_ack_safe_def flush_run_def
      flush_commands_def dict_has_def ack_one_def)

lemma run_steps: "chan_step\<^sup>*\<^sup>* run_0 run_4"
proof (rule converse_rtranclp_into_rtranclp, goal_cases)
  case 1
  show "chan_step run_0 run_1" unfolding run_1_def
    by (rule deliver) (simp add: run_0_def chan_init_def)
next
  case 2
  have "chan_step run_1 run_2" unfolding run_2_def
    by (rule registered [of 0 1]) (simp add: run_coord(1), simp add: run_1_def)
  moreover have "chan_step run_2 run_3" unfolding run_3_def
    by (rule succeeded) (simp add: run_coord(2))
  ultimately have "chan_step\<^sup>*\<^sup>* run_1 run_3"
    by (rule rtranclp.rtrancl_into_rtrancl [OF r_into_rtranclp])
  moreover have "chan_step run_3 run_4" unfolding run_4_def
    by (rule prepared [of False]) simp
  ultimately show "chan_step\<^sup>*\<^sup>* run_1 run_4" by (rule rtranclp.rtrancl_into_rtrancl)
qed


end
