(* ===== verification/Rk_Handoff.thy ===== *)
theory Rk_Handoff
  imports Rk_Types
begin

text \<open>
  The retry configuration (\<^verbatim>\<open>RetryHandoffConfig\<close> and \<^verbatim>\<open>RetryConfig\<close> of \<^verbatim>\<open>core/config.py\<close>) with the
  validation its constructors perform, and the tracker of failed retry publishes
  (\<^verbatim>\<open>core/retry_handoff.py\<close>).  The tracker's clock and random source are arguments.
\<close>

section \<open>Configuration\<close>

record handoff_config =
  hc_backoff_initial :: real
  hc_backoff_max :: real
  hc_jitter :: real
  hc_max_consecutive_failures :: int
  hc_recovery_deadline :: real

definition handoff_config_init :: "handoff_config \<Rightarrow> py_exc + handoff_config" where
  "handoff_config_init c =
     (if hc_backoff_initial c \<le> 0 then Inl (config_validation_error ''backoff_initial'')
      else if hc_backoff_max c < hc_backoff_initial c then Inl (config_validation_error ''backoff_max'')
      else if \<not> (0 \<le> hc_jitter c \<and> hc_jitter c < 1) then Inl (config_validation_error ''jitter'')
      else if hc_max_consecutive_failures c < 1
      then Inl (config_validation_error ''max_consecutive_failures'')
      else if hc_recovery_deadline c \<le> 0 then Inl (config_validation_error ''recovery_deadline'')
      else Inr c)"

record retry_config =
  rc_max_retries :: int
  rc_delays :: "int list"
  rc_retry_header :: string
  rc_jitter_factor :: real
  rc_jitter_mode :: string
  rc_jitter_shards :: int
  rc_dead_letter_exchange :: string
  rc_per_queue :: bool
  rc_unknown_policy :: error_severity
  rc_strict_delays :: bool
  rc_delay_queue_type :: string
  rc_dlq_queue_type :: string
  rc_error_detail :: string
  rc_handoff :: handoff_config
  rc_max_retry_age :: "real option"
  rc_terminal_action :: terminal_action
  rc_quorum_initial_group_size :: "int option"
  rc_delay_queue_dead_letter_strategy :: "string option"
  rc_trust_retry_header :: bool

definition RETRY_QUEUE_TYPES :: "string list" where
  "RETRY_QUEUE_TYPES = [''classic'', ''quorum'', ''inherit'']"

text \<open>\<^verbatim>\<open>RetryConfig.__post_init__\<close>.  The terminal action is already a value of its enumeration here;
  the warnings (a deprecated exchange, too few delays without \<^verbatim>\<open>strict_delays\<close>) do not change
  the result.\<close>

definition retry_config_init :: "retry_config \<Rightarrow> py_exc + retry_config" where
  "retry_config_init c =
     (if rc_max_retries c < 0 then Inl (config_validation_error ''max_retries'')
      else if (case rc_quorum_initial_group_size c of None \<Rightarrow> False | Some n \<Rightarrow> n < 1)
      then Inl (config_validation_error ''quorum_initial_group_size'')
      else if rc_delay_queue_dead_letter_strategy c \<notin> {None, Some ''at-most-once'', Some ''at-least-once''}
      then Inl (config_validation_error ''delay_queue_dead_letter_strategy'')
      else if rc_delay_queue_dead_letter_strategy c \<noteq> None \<and> rc_delay_queue_type c = ''classic''
      then Inl (config_validation_error ''delay_queue_dead_letter_strategy'')
      else if (case rc_max_retry_age c of None \<Rightarrow> False | Some a \<Rightarrow> a \<le> 0)
      then Inl (config_validation_error ''max_retry_age'')
      else if list_ex (\<lambda>d. d < 0) (rc_delays c) then Inl (config_validation_error ''delays'')
      else if rc_delay_queue_type c \<notin> set RETRY_QUEUE_TYPES
      then Inl (config_validation_error ''delay_queue_type'')
      else if rc_dlq_queue_type c \<notin> set RETRY_QUEUE_TYPES
      then Inl (config_validation_error ''dlq_queue_type'')
      else if rc_error_detail c \<notin> {''sanitized'', ''omit'', ''raw''}
      then Inl (config_validation_error ''error_detail'')
      else if rc_jitter_mode c \<notin> {''off'', ''sharded''} then Inl (config_validation_error ''jitter_mode'')
      else if rc_jitter_mode c = ''sharded'' \<and> rc_jitter_shards c < 2
      then Inl (config_validation_error ''jitter_shards'')
      else if rc_jitter_mode c = ''sharded'' \<and> \<not> (0 < rc_jitter_factor c \<and> rc_jitter_factor c < 1)
      then Inl (config_validation_error ''jitter_factor'')
      else if \<not> rc_per_queue c then Inl (config_validation_error ''per_queue'')
      else if int (length (rc_delays c)) < rc_max_retries c \<and> rc_strict_delays c
      then Inl (config_validation_error ''delays'')
      else Inr c)"

text \<open>Python's \<^verbatim>\<open>round\<close> to an integer: ties go to the even neighbour.\<close>

definition py_round :: "real \<Rightarrow> int" where
  "py_round r =
     (let f = \<lfloor>r\<rfloor>; d = r - of_int f
      in if d < 1 / 2 then f else if d > 1 / 2 then f + 1 else if even f then f else f + 1)"

fun exponential_delays :: "nat \<Rightarrow> real \<Rightarrow> real \<Rightarrow> real \<Rightarrow> int list" where
  "exponential_delays 0 current multiplier max_delay = []"
| "exponential_delays (Suc n) current multiplier max_delay =
     max 1 (py_round (min max_delay current))
       # exponential_delays n (min max_delay (current * multiplier)) multiplier max_delay"

text \<open>\<^verbatim>\<open>RetryConfig.exponential\<close>; \<open>base\<close> carries the fields passed through as keyword arguments.\<close>

definition exponential :: "retry_config \<Rightarrow> int \<Rightarrow> real \<Rightarrow> real \<Rightarrow> real \<Rightarrow> py_exc + retry_config" where
  "exponential base max_retries initial_delay multiplier max_delay =
     (if initial_delay \<le> 0 then Inl (config_validation_error ''initial_delay'')
      else if multiplier < 1 then Inl (config_validation_error ''multiplier'')
      else if max_delay < initial_delay then Inl (config_validation_error ''max_delay'')
      else retry_config_init (base\<lparr>rc_max_retries := max_retries,
             rc_delays := exponential_delays (nat max_retries) initial_delay multiplier max_delay\<rparr>))"

section \<open>The handoff tracker\<close>

definition capped_exponential :: "real \<Rightarrow> real \<Rightarrow> int \<Rightarrow> real" where
  "capped_exponential initial maximum failures =
     (if failures \<le> 1 then min maximum initial
      else min maximum (initial * 2 ^ nat (min (failures - 1) 1000)))"

record handoff_tracker =
  ht_config :: handoff_config
  ht_consecutive :: int
  ht_total :: int
  ht_first_failure_at :: "real option"
  ht_last_failure_at :: "real option"
  ht_last_backoff :: real

definition tracker_init :: "handoff_config \<Rightarrow> handoff_tracker" where
  "tracker_init c = \<lparr>ht_config = c, ht_consecutive = 0, ht_total = 0, ht_first_failure_at = None,
     ht_last_failure_at = None, ht_last_backoff = 0\<rparr>"

definition tracker_state :: "real \<Rightarrow> handoff_tracker \<Rightarrow> handoff_state" where
  "tracker_state clock t =
     (if ht_consecutive t = 0 then HS_HEALTHY
      else if ht_consecutive t \<ge> hc_max_consecutive_failures (ht_config t) then HS_EXHAUSTED
      else if (case ht_first_failure_at t of None \<Rightarrow> False
               | Some f \<Rightarrow> clock - f \<ge> hc_recovery_deadline (ht_config t)) then HS_EXHAUSTED
      else HS_DEGRADED)"

definition is_paused :: "real \<Rightarrow> handoff_tracker \<Rightarrow> bool" where
  "is_paused clock t \<longleftrightarrow> tracker_state clock t \<noteq> HS_HEALTHY"

text \<open>\<open>now\<close> and \<open>rng\<close> are the readings of the clock and of the random source.\<close>

definition record_failure :: "real \<Rightarrow> real \<Rightarrow> handoff_tracker \<Rightarrow> real \<times> handoff_tracker" where
  "record_failure now rng t =
     (let n = ht_consecutive t + 1; cfg = ht_config t;
          base0 = capped_exponential (hc_backoff_initial cfg) (hc_backoff_max cfg) n;
          spread = base0 * hc_jitter cfg;
          base = (if hc_jitter cfg > 0 then base0 - spread + 2 * spread * rng else base0);
          backoff = max 0 (min (hc_backoff_max cfg) base)
      in (backoff, t\<lparr>ht_consecutive := n, ht_total := ht_total t + 1,
            ht_first_failure_at := (case ht_first_failure_at t of None \<Rightarrow> Some now | Some f \<Rightarrow> Some f),
            ht_last_failure_at := Some now, ht_last_backoff := backoff\<rparr>))"

definition record_success :: "handoff_tracker \<Rightarrow> handoff_tracker" where
  "record_success t = t\<lparr>ht_consecutive := 0, ht_first_failure_at := None, ht_last_failure_at := None,
     ht_last_backoff := 0\<rparr>"

definition tracker_reset :: "handoff_tracker \<Rightarrow> handoff_tracker" where
  "tracker_reset t = t\<lparr>ht_consecutive := 0, ht_total := 0, ht_first_failure_at := None,
     ht_last_failure_at := None, ht_last_backoff := 0\<rparr>"

section \<open>Lemmas\<close>

lemma handoff_config_ok:
  "handoff_config_init c = Inr c' \<longleftrightarrow> c' = c \<and> 0 < hc_backoff_initial c
     \<and> hc_backoff_initial c \<le> hc_backoff_max c \<and> 0 \<le> hc_jitter c \<and> hc_jitter c < 1
     \<and> 1 \<le> hc_max_consecutive_failures c \<and> 0 < hc_recovery_deadline c"
  by (auto simp: handoff_config_init_def)

lemma retry_config_ok:
  assumes "retry_config_init c = Inr c'"
  shows "c' = c" "0 \<le> rc_max_retries c" "\<forall>d \<in> set (rc_delays c). 0 \<le> d"
    "rc_jitter_mode c \<in> {''off'', ''sharded''}" "rc_jitter_mode c = ''sharded'' \<Longrightarrow> 2 \<le> rc_jitter_shards c"
    "rc_strict_delays c \<Longrightarrow> rc_max_retries c \<le> int (length (rc_delays c))"
  using assms by (auto simp: retry_config_init_def list_ex_iff not_less split: if_splits)

lemma py_round_mono: "r \<le> s \<Longrightarrow> py_round r \<le> py_round s"
proof -
  assume le: "r \<le> s"
  then have fl: "\<lfloor>r\<rfloor> \<le> \<lfloor>s\<rfloor>" by (rule floor_mono)
  have near: "py_round x \<in> {\<lfloor>x\<rfloor>, \<lfloor>x\<rfloor> + 1}" for x by (simp add: py_round_def Let_def)
  show ?thesis
  proof (cases "\<lfloor>r\<rfloor> = \<lfloor>s\<rfloor>")
    case True
    with le show ?thesis by (simp add: py_round_def Let_def)
  next
    case False
    with fl near [of r] near [of s] show ?thesis by auto
  qed
qed

lemma capped_exponential_bounds:
  "0 < initial \<Longrightarrow> initial \<le> maximum \<Longrightarrow>
     initial \<le> capped_exponential initial maximum n \<and> capped_exponential initial maximum n \<le> maximum"
  by (auto simp: capped_exponential_def min_def)

lemma capped_exponential_closed:
  assumes "0 < initial" "initial \<le> maximum" "maximum \<le> initial * 2 ^ 1000" "1 \<le> n"
  shows "capped_exponential initial maximum n = min maximum (initial * 2 ^ nat (n - 1))"
proof (cases "n - 1 \<le> 1000")
  case True
  with assms show ?thesis by (auto simp: capped_exponential_def min_def)
next
  case False
  then have "(2 :: real) ^ 1000 \<le> 2 ^ nat (n - 1)" by (intro power_increasing) simp_all
  then have "maximum \<le> initial * 2 ^ nat (n - 1)"
    using assms(1,3) by (meson mult_le_cancel_left_pos order_trans)
  with False assms show ?thesis by (simp add: capped_exponential_def)
qed

lemma exponential_delays_nth:
  assumes "1 \<le> mult" "0 < current" "0 < maximum" "k < n"
  shows "exponential_delays n current mult maximum ! k
         = max 1 (py_round (min maximum (current * mult ^ k)))"
  using assms
proof (induction n arbitrary: current k)
  case (Suc n)
  show ?case
  proof (cases k)
    case (Suc j)
    have "min maximum (min maximum (current * mult) * mult ^ j) = min maximum (current * mult * mult ^ j)"
    proof (cases "maximum \<le> current * mult")
      case True
      have "1 \<le> mult ^ j" using Suc.prems(1) by (rule one_le_power)
      then have "maximum \<le> maximum * mult ^ j" "maximum \<le> current * mult * mult ^ j"
        using True Suc.prems(1-3) mult_mono [OF True, of 1 "mult ^ j"] by simp_all
      with True show ?thesis by simp
    qed (simp add: min_def)
    moreover have "0 < min maximum (current * mult)" using Suc.prems(1-3) by simp
    ultimately show ?thesis
      using Suc.IH [of "min maximum (current * mult)" j] Suc.prems Suc by (simp add: mult.assoc)
  qed simp
qed simp

lemma length_exponential_delays [simp]: "length (exponential_delays n c m M) = n"
  by (induction n arbitrary: c) simp_all

text \<open>A streak of failed hand-offs: the clock and the random source read at each of them.\<close>

definition failure_streak :: "(real \<times> real) list \<Rightarrow> handoff_tracker \<Rightarrow> handoff_tracker" where
  "failure_streak rs t = fold (\<lambda>(now, rng) t. snd (record_failure now rng t)) rs t"

lemma record_failure_simps [simp]:
  "ht_config (snd (record_failure now rng t)) = ht_config t"
  "ht_consecutive (snd (record_failure now rng t)) = ht_consecutive t + 1"
  "ht_last_backoff (snd (record_failure now rng t)) = fst (record_failure now rng t)"
  by (simp_all add: record_failure_def Let_def)

lemma failure_streak_simps [simp]:
  "ht_config (failure_streak rs t) = ht_config t"
  "ht_consecutive (failure_streak rs t) = ht_consecutive t + int (length rs)"
  by (induction rs arbitrary: t) (auto simp: failure_streak_def)

lemma jittered_bounds:
  fixes base j rng :: real
  assumes "0 < base" "0 \<le> j" "j < 1" "0 \<le> rng" "rng < 1"
  shows "base * (1 - j) \<le> base - base * j + 2 * (base * j) * rng"
    "base - base * j + 2 * (base * j) * rng \<le> base * (1 + j)"
proof -
  have "0 \<le> base * j" using assms by simp
  then have "0 \<le> base * j * rng" "base * j * rng \<le> base * j * 1"
    using assms mult_left_mono [of rng 1 "base * j"] by simp_all
  then show "base * (1 - j) \<le> base - base * j + 2 * (base * j) * rng"
    "base - base * j + 2 * (base * j) * rng \<le> base * (1 + j)"
    by (simp_all add: algebra_simps)
qed

section \<open>Properties\<close>

text \<open>C35: the delays that \<^verbatim>\<open>RetryConfig.exponential\<close> computes incrementally are the closed form its
  documentation gives: one whole-second delay per retry, the \<open>k\<close>-th being
  \<^verbatim>\<open>min(max_delay, initial_delay * multiplier ** k)\<close> rounded and at least 1, and they never
  decrease.\<close>

theorem exponential_delays_closed_form:
  assumes "exponential base max_retries initial_delay multiplier max_delay = Inr c"
  shows "length (rc_delays c) = nat (rc_max_retries c) \<and> rc_max_retries c = max_retries
    \<and> (\<forall>k < length (rc_delays c).
          rc_delays c ! k = max 1 (py_round (min max_delay (initial_delay * multiplier ^ k))))
    \<and> sorted (rc_delays c)"
proof -
  from assms have pos: "0 < initial_delay" "1 \<le> multiplier" "initial_delay \<le> max_delay"
    and c: "c = base\<lparr>rc_max_retries := max_retries,
             rc_delays := exponential_delays (nat max_retries) initial_delay multiplier max_delay\<rparr>"
    by (auto simp: exponential_def not_le not_less split: if_splits dest!: retry_config_ok(1))
  have nth: "\<forall>k < nat max_retries. rc_delays c ! k
               = max 1 (py_round (min max_delay (initial_delay * multiplier ^ k)))"
    using pos by (simp add: c exponential_delays_nth)
  have "sorted (rc_delays c)"
    unfolding sorted_iff_nth_mono
  proof (intro allI impI)
    fix i j assume ij: "i \<le> j" "j < length (rc_delays c)"
    have "initial_delay * multiplier ^ i \<le> initial_delay * multiplier ^ j"
      using pos ij(1) by (simp add: power_increasing)
    then have "py_round (min max_delay (initial_delay * multiplier ^ i))
               \<le> py_round (min max_delay (initial_delay * multiplier ^ j))"
      by (intro py_round_mono) (simp add: min_def)
    with nth ij show "rc_delays c ! i \<le> rc_delays c ! j" by (simp add: c)
  qed
  with nth show ?thesis by (simp add: c)
qed


definition example_handoff :: handoff_config where
  "example_handoff = \<lparr>hc_backoff_initial = 1 / 2, hc_backoff_max = 30, hc_jitter = 1 / 5,
     hc_max_consecutive_failures = 20, hc_recovery_deadline = 300\<rparr>"

definition example_retry :: retry_config where
  "example_retry = \<lparr>rc_max_retries = 4, rc_delays = [5, 30, 120, 600],
     rc_retry_header = ''x-rabbitkit-retry-count'', rc_jitter_factor = 1 / 10, rc_jitter_mode = ''off'',
     rc_jitter_shards = 3, rc_dead_letter_exchange = '''', rc_per_queue = True,
     rc_unknown_policy = SV_PERMANENT, rc_strict_delays = True, rc_delay_queue_type = ''classic'',
     rc_dlq_queue_type = ''inherit'', rc_error_detail = ''sanitized'', rc_handoff = example_handoff,
     rc_max_retry_age = None, rc_terminal_action = TA_DEAD_LETTER, rc_quorum_initial_group_size = None,
     rc_delay_queue_dead_letter_strategy = None, rc_trust_retry_header = True\<rparr>"


theorem exponential_delays_closed_form_witness:
  "\<exists>c. exponential example_retry 3 5 2 15 = Inr c \<and> rc_delays c ! 2 = max 1 (py_round (min 15 20))"
proof -
  obtain c where c: "exponential example_retry 3 5 2 15 = Inr c" and n: "rc_max_retries c = 3"
    by (simp add: exponential_def retry_config_init_def example_retry_def RETRY_QUEUE_TYPES_def
        eval_nat_numeral)
  from exponential_delays_closed_form [OF c] n have "rc_delays c ! 2 = max 1 (py_round (min 15 20))"
    by simp
  with c show ?thesis by blast
qed

end
