(* ===== verification/Rk_Message.thy ===== *)
theory Rk_Message
  imports Rk_Types
begin

text \<open>
  \<^verbatim>\<open>RabbitMessage\<close> (\<^verbatim>\<open>core/message.py\<close>): its properties, its transport-injected settlement
  functions and the idempotent settlement operations.

  The type variable \<open>'w\<close> is the world outside the message (the broker channel, Redis, the
  metrics): a settlement function maps a world to a result and the world after the call, so
  the middleware that wraps such functions is modelled by ordinary composition.  The opaque
  \<^verbatim>\<open>raw_message\<close> attribute is left out.
\<close>

datatype disposition = DP_PENDING | DP_ACKED | DP_NACKED | DP_REJECTED

type_synonym 'w settle_fn = "'w \<Rightarrow> (py_exc + unit) \<times> 'w"

record 'w msg =
  m_body :: string
  m_headers :: headers
  m_message_id :: "string option"
  m_correlation_id :: "string option"
  m_reply_to :: "string option"
  m_content_type :: "string option"
  m_content_encoding :: "string option"
  m_timestamp :: "real option"
  m_type :: "string option"
  m_app_id :: "string option"
  m_priority :: "int option"
  m_expiration :: "string option"
  m_user_id :: "string option"
  m_delivery_mode :: "int option"
  m_routing_key :: string
  m_exchange :: string
  m_delivery_tag :: "int option"
  m_redelivered :: bool
  m_consumer_tag :: "string option"
  m_path :: "(string, string) dict"
  m_wire_body :: string
  m_wire_content_encoding :: "string option"
  m_ack_fn :: "'w settle_fn option"
  m_ack_async_fn :: "'w settle_fn option"
  m_nack_fn :: "(bool \<Rightarrow> 'w settle_fn) option"
  m_nack_async_fn :: "(bool \<Rightarrow> 'w settle_fn) option"
  m_reject_fn :: "(bool \<Rightarrow> 'w settle_fn) option"
  m_reject_async_fn :: "(bool \<Rightarrow> 'w settle_fn) option"
  m_disposition :: disposition
  m_settle_unknown :: bool
  m_metric_once :: "unit list option"
  m_channel_alive :: "('w \<Rightarrow> py_exc + bool) option"

text \<open>
  \<^verbatim>\<open>RabbitMessage.__init__\<close>: the fields the constructor derives or resets, on top of the
  keyword arguments (the other fields of \<open>args\<close>).
\<close>

definition msg_init :: "'w msg \<Rightarrow> 'w msg" where
  "msg_init args = args\<lparr>
     m_wire_body := m_body args,
     m_wire_content_encoding := m_content_encoding args,
     m_ack_fn := None, m_ack_async_fn := None,
     m_nack_fn := None, m_nack_async_fn := None,
     m_reject_fn := None, m_reject_async_fn := None,
     m_disposition := DP_PENDING,
     m_settle_unknown := False,
     m_metric_once := None,
     m_channel_alive := None\<rparr>"

definition stream_offset :: "'w msg \<Rightarrow> int option" where
  "stream_offset m =
     (case dict_get (m_headers m) ''x-stream-offset'' of
        Some (PyInt n) \<Rightarrow> Some n
      | _ \<Rightarrow> None)"

definition is_settled :: "'w msg \<Rightarrow> bool" where
  "is_settled m \<longleftrightarrow> m_disposition m \<noteq> DP_PENDING"

text \<open>A probe that raises an \<^verbatim>\<open>Exception\<close> counts as a dead channel.\<close>

definition channel_alive :: "'w msg \<Rightarrow> 'w \<Rightarrow> bool option" where
  "channel_alive m w =
     (case m_channel_alive m of
        None \<Rightarrow> None
      | Some probe \<Rightarrow> (case probe w of Inl _ \<Rightarrow> Some False | Inr b \<Rightarrow> Some b))"

definition settlement_error :: "string \<Rightarrow> py_exc" where
  "settlement_error s =
     mk_exc [''SettlementError'', ''RuntimeError'', ''Exception'', ''BaseException''] s"

section \<open>Synchronous settlement\<close>

text \<open>The body that \<^verbatim>\<open>ack\<close>, \<^verbatim>\<open>nack\<close> and \<^verbatim>\<open>reject\<close> share: the disposition is recorded only after the
  transport call has returned.\<close>

definition settle_sync ::
    "disposition \<Rightarrow> 'w settle_fn option \<Rightarrow> string \<Rightarrow> ('w msg \<times> 'w, py_exc, unit) act" where
  "settle_sync d fn verb = (\<lambda>(m, w).
     if m_disposition m \<noteq> DP_PENDING then (Inr (), (m, w))
     else case fn of
       None \<Rightarrow> (Inl (settlement_error verb), (m, w))
     | Some f \<Rightarrow>
        (case f w of
           (Inl e, w') \<Rightarrow> (Inl e, (m, w'))
         | (Inr _, w') \<Rightarrow> (Inr (), (m\<lparr>m_disposition := d\<rparr>, w'))))"

definition msg_ack :: "('w msg \<times> 'w, py_exc, unit) act" where
  "msg_ack mw = settle_sync DP_ACKED (m_ack_fn (fst mw)) ''ack'' mw"

definition msg_nack :: "bool \<Rightarrow> ('w msg \<times> 'w, py_exc, unit) act" where
  "msg_nack requeue mw =
     settle_sync DP_NACKED (map_option (\<lambda>f. f requeue) (m_nack_fn (fst mw))) ''nack'' mw"

definition msg_reject :: "bool \<Rightarrow> ('w msg \<times> 'w, py_exc, unit) act" where
  "msg_reject requeue mw =
     settle_sync DP_REJECTED (map_option (\<lambda>f. f requeue) (m_reject_fn (fst mw))) ''reject'' mw"

section \<open>Asynchronous settlement\<close>

text \<open>
  \<^verbatim>\<open>_settle_async\<close> in its two halves.  \<open>settle_claim\<close> is everything before the first \<^verbatim>\<open>await\<close>
  and so runs without interruption; it returns the transport call to make, if any.
\<close>

definition settle_claim ::
    "disposition \<Rightarrow> 'w settle_fn option \<Rightarrow> 'w settle_fn option \<Rightarrow> string \<Rightarrow> 'w msg
       \<Rightarrow> (py_exc + 'w settle_fn option) \<times> 'w msg" where
  "settle_claim d async_fn sync_fn verb m =
     (if m_disposition m \<noteq> DP_PENDING then (Inr None, m)
      else if async_fn = None \<and> sync_fn = None then (Inl (settlement_error verb), m)
      else (Inr (Some (case async_fn of Some f \<Rightarrow> f | None \<Rightarrow> the sync_fn)),
            m\<lparr>m_disposition := d\<rparr>))"

definition settle_async ::
    "disposition \<Rightarrow> 'w settle_fn option \<Rightarrow> 'w settle_fn option \<Rightarrow> string
       \<Rightarrow> ('w msg \<times> 'w, py_exc, unit) act" where
  "settle_async d async_fn sync_fn verb = (\<lambda>(m, w).
     case settle_claim d async_fn sync_fn verb m of
       (Inl e, m') \<Rightarrow> (Inl e, (m', w))
     | (Inr None, m') \<Rightarrow> (Inr (), (m', w))
     | (Inr (Some f), m') \<Rightarrow>
        (case f w of
           (Inl e, w') \<Rightarrow> (Inl e, (m'\<lparr>m_settle_unknown := True\<rparr>, w'))
         | (Inr _, w') \<Rightarrow> (Inr (), (m', w'))))"

definition msg_ack_async :: "('w msg \<times> 'w, py_exc, unit) act" where
  "msg_ack_async mw =
     settle_async DP_ACKED (m_ack_async_fn (fst mw)) (m_ack_fn (fst mw)) ''ack'' mw"

definition msg_nack_async :: "bool \<Rightarrow> ('w msg \<times> 'w, py_exc, unit) act" where
  "msg_nack_async requeue mw =
     settle_async DP_NACKED (map_option (\<lambda>f. f requeue) (m_nack_async_fn (fst mw)))
       (map_option (\<lambda>f. f requeue) (m_nack_fn (fst mw))) ''nack'' mw"

definition msg_reject_async :: "bool \<Rightarrow> ('w msg \<times> 'w, py_exc, unit) act" where
  "msg_reject_async requeue mw =
     settle_async DP_REJECTED (map_option (\<lambda>f. f requeue) (m_reject_async_fn (fst mw)))
       (map_option (\<lambda>f. f requeue) (m_reject_fn (fst mw))) ''reject'' mw"

section \<open>Sequences of settlement calls\<close>

datatype settle_op = Op_ack | Op_nack bool | Op_reject bool

fun op_disposition :: "settle_op \<Rightarrow> disposition" where
  "op_disposition Op_ack = DP_ACKED"
| "op_disposition (Op_nack r) = DP_NACKED"
| "op_disposition (Op_reject r) = DP_REJECTED"

fun sync_op :: "settle_op \<Rightarrow> ('w msg \<times> 'w, py_exc, unit) act" where
  "sync_op Op_ack = msg_ack"
| "sync_op (Op_nack r) = msg_nack r"
| "sync_op (Op_reject r) = msg_reject r"

fun async_op :: "settle_op \<Rightarrow> ('w msg \<times> 'w, py_exc, unit) act" where
  "async_op Op_ack = msg_ack_async"
| "async_op (Op_nack r) = msg_nack_async r"
| "async_op (Op_reject r) = msg_reject_async r"

primrec run_ops ::
    "(settle_op \<Rightarrow> ('w msg \<times> 'w, py_exc, unit) act) \<Rightarrow> settle_op list \<Rightarrow> 'w msg \<times> 'w \<Rightarrow> 'w msg \<times> 'w" where
  "run_ops settle [] s = s"
| "run_ops settle (x # xs) s = run_ops settle xs (snd (settle x s))"

text \<open>\<open>fns_of m\<close> are the transport calls a settlement of \<open>m\<close> can make.\<close>

definition sync_fns :: "'w msg \<Rightarrow> 'w settle_fn set" where
  "sync_fns m = set_option (m_ack_fn m) \<union> (\<Union>f \<in> set_option (m_nack_fn m). range f)
     \<union> (\<Union>f \<in> set_option (m_reject_fn m). range f)"

definition all_fns :: "'w msg \<Rightarrow> 'w settle_fn set" where
  "all_fns m = sync_fns m \<union> set_option (m_ack_async_fn m)
     \<union> (\<Union>f \<in> set_option (m_nack_async_fn m). range f)
     \<union> (\<Union>f \<in> set_option (m_reject_async_fn m). range f)"

text \<open>\<open>cnt\<close> counts the transport calls that returned, respectively all transport calls made.\<close>

definition counts_returned :: "('w \<Rightarrow> nat) \<Rightarrow> 'w msg \<Rightarrow> bool" where
  "counts_returned cnt m \<longleftrightarrow>
     (\<forall>f \<in> sync_fns m. \<forall>w. cnt (snd (f w)) = cnt w + (case fst (f w) of Inl _ \<Rightarrow> 0 | Inr _ \<Rightarrow> 1))"

definition counts_calls :: "('w \<Rightarrow> nat) \<Rightarrow> 'w msg \<Rightarrow> bool" where
  "counts_calls cnt m \<longleftrightarrow> (\<forall>f \<in> all_fns m. \<forall>w. cnt (snd (f w)) = cnt w + 1)"

text \<open>
  What a client of a message's settlement relies on: a settled message stays as it is, and a
  call on a pending message either leaves it pending and counts nothing or settles it and
  counts one.
\<close>

locale settler =
  fixes settle :: "settle_op \<Rightarrow> ('w msg \<times> 'w, py_exc, unit) act"
    and counted :: "('w \<Rightarrow> nat) \<Rightarrow> 'w msg \<Rightarrow> bool"
  assumes settled_noop: "m_disposition m \<noteq> DP_PENDING \<Longrightarrow> settle x (m, w) = (Inr (), (m, w))"
    and keeps_counted: "counted cnt m \<Longrightarrow> counted cnt (fst (snd (settle x (m, w))))"
    and settles: "counted cnt m \<Longrightarrow> m_disposition m = DP_PENDING \<Longrightarrow>
      settle x (m, w) = (r, (m', w')) \<Longrightarrow>
      (m_disposition m' = DP_PENDING \<and> cnt w' = cnt w)
      \<or> (m_disposition m' = op_disposition x \<and> cnt w' = cnt w + 1)"
begin

lemma run_settled:
  "m_disposition m \<noteq> DP_PENDING \<Longrightarrow> run_ops settle xs (m, w) = (m, w)"
  by (induction xs) (simp_all add: settled_noop)

lemma run_counts:
  assumes "counted cnt m" and "m_disposition m = DP_PENDING"
    and "run_ops settle xs (m, w) = (m', w')"
  shows "(m_disposition m' = DP_PENDING \<and> cnt w' = cnt w)
    \<or> (m_disposition m' \<in> op_disposition ` set xs \<and> cnt w' = cnt w + 1)"
  using assms
proof (induction xs arbitrary: m w)
  case (Cons x xs)
  obtain r m1 w1 where step: "settle x (m, w) = (r, (m1, w1))" by (metis prod_cases3)
  have cnt1: "counted cnt m1"
    using keeps_counted [OF Cons.prems(1), of x w] step by simp
  have rest: "run_ops settle xs (m1, w1) = (m', w')"
    using Cons.prems(3) step by simp
  from settles [OF Cons.prems(1,2) step] show ?case
  proof
    assume "m_disposition m1 = DP_PENDING \<and> cnt w1 = cnt w"
    with Cons.IH [OF cnt1 _ rest] show ?thesis by auto
  next
    assume fin: "m_disposition m1 = op_disposition x \<and> cnt w1 = cnt w + 1"
    then have "m_disposition m1 \<noteq> DP_PENDING" by (cases x) auto
    with run_settled [of m1 xs w1] rest fin show ?thesis by auto
  qed
qed simp

end

lemma counts_returned_upd [simp]:
  "counts_returned cnt (m\<lparr>m_disposition := d\<rparr>) = counts_returned cnt m"
  by (simp add: counts_returned_def sync_fns_def)

lemma counts_calls_upd [simp]:
  "counts_calls cnt (m\<lparr>m_disposition := d\<rparr>) = counts_calls cnt m"
  "counts_calls cnt (m\<lparr>m_settle_unknown := b\<rparr>) = counts_calls cnt m"
  by (simp_all add: counts_calls_def all_fns_def sync_fns_def)

text \<open>One call on a pending message, by the outcome of the transport call.\<close>

lemma settle_sync_pending:
  assumes "m_disposition m = DP_PENDING"
  shows "settle_sync d fn verb (m, w) =
    (case fn of None \<Rightarrow> (Inl (settlement_error verb), (m, w))
     | Some f \<Rightarrow> (fst (f w),
         (if isl (fst (f w)) then m else m\<lparr>m_disposition := d\<rparr>, snd (f w))))"
  using assms by (auto simp: settle_sync_def split: option.split prod.split sum.split)

lemma settle_sync_settled:
  "m_disposition m \<noteq> DP_PENDING \<Longrightarrow> settle_sync d fn verb (m, w) = (Inr (), (m, w))"
  by (simp add: settle_sync_def)

lemma settle_async_pending:
  assumes "m_disposition m = DP_PENDING"
  shows "settle_async d af sf verb (m, w) =
    (case (case af of None \<Rightarrow> sf | Some f \<Rightarrow> Some f) of
       None \<Rightarrow> (Inl (settlement_error verb), (m, w))
     | Some f \<Rightarrow> (fst (f w),
         (if isl (fst (f w)) then m\<lparr>m_disposition := d, m_settle_unknown := True\<rparr>
          else m\<lparr>m_disposition := d\<rparr>, snd (f w))))"
  using assms
  by (cases af; cases sf) (auto simp: settle_async_def settle_claim_def split: prod.split sum.split)

lemma settle_async_settled:
  "m_disposition m \<noteq> DP_PENDING \<Longrightarrow> settle_async d af sf verb (m, w) = (Inr (), (m, w))"
  by (simp add: settle_async_def settle_claim_def)

fun op_sync_fn :: "settle_op \<Rightarrow> 'w msg \<Rightarrow> 'w settle_fn option" where
  "op_sync_fn Op_ack m = m_ack_fn m"
| "op_sync_fn (Op_nack r) m = map_option (\<lambda>f. f r) (m_nack_fn m)"
| "op_sync_fn (Op_reject r) m = map_option (\<lambda>f. f r) (m_reject_fn m)"

fun op_async_fn :: "settle_op \<Rightarrow> 'w msg \<Rightarrow> 'w settle_fn option" where
  "op_async_fn Op_ack m = m_ack_async_fn m"
| "op_async_fn (Op_nack r) m = map_option (\<lambda>f. f r) (m_nack_async_fn m)"
| "op_async_fn (Op_reject r) m = map_option (\<lambda>f. f r) (m_reject_async_fn m)"

fun op_verb :: "settle_op \<Rightarrow> string" where
  "op_verb Op_ack = ''ack''"
| "op_verb (Op_nack r) = ''nack''"
| "op_verb (Op_reject r) = ''reject''"

lemma sync_op_settle:
  "sync_op x (m, w) = settle_sync (op_disposition x) (op_sync_fn x m) (op_verb x) (m, w)"
  by (cases x) (simp_all add: msg_ack_def msg_nack_def msg_reject_def)

lemma async_op_settle:
  "async_op x (m, w)
     = settle_async (op_disposition x) (op_async_fn x m) (op_sync_fn x m) (op_verb x) (m, w)"
  by (cases x) (simp_all add: msg_ack_async_def msg_nack_async_def msg_reject_async_def)

lemma op_sync_fn_in: "op_sync_fn x m = Some f \<Longrightarrow> f \<in> sync_fns m"
  by (cases x) (auto simp: sync_fns_def)

lemma op_async_fn_in: "op_async_fn x m = Some f \<Longrightarrow> f \<in> all_fns m"
  by (cases x) (auto simp: all_fns_def)

lemma op_disposition_pending [simp]: "op_disposition x \<noteq> DP_PENDING"
  by (cases x) auto

definition op_chosen_fn :: "settle_op \<Rightarrow> 'w msg \<Rightarrow> 'w settle_fn option" where
  "op_chosen_fn x m = (case op_async_fn x m of None \<Rightarrow> op_sync_fn x m | Some f \<Rightarrow> Some f)"

lemma op_chosen_fn_in: "op_chosen_fn x m = Some f \<Longrightarrow> f \<in> all_fns m"
  using op_async_fn_in [of x m f] op_sync_fn_in [of x m f]
  by (auto simp: op_chosen_fn_def all_fns_def split: option.splits)

interpretation sync_settler: settler sync_op counts_returned
proof
  fix m :: "'w msg" and x w
  assume "m_disposition m \<noteq> DP_PENDING"
  then show "sync_op x (m, w) = (Inr (), (m, w))"
    by (simp add: sync_op_settle settle_sync_settled)
next
  fix cnt :: "'w \<Rightarrow> nat" and m x w
  assume "counts_returned cnt m"
  then show "counts_returned cnt (fst (snd (sync_op x (m, w))))"
    by (cases "m_disposition m = DP_PENDING")
       (simp_all add: sync_op_settle settle_sync_settled settle_sync_pending split: option.split)
next
  fix cnt :: "'w \<Rightarrow> nat" and m x w r m' w'
  assume cnt: "counts_returned cnt m" and pend: "m_disposition m = DP_PENDING"
    and step: "sync_op x (m, w) = (r, (m', w'))"
  show "(m_disposition m' = DP_PENDING \<and> cnt w' = cnt w)
      \<or> (m_disposition m' = op_disposition x \<and> cnt w' = cnt w + 1)"
  proof (cases "op_sync_fn x m")
    case None
    with step pend show ?thesis by (auto simp: sync_op_settle settle_sync_pending)
  next
    case (Some f)
    then have "cnt (snd (f w)) = cnt w + (case fst (f w) of Inl _ \<Rightarrow> 0 | Inr _ \<Rightarrow> 1)"
      using cnt op_sync_fn_in [OF Some] by (simp add: counts_returned_def)
    with step pend Some show ?thesis
      by (auto simp: sync_op_settle settle_sync_pending split: sum.splits if_splits)
  qed
qed

interpretation async_settler: settler async_op counts_calls
proof
  fix m :: "'w msg" and x w
  assume "m_disposition m \<noteq> DP_PENDING"
  then show "async_op x (m, w) = (Inr (), (m, w))"
    by (simp add: async_op_settle settle_async_settled)
next
  fix cnt :: "'w \<Rightarrow> nat" and m x w
  assume "counts_calls cnt m"
  then show "counts_calls cnt (fst (snd (async_op x (m, w))))"
    by (cases "m_disposition m = DP_PENDING")
       (simp_all add: async_op_settle settle_async_settled settle_async_pending split: option.split)
next
  fix cnt :: "'w \<Rightarrow> nat" and m x w r m' w'
  assume cnt: "counts_calls cnt m" and pend: "m_disposition m = DP_PENDING"
    and step: "async_op x (m, w) = (r, (m', w'))"
  show "(m_disposition m' = DP_PENDING \<and> cnt w' = cnt w)
      \<or> (m_disposition m' = op_disposition x \<and> cnt w' = cnt w + 1)"
  proof (cases "op_chosen_fn x m")
    case None
    with step pend show ?thesis
      by (auto simp: async_op_settle settle_async_pending op_chosen_fn_def [symmetric])
  next
    case (Some f)
    then have "cnt (snd (f w)) = cnt w + 1"
      using cnt op_chosen_fn_in [OF Some] by (simp add: counts_calls_def)
    with step pend Some show ?thesis
      by (auto simp: async_op_settle settle_async_pending op_chosen_fn_def [symmetric] split: if_splits)
  qed
qed

section \<open>Concurrent coroutines on one message\<close>

text \<open>
  Several coroutines may settle one message (a handler's ack against \<^verbatim>\<open>stop()\<close> nacking it).
  A coroutine runs without interruption until its \<^verbatim>\<open>await\<close>: it claims, and the transport call
  finishes later, in any order relative to the other coroutines.  \<open>frames\<close> records the
  transport calls that were started.
\<close>

datatype coroutine = CO_ready settle_op | CO_sending settle_op | CO_done

record 'w loop =
  lp_msg :: "'w msg"
  lp_tasks :: "coroutine list"
  lp_frames :: "settle_op list"

inductive loop_step :: "'w loop \<Rightarrow> 'w loop \<Rightarrow> bool" where
  spawn: "loop_step s (s\<lparr>lp_tasks := lp_tasks s @ [CO_ready x]\<rparr>)"
| claim_none:
    "i < length (lp_tasks s) \<Longrightarrow> lp_tasks s ! i = CO_ready x \<Longrightarrow>
     settle_claim (op_disposition x) (op_async_fn x (lp_msg s)) (op_sync_fn x (lp_msg s)) (op_verb x)
       (lp_msg s) = (res, m') \<Longrightarrow>
     (\<forall>f. res \<noteq> Inr (Some f)) \<Longrightarrow>
     loop_step s (s\<lparr>lp_msg := m', lp_tasks := (lp_tasks s)[i := CO_done]\<rparr>)"
| claim_send:
    "i < length (lp_tasks s) \<Longrightarrow> lp_tasks s ! i = CO_ready x \<Longrightarrow>
     settle_claim (op_disposition x) (op_async_fn x (lp_msg s)) (op_sync_fn x (lp_msg s)) (op_verb x)
       (lp_msg s) = (Inr (Some f), m') \<Longrightarrow>
     loop_step s (s\<lparr>lp_msg := m', lp_tasks := (lp_tasks s)[i := CO_sending x],
                     lp_frames := lp_frames s @ [x]\<rparr>)"
| sent: "i < length (lp_tasks s) \<Longrightarrow> lp_tasks s ! i = CO_sending x \<Longrightarrow>
     loop_step s (s\<lparr>lp_tasks := (lp_tasks s)[i := CO_done]\<rparr>)"
| send_failed: "i < length (lp_tasks s) \<Longrightarrow> lp_tasks s ! i = CO_sending x \<Longrightarrow>
     loop_step s (s\<lparr>lp_msg := (lp_msg s)\<lparr>m_settle_unknown := True\<rparr>,
                     lp_tasks := (lp_tasks s)[i := CO_done]\<rparr>)"

definition loop_ok :: "'w loop \<Rightarrow> bool" where
  "loop_ok s \<longleftrightarrow>
     (case lp_frames s of
        [] \<Rightarrow> m_disposition (lp_msg s) = DP_PENDING
      | [x] \<Rightarrow> m_disposition (lp_msg s) = op_disposition x
      | _ \<Rightarrow> False)"

lemma settle_claim_send:
  "settle_claim d af sf v m = (Inr (Some f), m') \<Longrightarrow>
     m_disposition m = DP_PENDING \<and> m_disposition m' = d"
  by (auto simp: settle_claim_def split: if_splits)

lemma settle_claim_nosend:
  "settle_claim d af sf v m = (res, m') \<Longrightarrow> \<forall>f. res \<noteq> Inr (Some f) \<Longrightarrow>
     m_disposition m' = m_disposition m"
  by (auto simp: settle_claim_def split: if_splits)

lemma loop_step_ok: "loop_step s s' \<Longrightarrow> loop_ok s \<Longrightarrow> loop_ok s'"
proof (induction rule: loop_step.induct)
  case (claim_none i s x res m')
  then show ?case using settle_claim_nosend by (fastforce simp: loop_ok_def split: list.splits)
next
  case (claim_send i s x f m')
  then have "m_disposition (lp_msg s) = DP_PENDING \<and> m_disposition m' = op_disposition x"
    using settle_claim_send by blast
  with claim_send.prems show ?case by (auto simp: loop_ok_def split: list.splits)
qed (auto simp: loop_ok_def split: list.splits)

lemma loop_steps_ok: "loop_step\<^sup>*\<^sup>* s s' \<Longrightarrow> loop_ok s \<Longrightarrow> loop_ok s'"
  by (induction rule: rtranclp_induct) (auto intro: loop_step_ok)

section \<open>Properties\<close>

text \<open>C18: synchronous settlement sends at most one accepted frame.  Over any sequence of ack, nack and
  reject calls on a pending message, whatever the transport raises in between, either no
  transport call has returned and the message is still pending, or exactly one has returned
  and the disposition is that of one of the requested operations.\<close>

theorem sync_settles_once:
  assumes "counts_returned cnt m" and "m_disposition m = DP_PENDING"
    and "run_ops sync_op xs (m, w) = (m', w')"
  shows "(m_disposition m' = DP_PENDING \<and> cnt w' = cnt w)
    \<or> (m_disposition m' \<in> op_disposition ` set xs \<and> cnt w' = cnt w + 1)"
  using assms by (rule sync_settler.run_counts)

text \<open>C32: asynchronous settlement makes at most one transport call, failed or not: the claim is kept
  when the call raises, so a contradicting second frame is never sent.\<close>

theorem async_calls_once:
  assumes "counts_calls cnt m" and "m_disposition m = DP_PENDING"
    and "run_ops async_op xs (m, w) = (m', w')"
  shows "(m_disposition m' = DP_PENDING \<and> cnt w' = cnt w)
    \<or> (m_disposition m' \<in> op_disposition ` set xs \<and> cnt w' = cnt w + 1)"
  using assms by (rule async_settler.run_counts)

text \<open>C19: the same holds when the settlements run as concurrent coroutines: in every reachable state
  of the event loop at most one frame was started for the delivery, and the recorded
  disposition is the one of that frame.\<close>

theorem concurrent_async_one_frame:
  assumes "loop_step\<^sup>*\<^sup>* s s'" and "lp_frames s = []" and "m_disposition (lp_msg s) = DP_PENDING"
  shows "length (lp_frames s') \<le> 1
    \<and> (\<forall>x. lp_frames s' = [x] \<longrightarrow> m_disposition (lp_msg s') = op_disposition x)"
proof -
  from assms(2,3) have "loop_ok s" by (simp add: loop_ok_def)
  with assms(1) have "loop_ok s'" by (rule loop_steps_ok)
  then show ?thesis by (auto simp: loop_ok_def split: list.splits)
qed

text \<open>Concrete messages for the instances below: a world that counts transport calls, and a
  channel whose first call fails.\<close>

definition blank_msg :: "'w msg" where
  "blank_msg = \<lparr>m_body = ''payload'', m_headers = [], m_message_id = Some ''m-1'',
     m_correlation_id = None, m_reply_to = None, m_content_type = None, m_content_encoding = None,
     m_timestamp = None, m_type = None, m_app_id = None, m_priority = None, m_expiration = None,
     m_user_id = None, m_delivery_mode = None, m_routing_key = ''orders'', m_exchange = '''',
     m_delivery_tag = Some 7, m_redelivered = False, m_consumer_tag = None, m_path = [],
     m_wire_body = ''payload'', m_wire_content_encoding = None, m_ack_fn = None,
     m_ack_async_fn = None, m_nack_fn = None, m_nack_async_fn = None, m_reject_fn = None,
     m_reject_async_fn = None, m_disposition = DP_PENDING, m_settle_unknown = False,
     m_metric_once = None, m_channel_alive = None\<rparr>"

definition flaky_call :: "(nat \<times> nat) settle_fn" where
  "flaky_call w = (if fst w = 0 then (Inl (mk_exc [''OSError''] ''closed''), (1, snd w))
                   else (Inr (), (fst w + 1, snd w + 1)))"

definition flaky_msg :: "(nat \<times> nat) msg" where
  "flaky_msg = blank_msg\<lparr>m_ack_fn := Some flaky_call, m_nack_fn := Some (\<lambda>_. flaky_call)\<rparr>"

theorem sync_settles_once_witness:
  "snd (snd (run_ops sync_op [Op_ack, Op_nack True, Op_ack] (flaky_msg, (0, 0)))) = 1
   \<and> m_disposition (fst (run_ops sync_op [Op_ack, Op_nack True, Op_ack] (flaky_msg, (0, 0))))
       \<in> op_disposition ` set [Op_ack, Op_nack True, Op_ack]"
proof -
  let ?r = "run_ops sync_op [Op_ack, Op_nack True, Op_ack] (flaky_msg, (0, 0))"
  have cnt: "counts_returned snd flaky_msg"
    by (auto simp: counts_returned_def sync_fns_def flaky_msg_def blank_msg_def flaky_call_def)
  have pend: "m_disposition flaky_msg = DP_PENDING"
    by (simp add: flaky_msg_def blank_msg_def)
  have "m_disposition (fst ?r) = DP_NACKED"
    by (simp add: msg_ack_def msg_nack_def settle_sync_def flaky_call_def flaky_msg_def blank_msg_def)
  with sync_settles_once [OF cnt pend, of "[Op_ack, Op_nack True, Op_ack]" "(0, 0)" "fst ?r" "snd ?r"]
  show ?thesis by simp
qed

theorem async_calls_once_witness:
  "fst (snd (run_ops async_op [Op_ack, Op_nack True] (flaky_msg, (0, 0)))) = 1
   \<and> m_disposition (fst (run_ops async_op [Op_ack, Op_nack True] (flaky_msg, (0, 0))))
       \<in> op_disposition ` set [Op_ack, Op_nack True]"
proof -
  let ?r = "run_ops async_op [Op_ack, Op_nack True] (flaky_msg, (0, 0))"
  have cnt: "counts_calls fst flaky_msg"
    by (auto simp: counts_calls_def all_fns_def sync_fns_def flaky_msg_def blank_msg_def flaky_call_def)
  have pend: "m_disposition flaky_msg = DP_PENDING"
    by (simp add: flaky_msg_def blank_msg_def)
  have "m_disposition (fst ?r) = DP_ACKED"
    by (simp add: msg_ack_async_def msg_nack_async_def settle_async_def settle_claim_def flaky_call_def flaky_msg_def
        blank_msg_def)
  with async_calls_once [OF cnt pend, of "[Op_ack, Op_nack True]" "(0, 0)" "fst ?r" "snd ?r"]
  show ?thesis by simp
qed

definition race_loop :: "(nat \<times> nat) loop" where
  "race_loop = \<lparr>lp_msg = flaky_msg, lp_tasks = [CO_ready Op_ack, CO_ready (Op_nack True)],
     lp_frames = []\<rparr>"

theorem concurrent_async_one_frame_witness:
  "\<exists>s'. loop_step\<^sup>*\<^sup>* race_loop s' \<and> lp_frames s' = [Op_nack True]
      \<and> m_disposition (lp_msg s') = op_disposition (Op_nack True)"
proof -
  let ?m = "flaky_msg\<lparr>m_disposition := DP_NACKED\<rparr>"
  let ?s = "race_loop\<lparr>lp_msg := ?m, lp_tasks := (lp_tasks race_loop)[1 := CO_sending (Op_nack True)],
              lp_frames := lp_frames race_loop @ [Op_nack True]\<rparr>"
  have "loop_step race_loop ?s"
    by (rule loop_step.claim_send [where f = flaky_call])
       (simp_all add: race_loop_def settle_claim_def flaky_msg_def blank_msg_def)
  then have steps: "loop_step\<^sup>*\<^sup>* race_loop ?s" by (rule r_into_rtranclp)
  moreover have "lp_frames ?s = [Op_nack True]" by (simp add: race_loop_def)
  moreover have "m_disposition (lp_msg race_loop) = DP_PENDING" "lp_frames race_loop = []"
    by (simp_all add: race_loop_def flaky_msg_def blank_msg_def)
  ultimately show ?thesis using concurrent_async_one_frame [of race_loop ?s] by blast
qed

end
