(* ===== verification/Rk_Errors.thy ===== *)
theory Rk_Errors
  imports Rk_Types
begin

text \<open>
  Error classification (\<^verbatim>\<open>core/errors.py\<close>, \<^verbatim>\<open>middleware/error_classifier.py\<close>), the publish
  classification of \<^verbatim>\<open>PublishOutcome\<close> and the outermost \<^verbatim>\<open>ExceptionMiddleware\<close>.

  The tuple of infrastructure errors the transports register is a module-level variable of
  the code; it is an argument here.  User predicates and fallback handlers are arguments too.
\<close>

section \<open>Exception types\<close>

definition SHUTDOWN_ERRORS :: "string list" where
  "SHUTDOWN_ERRORS = [''CancelledError'', ''KeyboardInterrupt'', ''SystemExit'']"

definition TRANSIENT_ERRORS :: "string list" where
  "TRANSIENT_ERRORS = [''TimeoutError'', ''EOFError'', ''OSError'']"

definition PERMANENT_ERRORS :: "string list" where
  "PERMANENT_ERRORS = [''JSONDecodeError'', ''KeyError'', ''ValueError'', ''TypeError'',
     ''UnicodeDecodeError'', ''AttributeError'', ''MissingDependencyError'']"

definition handler_timeout_error :: "string \<Rightarrow> py_exc" where
  "handler_timeout_error s =
     (mk_exc [''HandlerTimeoutError'', ''TimeoutError'', ''OSError'', ''Exception'', ''BaseException''] s)
       \<lparr>exc_outcome_unknown := True\<rparr>"

definition inbound_too_large_error :: "string \<Rightarrow> py_exc" where
  "inbound_too_large_error s =
     (mk_exc [''InboundMessageTooLargeError'', ''InvalidMessageError'', ''ValueError'', ''Exception'',
              ''BaseException''] s)
       \<lparr>exc_category := Some EC_INVALID_MESSAGE\<rparr>"

text \<open>An exception type that refuses new attributes is left as it is.\<close>

definition mark_invalid_message :: "py_exc \<Rightarrow> py_exc" where
  "mark_invalid_message e =
     (case exc_category e of
        Some _ \<Rightarrow> e
      | None \<Rightarrow> if exc_takes_attrs e then e\<lparr>exc_category := Some EC_INVALID_MESSAGE\<rparr> else e)"

definition register_infrastructure_errors :: "string list \<Rightarrow> string list \<Rightarrow> string list" where
  "register_infrastructure_errors registered types =
     (let new = filter (\<lambda>t. t \<notin> set registered) types
      in if new \<noteq> [] then registered @ new else registered)"

section \<open>Classification\<close>

datatype predicate_answer = PA_TRUE | PA_FALSE | PA_CATEGORY error_category | PA_NO_OPINION

definition result_ce :: "py_exc \<Rightarrow> error_category \<Rightarrow> string \<Rightarrow> classified_error" where
  "result_ce e c reason =
     classified_error_init (ec_severity c) e (reason @ '': '' @ type_name e) False c"

primrec first_predicate ::
    "py_exc \<Rightarrow> (py_exc \<Rightarrow> predicate_answer) list \<Rightarrow> classified_error option" where
  "first_predicate e [] = None"
| "first_predicate e (p # ps) =
     (case p e of
        PA_TRUE \<Rightarrow> Some (result_ce e EC_RETRYABLE ''predicate classified as transient'')
      | PA_FALSE \<Rightarrow> Some (result_ce e EC_PERMANENT ''predicate classified as permanent'')
      | PA_CATEGORY c \<Rightarrow> Some (result_ce e c (''predicate classified as '' @ ec_value c))
      | PA_NO_OPINION \<Rightarrow> first_predicate e ps)"

definition classify_inner ::
    "py_exc \<Rightarrow> (py_exc \<Rightarrow> predicate_answer) list \<Rightarrow> string list \<Rightarrow> string list \<Rightarrow> error_severity
       \<Rightarrow> string list \<Rightarrow> classified_error" where
  "classify_inner e predicates transient permanent unknown_policy infrastructure =
     (if isinstance e SHUTDOWN_ERRORS then result_ce e EC_SHUTDOWN ''shutdown''
      else case exc_category e of
        Some c \<Rightarrow> result_ce e c (''declared '' @ ec_value c)
      | None \<Rightarrow>
        (case first_predicate e predicates of
           Some r \<Rightarrow> r
         | None \<Rightarrow>
             if infrastructure \<noteq> [] \<and> isinstance e infrastructure
             then result_ce e EC_INFRASTRUCTURE ''infrastructure error''
             else if isinstance e transient then result_ce e EC_RETRYABLE ''transient error''
             else if isinstance e permanent then result_ce e EC_PERMANENT ''permanent error''
             else result_ce e (if unknown_policy = SV_TRANSIENT then EC_RETRYABLE else EC_PERMANENT)
                    (''unknown error classified as '' @ sv_value unknown_policy)))"

definition classify_error ::
    "string list \<Rightarrow> py_exc \<Rightarrow> (py_exc \<Rightarrow> predicate_answer) list \<Rightarrow> string list \<Rightarrow> string list
       \<Rightarrow> error_severity \<Rightarrow> string list option \<Rightarrow> classified_error" where
  "classify_error registered e predicates transient permanent unknown_policy infrastructure =
     (let c = classify_inner e predicates transient permanent unknown_policy
                (case infrastructure of None \<Rightarrow> registered | Some ts \<Rightarrow> ts)
      in if exc_outcome_unknown e
         then classified_error_init (ce_severity c) e
                (ce_reason c @ ''; outcome unknown (side effects may have happened)'') True
                (ce_category c)
         else c)"

definition classify_default :: "string list \<Rightarrow> py_exc \<Rightarrow> classified_error" where
  "classify_default registered e =
     classify_error registered e [] TRANSIENT_ERRORS PERMANENT_ERRORS SV_PERMANENT None"

text \<open>\<^verbatim>\<open>ErrorClassifierMiddleware.classify\<close>.\<close>

record error_classifier =
  ecl_predicates :: "(py_exc \<Rightarrow> predicate_answer) list"
  ecl_unknown_policy :: error_severity

definition classifier_classify :: "string list \<Rightarrow> error_classifier \<Rightarrow> py_exc \<Rightarrow> classified_error" where
  "classifier_classify registered ec e =
     classify_error registered e (ecl_predicates ec) TRANSIENT_ERRORS PERMANENT_ERRORS
       (ecl_unknown_policy ec) None"

text \<open>\<^verbatim>\<open>PublishOutcome.classification\<close>.\<close>

definition po_classification :: "string list \<Rightarrow> publish_outcome \<Rightarrow> classified_error option" where
  "po_classification registered p =
     (if po_status p \<noteq> PS_ERROR then None
      else map_option (classify_default registered) (po_error p))"

section \<open>ExceptionMiddleware\<close>

record 'a exception_mw =
  xm_handlers :: "(string, py_exc \<Rightarrow> py_exc + 'a option) dict"
  xm_swallow_permanent :: bool

definition xm_add_handler ::
    "string \<Rightarrow> (py_exc \<Rightarrow> py_exc + 'a option) \<Rightarrow> 'a exception_mw \<Rightarrow> 'a exception_mw" where
  "xm_add_handler t h mw = mw\<lparr>xm_handlers := dict_set t h (xm_handlers mw)\<rparr>"

primrec first_handler ::
    "py_exc \<Rightarrow> (string \<times> (py_exc \<Rightarrow> py_exc + 'a option)) list \<Rightarrow> (py_exc + 'a option) option" where
  "first_handler e [] = None"
| "first_handler e (p # ps) = (if isinstance e [fst p] then Some (snd p e) else first_handler e ps)"

definition handle_exception :: "'a exception_mw \<Rightarrow> py_exc \<Rightarrow> py_exc + 'a option" where
  "handle_exception mw e =
     (if exc_terminal e \<and> \<not> xm_swallow_permanent mw then Inl e
      else if exc_terminal e \<and> exc_dead_letter_failed e then Inl e
      else case first_handler e (xm_handlers mw) of
             Some r \<Rightarrow> r
           | None \<Rightarrow> if exc_terminal e \<and> xm_swallow_permanent mw then Inr None else Inl e)"

definition xm_consume_scope :: "'a exception_mw \<Rightarrow> py_exc + 'a option \<Rightarrow> py_exc + 'a option" where
  "xm_consume_scope mw r =
     (case r of Inr v \<Rightarrow> Inr v
      | Inl e \<Rightarrow> if is_exception e then handle_exception mw e else Inl e)"

section \<open>Lemmas\<close>

lemma first_predicate_form:
  "first_predicate e ps = Some r \<Longrightarrow> \<exists>c reason. r = result_ce e c reason"
  by (induction ps) (auto split: predicate_answer.splits)

lemma classify_inner_form:
  "\<exists>c reason. classify_inner e ps tr pm up infra = result_ce e c reason"
  by (auto simp: classify_inner_def split: option.splits dest: first_predicate_form)

lemma result_ce_simps [simp]:
  "ce_severity (result_ce e c reason) = ec_severity c"
  "ce_category (result_ce e c reason) = c"
  "ce_original (result_ce e c reason) = e"
  "\<not> ce_outcome_unknown (result_ce e c reason)"
  by (simp_all add: result_ce_def) (simp add: classified_error_init_def Let_def)

lemma classify_error_category:
  "ce_category (classify_error reg e ps tr pm up infra) =
     (let c = ce_category (classify_inner e ps tr pm up (case infra of None \<Rightarrow> reg | Some ts \<Rightarrow> ts))
      in if exc_outcome_unknown e \<and> c = EC_RETRYABLE then EC_UNKNOWN_OUTCOME else c)"
proof -
  obtain c reason where
    "classify_inner e ps tr pm up (case infra of None \<Rightarrow> reg | Some ts \<Rightarrow> ts) = result_ce e c reason"
    using classify_inner_form by blast
  then show ?thesis
    by (simp add: classify_error_def Let_def classified_error_init_def)
qed

lemma classify_error_severity:
  "ce_severity (classify_error reg e ps tr pm up infra)
     = ec_severity (ce_category (classify_error reg e ps tr pm up infra))"
proof -
  obtain c reason where
    "classify_inner e ps tr pm up (case infra of None \<Rightarrow> reg | Some ts \<Rightarrow> ts) = result_ce e c reason"
    using classify_inner_form by blast
  then show ?thesis
    by (auto simp: classify_error_def Let_def classified_error_init_def ec_severity_def)
qed

lemma classify_error_shutdown:
  assumes "isinstance e SHUTDOWN_ERRORS"
  shows "ce_category (classify_error reg e ps tr pm up infra) = EC_SHUTDOWN"
  using assms by (simp add: classify_error_category classify_inner_def)

lemma classify_error_declared:
  assumes "\<not> isinstance e SHUTDOWN_ERRORS" and "exc_category e = Some c" and "c \<noteq> EC_RETRYABLE"
  shows "ce_category (classify_error reg e ps tr pm up infra) = c"
  using assms by (simp add: classify_error_category classify_inner_def)

section \<open>Properties\<close>

text \<open>C33: the classification of any exception, whatever the user predicates, the type tuples and
  the registered transport errors, carries a category that agrees with its severity; it keeps the
  original exception and its outcome-unknown mark; and a transient failure whose outcome is unknown
  is never labelled plainly retryable.\<close>

theorem classify_error_consistent:
  "ce_severity (classify_error reg e ps tr pm up infra)
      = ec_severity (ce_category (classify_error reg e ps tr pm up infra))
   \<and> ce_original (classify_error reg e ps tr pm up infra) = e
   \<and> ce_outcome_unknown (classify_error reg e ps tr pm up infra) = exc_outcome_unknown e
   \<and> \<not> (exc_outcome_unknown e \<and> ce_category (classify_error reg e ps tr pm up infra) = EC_RETRYABLE)"
proof -
  obtain c reason where
    "classify_inner e ps tr pm up (case infra of None \<Rightarrow> reg | Some ts \<Rightarrow> ts) = result_ce e c reason"
    using classify_inner_form by blast
  then show ?thesis
    by (auto simp: classify_error_def Let_def classified_error_init_def ec_severity_def)
qed

text \<open>C34: a body-decode or \<^verbatim>\<open>on_receive\<close> failure is terminal.  Once the pipeline has tagged it,
  the exception is classified \<open>INVALID_MESSAGE\<close> with permanent severity by every configuration of
  the classifier: no predicate, type tuple or unknown policy turns it into a retry, unless the
  exception is a shutdown, refuses attributes or declared a category of its own.\<close>

theorem invalid_message_terminal:
  assumes "\<not> isinstance e SHUTDOWN_ERRORS" and "exc_takes_attrs e" and "exc_category e = None"
  shows "ce_category (classify_error reg (mark_invalid_message e) ps tr pm up infra) = EC_INVALID_MESSAGE
    \<and> ce_severity (classify_error reg (mark_invalid_message e) ps tr pm up infra) = SV_PERMANENT"
proof -
  have "\<not> isinstance (mark_invalid_message e) SHUTDOWN_ERRORS"
    using assms by (simp add: isinstance_def mark_invalid_message_def)
  moreover have "exc_category (mark_invalid_message e) = Some EC_INVALID_MESSAGE"
    using assms by (simp add: mark_invalid_message_def)
  ultimately have "ce_category (classify_error reg (mark_invalid_message e) ps tr pm up infra)
      = EC_INVALID_MESSAGE"
    by (rule classify_error_declared) simp
  then show ?thesis by (simp add: classify_error_severity ec_severity_def)
qed

theorem invalid_message_terminal_witness:
  "ce_severity (classify_error [''AMQPError'']
      (mark_invalid_message (mk_exc [''OSError'', ''Exception''] ''bad gzip''))
      [\<lambda>_. PA_TRUE] TRANSIENT_ERRORS PERMANENT_ERRORS SV_TRANSIENT None) = SV_PERMANENT"
  using invalid_message_terminal [of "mk_exc [''OSError'', ''Exception''] ''bad gzip''" "[''AMQPError'']"
      "[\<lambda>_. PA_TRUE]" TRANSIENT_ERRORS PERMANENT_ERRORS SV_TRANSIENT None]
  by (simp add: SHUTDOWN_ERRORS_def mk_exc_def isinstance_def)

end
