(* ===== verification/Rk_Strings.thy ===== *)
theory Rk_Strings
  imports Rk_Types
begin

text \<open>
  The string operations of Python that rabbitkit uses on queue names and headers: decimal
  printing, \<^verbatim>\<open>int()\<close> on text, \<^verbatim>\<open>isdigit\<close>, \<^verbatim>\<open>startswith\<close>, \<^verbatim>\<open>split\<close>, and the reading of header values.
\<close>

section \<open>Decimal numbers\<close>

definition digit_char :: "nat \<Rightarrow> char" where
  "digit_char d = char_of (48 + d)"

fun digits_of :: "nat \<Rightarrow> string" where
  "digits_of n = (if n < 10 then [digit_char n] else digits_of (n div 10) @ [digit_char (n mod 10)])"

declare digits_of.simps [simp del]

text \<open>Python's \<^verbatim>\<open>str\<close> of an integer.\<close>

definition str_int :: "int \<Rightarrow> string" where
  "str_int i = (if i < 0 then ''-'' @ digits_of (nat (- i)) else digits_of (nat i))"

definition is_ascii_digit :: "char \<Rightarrow> bool" where
  "is_ascii_digit c \<longleftrightarrow> 48 \<le> (of_char c :: nat) \<and> (of_char c :: nat) \<le> 57"

text \<open>\<^verbatim>\<open>str.isdigit\<close> on code points up to 255 also accepts the superscripts two, three and one.\<close>

definition isdigit_char :: "char \<Rightarrow> bool" where
  "isdigit_char c \<longleftrightarrow> is_ascii_digit c \<or> (of_char c :: nat) \<in> {178, 179, 185}"

definition isdigit :: "string \<Rightarrow> bool" where
  "isdigit s \<longleftrightarrow> s \<noteq> [] \<and> list_all isdigit_char s"

definition digits_value :: "string \<Rightarrow> nat" where
  "digits_value s = foldl (\<lambda>a c. 10 * a + (of_char c - 48)) 0 s"

definition is_space :: "char \<Rightarrow> bool" where
  "is_space c \<longleftrightarrow> (let n = (of_char c :: nat) in (9 \<le> n \<and> n \<le> 13) \<or> (28 \<le> n \<and> n \<le> 32) \<or> n = 133 \<or> n = 160)"

text \<open>The white space that \<^verbatim>\<open>int()\<close> skips around a numeral, in bytes and in text.\<close>

definition is_ascii_space :: "char \<Rightarrow> bool" where
  "is_ascii_space c \<longleftrightarrow> (let n = (of_char c :: nat) in (9 \<le> n \<and> n \<le> 13) \<or> n = 32)"

definition is_int_space :: "char \<Rightarrow> bool" where
  "is_int_space c \<longleftrightarrow> is_ascii_space c \<or> (of_char c :: nat) \<in> {133, 160}"

definition strip :: "(char \<Rightarrow> bool) \<Rightarrow> string \<Rightarrow> string" where
  "strip sp s = rev (dropWhile sp (rev (dropWhile sp s)))"

text \<open>\<^verbatim>\<open>text.split()\<close> (\<open>w\<close> is the word being read) and \<^verbatim>\<open>sep.join(words)\<close>.\<close>

fun split_ws :: "string \<Rightarrow> string \<Rightarrow> string list" where
  "split_ws w [] = (if w = [] then [] else [w])"
| "split_ws w (c # s) =
     (if is_space c then (if w = [] then split_ws [] s else w # split_ws [] s)
      else split_ws (w @ [c]) s)"

fun join :: "string \<Rightarrow> string list \<Rightarrow> string" where
  "join sep [] = []"
| "join sep [w] = w"
| "join sep (w # v # ws) = w @ sep @ join sep (v # ws)"

text \<open>The digits of a numeral in which single underscores may separate digits.\<close>

fun numeral_digits :: "string \<Rightarrow> string option" where
  "numeral_digits [] = None"
| "numeral_digits [c] = (if is_ascii_digit c then Some [c] else None)"
| "numeral_digits (c # d # s) =
     (if \<not> is_ascii_digit c then None
      else if d = CHR ''_'' then map_option ((#) c) (numeral_digits s)
      else map_option ((#) c) (numeral_digits (d # s)))"

definition INT_MAX_STR_DIGITS :: nat where
  "INT_MAX_STR_DIGITS = 4300"

text \<open>\<^verbatim>\<open>int()\<close> on text and on bytes; \<^const>\<open>None\<close> is the \<^verbatim>\<open>ValueError\<close>.\<close>

definition int_of_stripped :: "string \<Rightarrow> int option" where
  "int_of_stripped t =
     (let (sgn, u) = (case t of c # r \<Rightarrow> if c = CHR ''-'' then (- 1, r) else if c = CHR ''+'' then (1, r) else (1, t)
                      | [] \<Rightarrow> (1, []))
      in case numeral_digits u of
           None \<Rightarrow> None
         | Some ds \<Rightarrow> if length ds > INT_MAX_STR_DIGITS then None else Some (sgn * int (digits_value ds)))"

definition int_of_text :: "string \<Rightarrow> int option" where
  "int_of_text s = int_of_stripped (strip is_int_space s)"

definition int_of_bytes :: "string \<Rightarrow> int option" where
  "int_of_bytes s = int_of_stripped (strip is_ascii_space s)"

section \<open>Prefixes and splitting\<close>

definition startswith :: "string \<Rightarrow> string \<Rightarrow> bool" where
  "startswith s p \<longleftrightarrow> take (length p) s = p"

text \<open>\<^verbatim>\<open>s.split(c, 1)[0]\<close>.\<close>

definition before :: "char \<Rightarrow> string \<Rightarrow> string" where
  "before c s = takeWhile (\<lambda>d. d \<noteq> c) s"

text \<open>\<^verbatim>\<open>s.split(c)\<close>, which always returns at least one part.\<close>

fun split_on :: "char \<Rightarrow> string \<Rightarrow> string list" where
  "split_on c [] = [[]]"
| "split_on c (d # s) =
     (if d = c then [] # split_on c s
      else case split_on c s of w # ws \<Rightarrow> (d # w) # ws | [] \<Rightarrow> [[d]])"

text \<open>The truth value of a header value, and \<^verbatim>\<open>int()\<close> of it.\<close>

fun truthy :: "pyval \<Rightarrow> bool" where
  "truthy PyNone = False"
| "truthy (PyBool b) = b"
| "truthy (PyInt i) = (i \<noteq> 0)"
| "truthy (PyFloat r) = (r \<noteq> 0)"
| "truthy (PyStr s) = (s \<noteq> [])"
| "truthy (PyBytes s) = (s \<noteq> [])"
| "truthy (PyList xs) = (xs \<noteq> [])"
| "truthy (PyDict d) = (d \<noteq> [])"
| "truthy _ = True"

definition value_error :: "string \<Rightarrow> py_exc" where
  "value_error s = mk_exc [''ValueError'', ''Exception'', ''BaseException''] s"

definition type_error :: "string \<Rightarrow> py_exc" where
  "type_error s = mk_exc [''TypeError'', ''Exception'', ''BaseException''] s"

definition overflow_error :: "string \<Rightarrow> py_exc" where
  "overflow_error s = mk_exc [''OverflowError'', ''ArithmeticError'', ''Exception'', ''BaseException''] s"

definition or_value_error :: "int option \<Rightarrow> py_exc + int" where
  "or_value_error x = (case x of None \<Rightarrow> Inl (value_error ''int()'') | Some i \<Rightarrow> Inr i)"

fun py_int :: "pyval \<Rightarrow> py_exc + int" where
  "py_int (PyBool b) = Inr (if b then 1 else 0)"
| "py_int (PyInt i) = Inr i"
| "py_int (PyFloat r) = Inr (if 0 \<le> r then \<lfloor>r\<rfloor> else \<lceil>r\<rceil>)"
| "py_int PyFloatInf = Inl (overflow_error ''cannot convert float infinity to integer'')"
| "py_int PyFloatNan = Inl (value_error ''cannot convert float NaN to integer'')"
| "py_int (PyStr s) = or_value_error (int_of_text s)"
| "py_int (PyBytes s) = or_value_error (int_of_bytes s)"
| "py_int _ = Inl (type_error ''int()'')"

lemma split_on_nonempty [simp]: "split_on c s \<noteq> []"
  by (cases s) (auto split: list.split)

lemma split_on_append: "c \<notin> set w \<Longrightarrow> split_on c (w @ c # s) = w # split_on c s"
  by (induction w) auto

lemma split_on_none: "c \<notin> set w \<Longrightarrow> split_on c w = [w]"
  by (induction w) auto

lemma split_on_parts: "w \<in> set (split_on c s) \<Longrightarrow> c \<notin> set w"
  by (induction s arbitrary: w) (auto split: list.splits if_splits)

lemma split_on_join: "ws \<noteq> [] \<Longrightarrow> (\<forall>w \<in> set ws. c \<notin> set w) \<Longrightarrow> split_on c (join [c] ws) = ws"
  by (induction "[c]" ws rule: join.induct) (auto simp: split_on_append split_on_none)

lemma join_split_on: "join [c] (split_on c s) = s"
proof (induction s)
  case (Cons d s)
  obtain w ws where w: "split_on c s = w # ws" using split_on_nonempty [of c s] by (cases "split_on c s") auto
  with Cons show ?case by (cases ws) auto
qed simp

lemma startswith_append [simp]: "startswith (p @ s) p"
  by (simp add: startswith_def)

section \<open>Lemmas on decimal numbers\<close>

lemma of_digit_char: "d < 10 \<Longrightarrow> (of_char (digit_char d) :: nat) = 48 + d"
  by (simp add: digit_char_def)

lemma digit_char_ascii: "d < 10 \<Longrightarrow> is_ascii_digit (digit_char d)"
  by (simp add: is_ascii_digit_def of_digit_char)

lemma digits_of_ascii: "list_all is_ascii_digit (digits_of n)"
proof (induction n rule: digits_of.induct)
  case (1 n)
  then show ?case by (subst digits_of.simps) (simp add: digit_char_ascii)
qed

lemma digits_of_nonempty [simp]: "digits_of n \<noteq> []"
  by (subst digits_of.simps) simp

lemma digits_value_digits_of [simp]: "digits_value (digits_of n) = n"
proof (induction n rule: digits_of.induct)
  case (1 n)
  then show ?case
    by (subst digits_of.simps) (auto simp: digits_value_def of_digit_char)
qed

lemma digits_of_inj: "digits_of m = digits_of n \<longleftrightarrow> m = n"
  by (metis digits_value_digits_of)

lemma isdigit_digits_of: "isdigit (digits_of n)"
  using digits_of_ascii [of n] by (auto simp: isdigit_def isdigit_char_def list_all_iff)

lemma ascii_digit_simps:
  "is_ascii_digit c \<Longrightarrow> c \<noteq> CHR ''.'' \<and> c \<noteq> CHR ''-'' \<and> c \<noteq> CHR ''+'' \<and> c \<noteq> CHR ''_'' \<and> \<not> is_space c
     \<and> \<not> is_int_space c"
  by (auto simp: is_ascii_digit_def is_space_def is_int_space_def is_ascii_space_def Let_def)

lemma numeral_digits_ascii: "list_all is_ascii_digit s \<Longrightarrow> s \<noteq> [] \<Longrightarrow> numeral_digits s = Some s"
  by (induction s rule: numeral_digits.induct) (auto dest: ascii_digit_simps)

lemma dropWhile_none: "list_all (\<lambda>c. \<not> P c) s \<Longrightarrow> dropWhile P s = s"
  by (cases s) auto

lemma strip_digits: "list_all is_ascii_digit s \<Longrightarrow> strip is_int_space s = s"
proof -
  assume "list_all is_ascii_digit s"
  then have "list_all (\<lambda>c. \<not> is_int_space c) s" by (auto simp: list_all_iff dest: ascii_digit_simps)
  then show ?thesis by (simp add: strip_def dropWhile_none list_all_rev)
qed

lemma int_of_text_digits:
  assumes "list_all is_ascii_digit s" and "s \<noteq> []" and "length s \<le> INT_MAX_STR_DIGITS"
  shows "int_of_text s = Some (int (digits_value s))"
proof -
  obtain c r where s: "s = c # r" using assms(2) by (cases s) auto
  then have "c \<noteq> CHR ''-''" "c \<noteq> CHR ''+''" using assms(1) by (auto dest: ascii_digit_simps)
  then show ?thesis
    using assms numeral_digits_ascii [OF assms(1,2)]
    by (simp add: int_of_text_def int_of_stripped_def strip_digits s)
qed

lemma length_digits_of: "n < 10 ^ k \<Longrightarrow> 0 < k \<Longrightarrow> length (digits_of n) \<le> k"
proof (induction n arbitrary: k rule: digits_of.induct)
  case (1 n)
  show ?case
  proof (cases "n < 10")
    case True
    with 1 show ?thesis by (subst digits_of.simps) simp
  next
    case False
    with 1 obtain j where k: "k = Suc j" "0 < j" by (cases k) (auto simp: gr0_conv_Suc, cases "k - 1", auto)
    with 1 False have "length (digits_of (n div 10)) \<le> j"
      by (intro "1.IH") (auto simp: less_mult_imp_div_less mult.commute)
    with False k show ?thesis by (subst digits_of.simps) simp
  qed
qed

end
