(* ===== verification/Rk_FailureCopy.thy ===== *)
theory Rk_FailureCopy
  imports Rk_Message Rk_Errors Rk_Strings
begin

text \<open>
  The copies of a failed delivery (\<^verbatim>\<open>core/failure_copy.py\<close>) and the error metadata they carry
  (\<^verbatim>\<open>core/sanitizer.py\<close>).

  What the Python runtime supplies is the record \<open>runtime\<close>: the clock reading of the step
  (\<open>rt_now\<close>, seconds), ISO-8601 printing and parsing of timestamps, \<^verbatim>\<open>bytes.decode\<close> with
  replacement, a fresh \<^verbatim>\<open>uuid4().hex\<close>, the md5 digest as a number, \<^verbatim>\<open>str()\<close> of a header
  value that is not text, the readings of \<^verbatim>\<open>time.monotonic\<close> and \<^verbatim>\<open>random.random\<close>, and the infrastructure
  errors the transports have registered.  A redaction pattern of the sanitizer is the substitution
  \<^verbatim>\<open>pat.sub(replacement, text)\<close> it performs; the regular expressions themselves are not modelled.
\<close>

record runtime =
  rt_now :: real
  rt_iso :: "real \<Rightarrow> string"
  rt_fromiso :: "string \<Rightarrow> real option"
  rt_decode :: "string \<Rightarrow> string"
  rt_uuid_hex :: string
  rt_md5 :: "string \<Rightarrow> nat"
  rt_repr :: "pyval \<Rightarrow> string"
  rt_monotonic :: real
  rt_random :: real
  rt_infrastructure :: "string list"

section \<open>Sanitized errors\<close>

definition ERROR_DETAIL_POLICIES :: "string list" where
  "ERROR_DETAIL_POLICIES = [''sanitized'', ''omit'', ''raw'']"

record sanitized_error =
  se_category :: string
  se_code :: string
  se_summary :: string

definition as_headers :: "string \<Rightarrow> sanitized_error \<Rightarrow> headers" where
  "as_headers pre se =
     (let h = [(pre @ ''-category'', PyStr (se_category se)), (pre @ ''-type'', PyStr (se_code se))]
      in if se_summary se \<noteq> [] then dict_set (pre @ ''-message'') (PyStr (se_summary se)) h else h)"

record sanitizer =
  san_policy :: string
  san_max_summary :: nat
  san_max_code :: nat
  san_patterns :: "(string \<Rightarrow> string) list"
  san_allowed_codes :: "string list option"

definition error_sanitizer ::
    "string \<Rightarrow> int \<Rightarrow> int \<Rightarrow> (string \<Rightarrow> string) list \<Rightarrow> string list option \<Rightarrow> py_exc + sanitizer" where
  "error_sanitizer policy max_summary_len max_code_len patterns allowed_codes =
     (if policy \<notin> set ERROR_DETAIL_POLICIES then Inl (value_error ''policy'')
      else if max_summary_len < 0 \<or> max_code_len < 1 then Inl (value_error ''max_summary_len'')
      else Inr \<lparr>san_policy = policy, san_max_summary = nat max_summary_len,
             san_max_code = nat max_code_len, san_patterns = patterns,
             san_allowed_codes = allowed_codes\<rparr>)"

definition code_safe :: "char \<Rightarrow> bool" where
  "code_safe c \<longleftrightarrow> (let n = (of_char c :: nat) in
     (48 \<le> n \<and> n \<le> 57) \<or> (65 \<le> n \<and> n \<le> 90) \<or> (97 \<le> n \<and> n \<le> 122) \<or> n = 95 \<or> n = 46)"

definition code_for :: "sanitizer \<Rightarrow> py_exc \<Rightarrow> string" where
  "code_for s e =
     (let name = (case san_allowed_codes s of
                    None \<Rightarrow> type_name e
                  | Some ok \<Rightarrow> if type_name e \<notin> set ok then ''ApplicationError'' else type_name e);
          code = take (san_max_code s) (filter code_safe name)
      in if code = [] then ''Error'' else code)"

definition redact :: "sanitizer \<Rightarrow> string \<Rightarrow> string" where
  "redact s text = fold (\<lambda>sub t. sub t) (san_patterns s) text"

definition REDACT_WINDOW_FACTOR :: nat where
  "REDACT_WINDOW_FACTOR = 8"

definition summary_for :: "sanitizer \<Rightarrow> py_exc \<Rightarrow> string" where
  "summary_for s e =
     (if san_policy s = ''omit'' \<or> san_max_summary s = 0 then ''''
      else if san_policy s = ''raw'' then take (san_max_summary s) (exc_str e)
      else take (san_max_summary s)
             (redact s (take (san_max_summary s * REDACT_WINDOW_FACTOR) (join '' '' (split_ws [] (exc_str e))))))"

definition sanitize :: "sanitizer \<Rightarrow> py_exc \<Rightarrow> error_severity option \<Rightarrow> sanitized_error" where
  "sanitize s e severity =
     \<lparr>se_category = (case severity of Some v \<Rightarrow> sv_value v | None \<Rightarrow> ''unknown''),
      se_code = code_for s e, se_summary = summary_for s e\<rparr>"

section \<open>Reading headers\<close>

definition ERROR_MESSAGE_MAX_LEN :: nat where "ERROR_MESSAGE_MAX_LEN = 512"
definition DEFAULT_RETRY_HEADER :: string where "DEFAULT_RETRY_HEADER = ''x-rabbitkit-retry-count''"
definition H_ORIGINAL_EXCHANGE :: string where "H_ORIGINAL_EXCHANGE = ''x-rabbitkit-original-exchange''"
definition H_ORIGINAL_RK :: string where "H_ORIGINAL_RK = ''x-rabbitkit-original-routing-key''"
definition H_ORIGINAL_QUEUE :: string where "H_ORIGINAL_QUEUE = ''x-rabbitkit-original-queue''"
definition H_ORIGINAL_MESSAGE_ID :: string where "H_ORIGINAL_MESSAGE_ID = ''x-rabbitkit-original-message-id''"
definition H_ORIGINAL_EXPIRATION :: string where "H_ORIGINAL_EXPIRATION = ''x-rabbitkit-original-expiration''"
definition H_FIRST_FAILED_AT :: string where "H_FIRST_FAILED_AT = ''x-rabbitkit-first-failed-at''"
definition H_LAST_FAILED_AT :: string where "H_LAST_FAILED_AT = ''x-rabbitkit-last-failed-at''"
definition H_ATTEMPTS :: string where "H_ATTEMPTS = ''x-rabbitkit-attempts''"
definition H_ERROR_CLASS :: string where "H_ERROR_CLASS = ''x-rabbitkit-error-class''"
definition H_ERROR_MESSAGE :: string where "H_ERROR_MESSAGE = ''x-rabbitkit-error-message''"
definition H_ERROR_TYPE :: string where "H_ERROR_TYPE = ''x-rabbitkit-error-type''"
definition H_FAILURE_CATEGORY :: string where "H_FAILURE_CATEGORY = ''x-rabbitkit-failure-category''"
definition H_DEAD_LETTERED_AT :: string where "H_DEAD_LETTERED_AT = ''x-rabbitkit-dead-lettered-at''"
definition H_ERROR_CATEGORY :: string where "H_ERROR_CATEGORY = ''x-rabbitkit-error-category''"

lemmas header_names =
  DEFAULT_RETRY_HEADER_def H_ORIGINAL_EXCHANGE_def H_ORIGINAL_RK_def H_ORIGINAL_QUEUE_def
  H_ORIGINAL_MESSAGE_ID_def H_ORIGINAL_EXPIRATION_def H_FIRST_FAILED_AT_def H_LAST_FAILED_AT_def
  H_ATTEMPTS_def H_ERROR_CLASS_def H_ERROR_MESSAGE_def H_ERROR_TYPE_def H_FAILURE_CATEGORY_def
  H_DEAD_LETTERED_AT_def H_ERROR_CATEGORY_def

text \<open>\<^verbatim>\<open>headers.get(name)\<close>: a missing header reads as \<^verbatim>\<open>None\<close>.\<close>

definition hget :: "headers \<Rightarrow> string \<Rightarrow> pyval" where
  "hget h k = dict_get_or h k PyNone"

fun header_text :: "runtime \<Rightarrow> pyval \<Rightarrow> string" where
  "header_text rt (PyBytes b) = rt_decode rt b"
| "header_text rt (PyStr s) = s"
| "header_text rt _ = ''''"

text \<open>\<^verbatim>\<open>int()\<close> of an infinite float raises \<^verbatim>\<open>OverflowError\<close>, which \<^verbatim>\<open>header_int\<close> does not catch.\<close>

definition header_int :: "pyval \<Rightarrow> py_exc + int" where
  "header_int v =
     (case v of PyBool _ \<Rightarrow> Inr 0
      | _ \<Rightarrow> (case py_int v of
                Inr i \<Rightarrow> Inr (max 0 i)
              | Inl e \<Rightarrow> if isinstance e [''TypeError'', ''ValueError''] then Inr 0 else Inl e))"

lemma header_int_PyInt [simp]: "header_int (PyInt i) = Inr (max 0 i)"
  by (simp add: header_int_def)

text \<open>Timestamps are seconds; a timestamp without time zone is read as UTC by \<open>rt_fromiso\<close>.\<close>

definition parse_iso :: "runtime \<Rightarrow> pyval \<Rightarrow> real option" where
  "parse_iso rt v =
     (case v of
        PyTime t \<Rightarrow> Some (min t (rt_now rt))
      | _ \<Rightarrow> if header_text rt v = '''' then None
             else map_option (\<lambda>t. min t (rt_now rt)) (rt_fromiso rt (header_text rt v)))"

section \<open>Building copies\<close>

definition or_text :: "string option \<Rightarrow> string \<Rightarrow> string" where
  "or_text x y = (case x of None \<Rightarrow> y | Some s \<Rightarrow> if s = '''' then y else s)"

definition stable_message_id :: "runtime \<Rightarrow> 'w msg \<Rightarrow> headers \<Rightarrow> string \<times> headers" where
  "stable_message_id rt m h =
     (let original = header_text rt (hget h H_ORIGINAL_MESSAGE_ID)
      in if original = ''''
         then let o' = or_text (m_message_id m) (rt_uuid_hex rt)
              in (or_text (m_message_id m) o', dict_set H_ORIGINAL_MESSAGE_ID (PyStr o') h)
         else (or_text (m_message_id m) original, h))"

definition set_default :: "string \<Rightarrow> pyval \<Rightarrow> headers \<Rightarrow> headers" where
  "set_default k v h = (if \<not> dict_has h k then dict_set k v h else h)"

text \<open>\<^verbatim>\<open>stamp_failure\<close> in two halves: where the message came from and what went wrong, then the
  attempt count and the timestamps.\<close>

definition stamp_error ::
    "headers \<Rightarrow> 'w msg \<Rightarrow> py_exc \<Rightarrow> classified_error \<Rightarrow> failure_category \<Rightarrow> sanitizer \<Rightarrow> headers" where
  "stamp_error h0 m e classified category san =
     (let h1 = set_default H_ORIGINAL_QUEUE (PyStr '''')
                 (set_default H_ORIGINAL_RK (PyStr (m_routing_key m))
                   (set_default H_ORIGINAL_EXCHANGE (PyStr (m_exchange m)) h0));
          sanitized = sanitize san e (Some (ce_severity classified));
          h2 = dict_update_all (dict_pop H_ERROR_MESSAGE h1) (as_headers ''x-rabbitkit-error'' sanitized)
      in dict_set H_FAILURE_CATEGORY (PyStr (fc_value category))
           (dict_set H_ERROR_CLASS (PyStr (se_code sanitized))
             (dict_set H_ERROR_CATEGORY (PyStr (ec_value (ce_category classified))) h2)))"

definition stamp_failure ::
    "runtime \<Rightarrow> headers \<Rightarrow> 'w msg \<Rightarrow> py_exc \<Rightarrow> classified_error \<Rightarrow> failure_category \<Rightarrow> int \<Rightarrow> string
       \<Rightarrow> sanitizer \<Rightarrow> py_exc + headers" where
  "stamp_failure rt h0 m e classified category attempts now san =
     (let h3 = stamp_error h0 m e classified category san
      in case header_int (dict_get_or h3 H_ATTEMPTS (PyInt 0)) of
           Inl x \<Rightarrow> Inl x
         | Inr n \<Rightarrow>
            (let h4 = dict_set H_ATTEMPTS (PyInt (max attempts n)) h3;
                 h5 = (if parse_iso rt (hget h4 H_FIRST_FAILED_AT) = None
                       then dict_set H_FIRST_FAILED_AT (PyStr now) h4 else h4);
                 h6 = dict_set H_LAST_FAILED_AT (PyStr now) h5
             in Inr (case m_expiration m of
                  Some x \<Rightarrow> if x \<noteq> '''' then set_default H_ORIGINAL_EXPIRATION (PyStr x) h6 else h6
                | None \<Rightarrow> h6)))"

definition copy_envelope :: "'w msg \<Rightarrow> string \<Rightarrow> headers \<Rightarrow> string \<Rightarrow> py_exc + envelope" where
  "copy_envelope m rk h message_id = message_envelope
     \<lparr>me_routing_key = rk,
      me_body = m_wire_body m,
      me_exchange = '''',
      me_headers = h,
      me_message_id = message_id,
      me_correlation_id = m_correlation_id m,
      me_reply_to = m_reply_to m,
      me_timestamp = m_timestamp m,
      me_content_type = or_text (m_content_type m) ''application/octet-stream'',
      me_content_encoding = m_wire_content_encoding m,
      me_expiration = None,
      me_priority = m_priority m,
      me_mandatory = True,
      me_delivery_mode = (case m_delivery_mode m of Some n \<Rightarrow> if n = 1 \<or> n = 2 then n else 2 | None \<Rightarrow> 2),
      me_type = m_type m,
      me_user_id = m_user_id m,
      me_app_id = m_app_id m\<rparr>"

text \<open>\<open>defaults\<close> are the \<^verbatim>\<open>header_defaults\<close>, which fill what is missing or empty.\<close>

definition fill_defaults :: "(string, pyval) dict \<Rightarrow> headers \<Rightarrow> headers" where
  "fill_defaults defaults h =
     fold (\<lambda>(k, v) h. if hget h k = PyNone \<or> hget h k = PyStr '''' then dict_set k v h else h) defaults h"

definition dead_letter_envelope ::
    "runtime \<Rightarrow> 'w msg \<Rightarrow> string \<Rightarrow> py_exc \<Rightarrow> classified_error \<Rightarrow> failure_category \<Rightarrow> int \<Rightarrow> sanitizer
       \<Rightarrow> (string, pyval) dict \<Rightarrow> py_exc + envelope" where
  "dead_letter_envelope rt m dlq e classified category attempts san defaults =
     (let (message_id, h1) = stable_message_id rt m (fill_defaults defaults (m_headers m));
          now = rt_iso rt (rt_now rt)
      in case stamp_failure rt h1 m e classified category attempts now san of
           Inl x \<Rightarrow> Inl x
         | Inr h2 \<Rightarrow> copy_envelope m dlq (dict_set H_DEAD_LETTERED_AT (PyStr now) h2) message_id)"

section \<open>Lemmas\<close>

definition STAMPED :: "string list" where
  "STAMPED = [H_ORIGINAL_EXCHANGE, H_ORIGINAL_RK, H_ORIGINAL_QUEUE, H_ORIGINAL_EXPIRATION,
     H_FIRST_FAILED_AT, H_LAST_FAILED_AT, H_ATTEMPTS, H_ERROR_CLASS, H_ERROR_MESSAGE, H_ERROR_TYPE,
     H_FAILURE_CATEGORY, H_ERROR_CATEGORY]"

lemma header_names_distinct:
  "distinct (H_ORIGINAL_MESSAGE_ID # H_DEAD_LETTERED_AT # DEFAULT_RETRY_HEADER # STAMPED)"
  by (simp add: STAMPED_def header_names)

lemma header_names_distinct_rev:
  "distinct (rev (H_ORIGINAL_MESSAGE_ID # H_DEAD_LETTERED_AT # DEFAULT_RETRY_HEADER # STAMPED))"
  using header_names_distinct by (simp only: distinct_rev)

lemmas stamped_neqs [simp] =
  header_names_distinct [unfolded STAMPED_def, simplified]
  header_names_distinct_rev [unfolded STAMPED_def, simplified]

lemma dict_get_set_default [simp]:
  "dict_get (set_default k v h) k' = (if k' = k \<and> dict_get h k = None then Some v else dict_get h k')"
  by (simp add: set_default_def dict_has_def)

lemma dict_get_as_headers:
  "dict_get (as_headers ''x-rabbitkit-error'' se) k =
     (if k = H_ERROR_MESSAGE \<and> se_summary se \<noteq> [] then Some (PyStr (se_summary se))
      else if k = H_ERROR_CATEGORY then Some (PyStr (se_category se))
      else if k = H_ERROR_TYPE then Some (PyStr (se_code se)) else None)"
  by (auto simp: as_headers_def header_names Let_def)

lemma dict_ok_as_headers: "dict_ok (as_headers ''x-rabbitkit-error'' se)"
  by (simp add: as_headers_def dict_ok_def Let_def)

lemma dict_get_stamp_error:
  "dict_get (dict_update_all h (as_headers ''x-rabbitkit-error'' se)) k =
     (if k = H_ERROR_MESSAGE \<and> se_summary se \<noteq> [] then Some (PyStr (se_summary se))
      else if k = H_ERROR_CATEGORY then Some (PyStr (se_category se))
      else if k = H_ERROR_TYPE then Some (PyStr (se_code se)) else dict_get h k)"
  by (simp add: dict_get_update_all dict_ok_as_headers dict_get_as_headers)

lemma dict_get_stamped:
  "dict_get (stamp_error h m e c cat san) k =
     (if k = H_FAILURE_CATEGORY then Some (PyStr (fc_value cat))
      else if k = H_ERROR_CLASS \<or> k = H_ERROR_TYPE then Some (PyStr (code_for san e))
      else if k = H_ERROR_CATEGORY then Some (PyStr (ec_value (ce_category c)))
      else if k = H_ERROR_MESSAGE
      then (if summary_for san e = [] then None else Some (PyStr (summary_for san e)))
      else if k = H_ORIGINAL_QUEUE \<and> dict_get h k = None then Some (PyStr '''')
      else if k = H_ORIGINAL_RK \<and> dict_get h k = None then Some (PyStr (m_routing_key m))
      else if k = H_ORIGINAL_EXCHANGE \<and> dict_get h k = None then Some (PyStr (m_exchange m))
      else dict_get h k)"
  by (auto simp: stamp_error_def Let_def dict_get_stamp_error sanitize_def)

lemma stamp_failureE:
  assumes "stamp_failure rt h m e c cat att now san = Inr h'"
  obtains n where "header_int (dict_get_or h H_ATTEMPTS (PyInt 0)) = Inr n"
    and "\<forall>k. dict_get h' k =
      (if k = H_ORIGINAL_EXPIRATION \<and> dict_get h k = None \<and> m_expiration m \<notin> {None, Some ''''}
       then Some (PyStr (the (m_expiration m)))
       else if k = H_LAST_FAILED_AT then Some (PyStr now)
       else if k = H_FIRST_FAILED_AT \<and> parse_iso rt (hget h k) = None then Some (PyStr now)
       else if k = H_ATTEMPTS then Some (PyInt (max att n))
       else dict_get (stamp_error h m e c cat san) k)"
proof -
  have keep: "dict_get (stamp_error h m e c cat san) H_ATTEMPTS = dict_get h H_ATTEMPTS"
    "dict_get (stamp_error h m e c cat san) H_FIRST_FAILED_AT = dict_get h H_FIRST_FAILED_AT"
    "dict_get (stamp_error h m e c cat san) H_ORIGINAL_EXPIRATION = dict_get h H_ORIGINAL_EXPIRATION"
    by (simp_all add: dict_get_stamped)
  obtain n where n: "header_int (dict_get_or h H_ATTEMPTS (PyInt 0)) = Inr n"
    using assms keep(1) unfolding stamp_failure_def
    by (auto simp: Let_def dict_get_or_def split: sum.splits)
  show thesis
    using assms n keep
    by (intro that [OF n])
      (auto simp: stamp_failure_def Let_def dict_get_or_def hget_def split: option.splits if_splits)
qed

lemma copy_envelopeD:
  assumes "copy_envelope m rk h i = Inr env"
  shows "me_routing_key env = rk" "me_body env = m_wire_body m" "me_exchange env = ''''" "me_headers env = h"
    "me_message_id env = i" "me_correlation_id env = m_correlation_id m" "me_reply_to env = m_reply_to m"
    "me_timestamp env = m_timestamp m" "me_content_encoding env = m_wire_content_encoding m"
    "me_expiration env = None" "me_priority env = m_priority m" "me_mandatory env"
    "me_type env = m_type m" "me_user_id env = m_user_id m" "me_app_id env = m_app_id m"
  using assms by (auto simp: copy_envelope_def)

lemma stable_message_id_get:
  "dict_get (snd (stable_message_id rt m h)) k =
     (if k = H_ORIGINAL_MESSAGE_ID \<and> header_text rt (hget h k) = ''''
      then Some (PyStr (or_text (m_message_id m) (rt_uuid_hex rt))) else dict_get h k)"
  by (auto simp: stable_message_id_def Let_def)

lemma stable_message_id_fst:
  "fst (stable_message_id rt m h) = or_text (m_message_id m)
     (if header_text rt (hget h H_ORIGINAL_MESSAGE_ID) = '''' then rt_uuid_hex rt
      else header_text rt (hget h H_ORIGINAL_MESSAGE_ID))"
  by (simp add: stable_message_id_def Let_def or_text_def split: option.split)

lemma fill_defaults_get:
  "k \<notin> fst ` set defaults \<Longrightarrow> dict_get (fill_defaults defaults h) k = dict_get h k"
  by (induction defaults arbitrary: h) (auto simp: fill_defaults_def)

text \<open>What every copy keeps of its message, whichever builder made it.\<close>

definition copy_facts :: "runtime \<Rightarrow> 'w msg \<Rightarrow> envelope \<Rightarrow> bool" where
  "copy_facts rt m env \<longleftrightarrow>
     me_message_id env = or_text (m_message_id m)
       (if header_text rt (hget (m_headers m) H_ORIGINAL_MESSAGE_ID) = '''' then rt_uuid_hex rt
        else header_text rt (hget (m_headers m) H_ORIGINAL_MESSAGE_ID))
   \<and> dict_get (me_headers env) H_ORIGINAL_MESSAGE_ID =
       (if header_text rt (hget (m_headers m) H_ORIGINAL_MESSAGE_ID) = ''''
        then Some (PyStr (or_text (m_message_id m) (rt_uuid_hex rt)))
        else dict_get (m_headers m) H_ORIGINAL_MESSAGE_ID)
   \<and> dict_get (me_headers env) H_FIRST_FAILED_AT =
       (if parse_iso rt (hget (m_headers m) H_FIRST_FAILED_AT) = None
        then Some (PyStr (rt_iso rt (rt_now rt))) else dict_get (m_headers m) H_FIRST_FAILED_AT)
   \<and> (\<exists>a n. header_int (dict_get_or (m_headers m) H_ATTEMPTS (PyInt 0)) = Inr n
        \<and> dict_get (me_headers env) H_ATTEMPTS = Some (PyInt (max a n)))
   \<and> (\<forall>k \<in> {H_ORIGINAL_EXCHANGE, H_ORIGINAL_RK, H_ORIGINAL_EXPIRATION}.
        dict_get (m_headers m) k \<noteq> None \<longrightarrow> dict_get (me_headers env) k = dict_get (m_headers m) k)"

text \<open>The headers an identity of a message rests on; a builder must not write them itself.\<close>

definition IDENTITY :: "string list" where
  "IDENTITY = [H_ORIGINAL_MESSAGE_ID, H_FIRST_FAILED_AT, H_ATTEMPTS, H_ORIGINAL_EXCHANGE, H_ORIGINAL_RK,
     H_ORIGINAL_EXPIRATION]"

lemma built_copy_facts:
  assumes stamp: "stamp_failure rt h1 m e c cat att (rt_iso rt (rt_now rt)) san = Inr h2"
    and before: "\<And>k. k \<in> set IDENTITY \<Longrightarrow> dict_get h1 k = dict_get (snd (stable_message_id rt m hs)) k"
    and start: "\<And>k. k \<in> set IDENTITY \<Longrightarrow> dict_get hs k = dict_get (m_headers m) k"
    and after: "\<And>k. k \<in> set IDENTITY \<Longrightarrow> dict_get (me_headers env) k = dict_get h2 k"
    and mid: "me_message_id env = fst (stable_message_id rt m hs)"
  shows "copy_facts rt m env"
proof -
  have h1: "dict_get h1 k = (if k = H_ORIGINAL_MESSAGE_ID \<and> header_text rt (hget (m_headers m) k) = ''''
      then Some (PyStr (or_text (m_message_id m) (rt_uuid_hex rt))) else dict_get (m_headers m) k)"
    if "k \<in> set IDENTITY" for k
    using before [OF that] start [OF that] by (auto simp: stable_message_id_get hget_def dict_get_or_def)
  have g0: "hget hs H_ORIGINAL_MESSAGE_ID = hget (m_headers m) H_ORIGINAL_MESSAGE_ID"
    using start [of H_ORIGINAL_MESSAGE_ID] by (simp add: IDENTITY_def hget_def dict_get_or_def)
  obtain n where n: "header_int (dict_get_or h1 H_ATTEMPTS (PyInt 0)) = Inr n"
    and h2: "\<forall>k. dict_get h2 k =
      (if k = H_ORIGINAL_EXPIRATION \<and> dict_get h1 k = None \<and> m_expiration m \<notin> {None, Some ''''}
       then Some (PyStr (the (m_expiration m)))
       else if k = H_LAST_FAILED_AT then Some (PyStr (rt_iso rt (rt_now rt)))
       else if k = H_FIRST_FAILED_AT \<and> parse_iso rt (hget h1 k) = None then Some (PyStr (rt_iso rt (rt_now rt)))
       else if k = H_ATTEMPTS then Some (PyInt (max att n))
       else dict_get (stamp_error h1 m e c cat san) k)"
    using stamp_failureE [OF stamp] by blast
  show ?thesis
    unfolding copy_facts_def
  proof (intro conjI exI)
    show "header_int (dict_get_or (m_headers m) H_ATTEMPTS (PyInt 0)) = Inr n"
      using n h1 [of H_ATTEMPTS] by (simp add: IDENTITY_def dict_get_or_def)
    show "dict_get (me_headers env) H_ATTEMPTS = Some (PyInt (max att n))"
      using after [of H_ATTEMPTS] h2 [rule_format, of H_ATTEMPTS] by (simp add: IDENTITY_def)
    show "me_message_id env = or_text (m_message_id m)
       (if header_text rt (hget (m_headers m) H_ORIGINAL_MESSAGE_ID) = '''' then rt_uuid_hex rt
        else header_text rt (hget (m_headers m) H_ORIGINAL_MESSAGE_ID))"
      using g0 mid by (simp add: stable_message_id_fst)
    show "dict_get (me_headers env) H_ORIGINAL_MESSAGE_ID =
       (if header_text rt (hget (m_headers m) H_ORIGINAL_MESSAGE_ID) = ''''
        then Some (PyStr (or_text (m_message_id m) (rt_uuid_hex rt)))
        else dict_get (m_headers m) H_ORIGINAL_MESSAGE_ID)"
      using after [of H_ORIGINAL_MESSAGE_ID] h2 [rule_format, of H_ORIGINAL_MESSAGE_ID] h1 [of H_ORIGINAL_MESSAGE_ID]
      by (simp add: IDENTITY_def dict_get_stamped)
    show "dict_get (me_headers env) H_FIRST_FAILED_AT =
       (if parse_iso rt (hget (m_headers m) H_FIRST_FAILED_AT) = None
        then Some (PyStr (rt_iso rt (rt_now rt))) else dict_get (m_headers m) H_FIRST_FAILED_AT)"
      using after [of H_FIRST_FAILED_AT] h2 [rule_format, of H_FIRST_FAILED_AT] h1 [of H_FIRST_FAILED_AT]
      by (simp add: IDENTITY_def dict_get_stamped hget_def dict_get_or_def)
    show "\<forall>k \<in> {H_ORIGINAL_EXCHANGE, H_ORIGINAL_RK, H_ORIGINAL_EXPIRATION}.
        dict_get (m_headers m) k \<noteq> None \<longrightarrow> dict_get (me_headers env) k = dict_get (m_headers m) k"
      using after h2 h1 by (auto simp: IDENTITY_def dict_get_stamped)
  qed
qed

lemma dead_letter_envelopeE:
  assumes "dead_letter_envelope rt m dlq e c cat att san defaults = Inr env"
  obtains h2 where "stamp_failure rt (snd (stable_message_id rt m (fill_defaults defaults (m_headers m)))) m e c
      cat att (rt_iso rt (rt_now rt)) san = Inr h2"
    and "copy_envelope m dlq (dict_set H_DEAD_LETTERED_AT (PyStr (rt_iso rt (rt_now rt))) h2)
      (fst (stable_message_id rt m (fill_defaults defaults (m_headers m)))) = Inr env"
  using assms by (auto simp: dead_letter_envelope_def Let_def split: prod.splits sum.splits)

lemma dead_letter_copy_facts:
  assumes "dead_letter_envelope rt m dlq e c cat att san defaults = Inr env"
    and "fst ` set defaults \<inter> set IDENTITY = {}"
  shows "copy_facts rt m env"
proof -
  obtain h2 where h2: "stamp_failure rt (snd (stable_message_id rt m (fill_defaults defaults (m_headers m)))) m
      e c cat att (rt_iso rt (rt_now rt)) san = Inr h2"
    and env: "copy_envelope m dlq (dict_set H_DEAD_LETTERED_AT (PyStr (rt_iso rt (rt_now rt))) h2)
      (fst (stable_message_id rt m (fill_defaults defaults (m_headers m)))) = Inr env"
    by (rule dead_letter_envelopeE [OF assms(1)])
  show ?thesis
  proof (rule built_copy_facts [OF h2, where hs = "fill_defaults defaults (m_headers m)"])
    fix k assume k: "k \<in> set IDENTITY"
    with assms(2) show "dict_get (fill_defaults defaults (m_headers m)) k = dict_get (m_headers m) k"
      by (intro fill_defaults_get) auto
    from k have "k \<noteq> H_DEAD_LETTERED_AT" by (auto simp: IDENTITY_def)
    then show "dict_get (me_headers env) k = dict_get h2 k"
      using copy_envelopeD(4) [OF env] by simp
  qed (use copy_envelopeD(5) [OF env] in simp_all)
qed

lemma stamp_failure_total:
  assumes "header_int (dict_get_or h H_ATTEMPTS (PyInt 0)) = Inr n"
  shows "\<exists>h'. stamp_failure rt h m e c cat att now san = Inr h'"
  using assms by (simp add: stamp_failure_def Let_def dict_get_or_def dict_get_stamped)

lemma copy_envelope_total: "utf8_len rk \<le> 255 \<Longrightarrow> \<exists>env. copy_envelope m rk h i = Inr env"
  by (simp add: copy_envelope_def) (simp add: utf8_len_def)

lemma dead_letter_envelope_total:
  assumes "header_int (dict_get_or (m_headers m) H_ATTEMPTS (PyInt 0)) = Inr n"
    and "H_ATTEMPTS \<notin> fst ` set defaults" and "utf8_len dlq \<le> 255"
  shows "\<exists>env. dead_letter_envelope rt m dlq e c cat att san defaults = Inr env"
proof -
  let ?s = "stable_message_id rt m (fill_defaults defaults (m_headers m))"
  have "dict_get_or (snd ?s) H_ATTEMPTS (PyInt 0) = dict_get_or (m_headers m) H_ATTEMPTS (PyInt 0)"
    using fill_defaults_get [OF assms(2)] by (simp add: dict_get_or_def stable_message_id_get)
  then obtain h where "stamp_failure rt (snd ?s) m e c cat att (rt_iso rt (rt_now rt)) san = Inr h"
    using stamp_failure_total assms(1) by metis
  then show ?thesis
    using copy_envelope_total [OF assms(3)] by (cases ?s) (simp add: dead_letter_envelope_def Let_def)
qed

text \<open>The identity of a message survives being copied, redelivered and copied again.\<close>

lemma copy_facts_stable:
  assumes first: "copy_facts rt m env" and again: "copy_facts rt' m' env'"
    and headers: "m_headers m' = me_headers env" and mid: "m_message_id m' = Some (me_message_id env)"
    and uuid: "rt_uuid_hex rt \<noteq> ''''"
    and iso: "rt_fromiso rt' (rt_iso rt (rt_now rt)) \<noteq> None" "rt_iso rt (rt_now rt) \<noteq> ''''"
    and clock: "\<And>v. parse_iso rt v \<noteq> None \<Longrightarrow> parse_iso rt' v \<noteq> None"
    and decode: "rt_decode rt' = rt_decode rt"
  shows "me_message_id env' = me_message_id env
    \<and> dict_get (me_headers env') H_ORIGINAL_MESSAGE_ID = dict_get (me_headers env) H_ORIGINAL_MESSAGE_ID
    \<and> dict_get (me_headers env') H_FIRST_FAILED_AT = dict_get (me_headers env) H_FIRST_FAILED_AT
    \<and> (\<exists>a b. dict_get (me_headers env) H_ATTEMPTS = Some (PyInt a)
          \<and> dict_get (me_headers env') H_ATTEMPTS = Some (PyInt b) \<and> max 0 a \<le> b)"
proof -
  have same_text: "header_text rt' v = header_text rt v" for v using decode by (cases v) simp_all
  have nonempty: "me_message_id env \<noteq> ''''"
    using first uuid by (auto simp: copy_facts_def or_text_def split: option.splits if_splits)
  have orig: "header_text rt' (hget (m_headers m') H_ORIGINAL_MESSAGE_ID) \<noteq> ''''"
    using first uuid by (auto simp: copy_facts_def headers hget_def dict_get_or_def same_text or_text_def
        split: option.splits if_splits)
  have stamped: "dict_get (me_headers env) H_FIRST_FAILED_AT =
       (if parse_iso rt (hget (m_headers m) H_FIRST_FAILED_AT) = None
        then Some (PyStr (rt_iso rt (rt_now rt))) else dict_get (m_headers m) H_FIRST_FAILED_AT)"
    using first unfolding copy_facts_def by (elim conjE)
  have seen: "parse_iso rt' (hget (m_headers m') H_FIRST_FAILED_AT) \<noteq> None"
  proof (cases "parse_iso rt (hget (m_headers m) H_FIRST_FAILED_AT) = None")
    case True
    with iso stamped have "hget (m_headers m') H_FIRST_FAILED_AT = PyStr (rt_iso rt (rt_now rt))"
      by (simp add: headers hget_def dict_get_or_def)
    with iso show ?thesis by (simp add: parse_iso_def)
  next
    case False
    with stamped have "hget (m_headers m') H_FIRST_FAILED_AT = hget (m_headers m) H_FIRST_FAILED_AT"
      by (auto simp: headers hget_def dict_get_or_def)
    with clock [OF False] show ?thesis by simp
  qed
  obtain a n where a: "dict_get (me_headers env) H_ATTEMPTS = Some (PyInt (max a n))"
    using first by (auto simp: copy_facts_def)
  obtain b k where b: "header_int (dict_get_or (m_headers m') H_ATTEMPTS (PyInt 0)) = Inr k"
    "dict_get (me_headers env') H_ATTEMPTS = Some (PyInt (max b k))"
    using again by (auto simp: copy_facts_def)
  from a b(1) have k: "k = max 0 (max a n)" by (simp add: headers dict_get_or_def)
  have mid': "me_message_id env' = me_message_id env"
    using again nonempty mid by (simp add: copy_facts_def or_text_def)
  have rest: "dict_get (me_headers env') H_ORIGINAL_MESSAGE_ID = dict_get (me_headers env) H_ORIGINAL_MESSAGE_ID"
    "dict_get (me_headers env') H_FIRST_FAILED_AT = dict_get (me_headers env) H_FIRST_FAILED_AT"
    using again [unfolded copy_facts_def] orig seen unfolding headers [symmetric] by (auto simp only: if_False)
  have "max 0 (max a n) \<le> max b k" using k by simp
  with mid' rest a b(2) show ?thesis by blast
qed

lemma code_for_safe: "code_for s e \<noteq> '''' \<and> list_all code_safe (code_for s e)"
proof -
  have "code_safe CHR ''E''" "code_safe CHR ''r''" "code_safe CHR ''o''"
    by (simp_all add: code_safe_def Let_def)
  then show ?thesis by (auto simp: code_for_def Let_def list_all_iff dest: in_set_takeD)
qed

lemma summary_for_length: "length (summary_for s e) \<le> san_max_summary s"
  by (simp add: summary_for_def)

section \<open>Properties\<close>


definition example_msg :: "'w msg" where
  "example_msg = \<lparr>m_body = ''b'', m_headers = [(''x-rabbitkit-original-queue'', PyStr ''q''), (''trace'', PyStr ''t1'')],
     m_message_id = Some ''id'', m_correlation_id = None, m_reply_to = None, m_content_type = None,
     m_content_encoding = Some ''gzip'', m_timestamp = None, m_type = None, m_app_id = None,
     m_priority = Some 5, m_expiration = Some ''60'', m_user_id = None, m_delivery_mode = Some 2,
     m_routing_key = ''orders'', m_exchange = ''ex'', m_delivery_tag = Some 1, m_redelivered = False,
     m_consumer_tag = None, m_path = [], m_wire_body = ''zzz'', m_wire_content_encoding = Some ''gzip'',
     m_ack_fn = None, m_ack_async_fn = None, m_nack_fn = None, m_nack_async_fn = None,
     m_reject_fn = None, m_reject_async_fn = None, m_disposition = DP_PENDING,
     m_settle_unknown = False, m_metric_once = None, m_channel_alive = None\<rparr>"

definition example_runtime :: runtime where
  "example_runtime = \<lparr>rt_now = 100, rt_iso = (\<lambda>_. ''t''), rt_fromiso = (\<lambda>s. if s = ''t'' then Some 100 else None),
     rt_decode = (\<lambda>b. b), rt_uuid_hex = ''u'', rt_md5 = length, rt_repr = (\<lambda>_. ''?''),
     rt_monotonic = 0, rt_random = 0, rt_infrastructure = []\<rparr>"

definition example_sanitizer :: sanitizer where
  "example_sanitizer = \<lparr>san_policy = ''sanitized'', san_max_summary = 512, san_max_code = 64,
     san_patterns = [], san_allowed_codes = None\<rparr>"

lemmas example_defs = example_msg_def example_runtime_def example_sanitizer_def


end
