(* ===== verification/Rk_Topology.thy ===== *)
theory Rk_Topology
  imports Rk_Strings
begin

text \<open>
  Exchange and queue definitions with their validation (\<^verbatim>\<open>core/topology.py\<close>), the dispatch on the
  topology mode (\<^verbatim>\<open>core/topology_dispatch.py\<close>), named routing-key segments (\<^verbatim>\<open>core/path.py\<close>), quorum
  delivery limits (\<^verbatim>\<open>core/quorum.py\<close>) and reserved headers (\<^verbatim>\<open>core/reserved_headers.py\<close>).

  Fields whose type is an enumeration hold a value of it: the conversion of their string forms in
  the constructors is not modelled, nor are the warnings, which do not change a result.  JSON from
  the management API is a dictionary of header values.
\<close>

section \<open>Exchanges and queues\<close>

datatype dead_letter_strategy = DL_AT_MOST_ONCE | DL_AT_LEAST_ONCE

fun dl_value :: "dead_letter_strategy \<Rightarrow> string" where
  "dl_value DL_AT_MOST_ONCE = ''at-most-once''"
| "dl_value DL_AT_LEAST_ONCE = ''at-least-once''"

fun qt_value :: "queue_type \<Rightarrow> string" where
  "qt_value QT_CLASSIC = ''classic''"
| "qt_value QT_QUORUM = ''quorum''"
| "qt_value QT_STREAM = ''stream''"

fun et_value :: "exchange_type \<Rightarrow> string" where
  "et_value ET_DIRECT = ''direct''"
| "et_value ET_FANOUT = ''fanout''"
| "et_value ET_TOPIC = ''topic''"
| "et_value ET_HEADERS = ''headers''"

definition topology_validation_error :: "string \<Rightarrow> py_exc" where
  "topology_validation_error s =
     mk_exc [''TopologyValidationError'', ''ConfigurationError'', ''ValueError'', ''Exception'', ''BaseException''] s"

text \<open>A sequence of \<^verbatim>\<open>if condition: raise error\<close> statements.\<close>

fun first_error :: "(bool \<times> py_exc) list \<Rightarrow> py_exc + unit" where
  "first_error [] = Inr ()"
| "first_error ((bad, e) # cs) = (if bad then Inl e else first_error cs)"

lemma first_error_ok: "first_error cs = Inr u \<longleftrightarrow> (\<forall>c \<in> set cs. \<not> fst c)"
  by (induction cs rule: first_error.induct) auto

lemma first_error_append:
  "first_error (xs @ ys) = (case first_error xs of Inl e \<Rightarrow> Inl e | Inr _ \<Rightarrow> first_error ys)"
  by (induction xs rule: first_error.induct) auto

definition shortstr_check :: "string \<Rightarrow> string \<Rightarrow> bool \<times> py_exc" where
  "shortstr_check fld s = (utf8_len s > AMQP_SHORTSTR_MAX_BYTES, config_validation_error fld)"

abbreviation topo_check :: "bool \<Rightarrow> string \<Rightarrow> bool \<times> py_exc" where
  "topo_check bad s \<equiv> (bad, topology_validation_error s)"

record exchange =
  ex_name :: string
  ex_type :: exchange_type
  ex_durable :: bool
  ex_auto_delete :: bool
  ex_passive :: bool
  ex_internal :: bool
  ex_arguments :: headers
  ex_bind_to :: "string option"
  ex_bind_arguments :: headers
  ex_routing_key :: string

definition exchange_validate :: "exchange \<Rightarrow> py_exc + unit" where
  "exchange_validate e = first_error
     [topo_check (ex_name e = '''' \<and> ex_type e \<noteq> ET_DIRECT) ''name'',
      topo_check (ex_internal e \<and> ex_auto_delete e) ''internal'',
      shortstr_check ''Exchange name'' (ex_name e),
      shortstr_check ''Exchange routing_key'' (ex_routing_key e)]"

definition args_or_none :: "headers \<Rightarrow> pyval" where
  "args_or_none d = (if d = [] then PyNone else PyDict d)"

definition exchange_declare_kwargs :: "exchange \<Rightarrow> headers" where
  "exchange_declare_kwargs e =
     [(''exchange'', PyStr (ex_name e)), (''exchange_type'', PyStr (et_value (ex_type e))),
      (''durable'', PyBool (ex_durable e)), (''auto_delete'', PyBool (ex_auto_delete e)),
      (''passive'', PyBool (ex_passive e)), (''internal'', PyBool (ex_internal e)),
      (''arguments'', args_or_none (ex_arguments e))]"

definition exchange_bind_kwargs :: "exchange \<Rightarrow> headers option" where
  "exchange_bind_kwargs e =
     (case ex_bind_to e of
        None \<Rightarrow> None
      | Some src \<Rightarrow> Some [(''destination'', PyStr (ex_name e)), (''source'', PyStr src),
          (''routing_key'', PyStr (ex_routing_key e)), (''arguments'', args_or_none (ex_bind_arguments e))])"

record queue =
  rq_name :: string
  rq_durable :: bool
  rq_exclusive :: bool
  rq_passive :: bool
  rq_auto_delete :: bool
  rq_routing_key :: string
  rq_bind_arguments :: headers
  rq_queue_type :: queue_type
  rq_dead_letter_exchange :: "string option"
  rq_dead_letter_routing_key :: "string option"
  rq_message_ttl :: "int option"
  rq_max_length :: "int option"
  rq_max_length_bytes :: "int option"
  rq_consumer_timeout :: "int option"
  rq_lazy :: bool
  rq_max_priority :: "int option"
  rq_delivery_limit :: "int option"
  rq_single_active_consumer :: bool
  rq_quorum_initial_group_size :: "int option"
  rq_dead_letter_strategy :: "dead_letter_strategy option"
  rq_overflow :: "string option"
  rq_expires :: "int option"
  rq_arguments :: headers
  rq_max_age :: "string option"
  rq_stream_max_segment_size_bytes :: "int option"

text \<open>The field defaults of \<^verbatim>\<open>RabbitQueue(name=...)\<close>.\<close>

definition queue_named :: "string \<Rightarrow> queue" where
  "queue_named n = \<lparr>rq_name = n, rq_durable = True, rq_exclusive = False, rq_passive = False,
     rq_auto_delete = False, rq_routing_key = '''', rq_bind_arguments = [], rq_queue_type = QT_CLASSIC,
     rq_dead_letter_exchange = None, rq_dead_letter_routing_key = None, rq_message_ttl = None,
     rq_max_length = None, rq_max_length_bytes = None, rq_consumer_timeout = None, rq_lazy = False,
     rq_max_priority = None, rq_delivery_limit = None, rq_single_active_consumer = False,
     rq_quorum_initial_group_size = None, rq_dead_letter_strategy = None, rq_overflow = None,
     rq_expires = None, rq_arguments = [], rq_max_age = None, rq_stream_max_segment_size_bytes = None\<rparr>"

text \<open>The full match of \<^verbatim>\<open>[1-9][0-9]*[YMDhms]\<close>.\<close>

definition max_age_ok :: "string \<Rightarrow> bool" where
  "max_age_ok s \<longleftrightarrow> 2 \<le> length s \<and> list_all is_ascii_digit (butlast s) \<and> hd s \<noteq> CHR ''0''
     \<and> last s \<in> set ''YMDhms''"

definition quorum_checks :: "queue \<Rightarrow> (bool \<times> py_exc) list" where
  "quorum_checks q = (if rq_queue_type q \<noteq> QT_QUORUM then [] else
     [topo_check (\<not> rq_durable q) ''durable'', topo_check (rq_exclusive q) ''exclusive'',
      topo_check (rq_lazy q) ''lazy'', topo_check (rq_max_priority q \<noteq> None) ''max_priority''])"

definition stream_checks :: "queue \<Rightarrow> (bool \<times> py_exc) list" where
  "stream_checks q = (if rq_queue_type q = QT_STREAM then
     [topo_check (\<not> rq_durable q) ''durable'', topo_check (rq_exclusive q) ''exclusive'',
      topo_check (rq_lazy q) ''lazy'', topo_check (rq_max_priority q \<noteq> None) ''max_priority'',
      topo_check (rq_message_ttl q \<noteq> None) ''message_ttl'',
      topo_check (rq_consumer_timeout q \<noteq> None) ''consumer_timeout'',
      topo_check (rq_dead_letter_exchange q \<noteq> None) ''dead_letter_exchange'',
      topo_check (rq_dead_letter_routing_key q \<noteq> None) ''dead_letter_routing_key'',
      topo_check (rq_max_length q \<noteq> None) ''max_length'',
      topo_check (rq_overflow q \<noteq> None) ''overflow'',
      topo_check (rq_expires q \<noteq> None) ''expires'',
      topo_check (rq_delivery_limit q \<noteq> None) ''delivery_limit'',
      topo_check (rq_single_active_consumer q) ''single_active_consumer'']
   else
     [topo_check (rq_max_age q \<noteq> None) ''max_age'',
      topo_check (rq_stream_max_segment_size_bytes q \<noteq> None) ''stream_max_segment_size_bytes''])"

definition below :: "int \<Rightarrow> int option \<Rightarrow> bool" where
  "below n x \<longleftrightarrow> (case x of None \<Rightarrow> False | Some i \<Rightarrow> i < n)"

definition limit_checks :: "queue \<Rightarrow> (bool \<times> py_exc) list" where
  "limit_checks q =
     [topo_check (case rq_max_age q of None \<Rightarrow> False | Some s \<Rightarrow> \<not> max_age_ok s) ''max_age'',
      topo_check (rq_queue_type q = QT_STREAM \<and> below 1 (rq_max_length_bytes q)) ''max_length_bytes'',
      topo_check (rq_queue_type q = QT_STREAM \<and> below 1 (rq_stream_max_segment_size_bytes q))
        ''stream_max_segment_size_bytes'',
      topo_check (below 1 (rq_consumer_timeout q)) ''consumer_timeout'']"

definition overflow_of :: "queue \<Rightarrow> pyval" where
  "overflow_of q = dict_get_or (rq_arguments q) ''x-overflow''
     (case rq_overflow q of None \<Rightarrow> PyNone | Some s \<Rightarrow> PyStr s)"

definition option_checks :: "queue \<Rightarrow> (bool \<times> py_exc) list" where
  "option_checks q =
     [topo_check (rq_queue_type q = QT_CLASSIC \<and> rq_delivery_limit q \<noteq> None) ''delivery_limit'',
      topo_check (rq_queue_type q \<noteq> QT_QUORUM \<and> rq_quorum_initial_group_size q \<noteq> None)
        ''quorum_initial_group_size'',
      topo_check (rq_queue_type q \<noteq> QT_QUORUM \<and> rq_dead_letter_strategy q \<noteq> None)
        ''dead_letter_strategy'',
      topo_check (below 1 (rq_quorum_initial_group_size q)) ''quorum_initial_group_size'',
      topo_check (rq_dead_letter_strategy q = Some DL_AT_LEAST_ONCE
        \<and> overflow_of q \<noteq> PyStr ''reject-publish'') ''overflow'']"

definition queue_validate :: "queue \<Rightarrow> py_exc + unit" where
  "queue_validate q = first_error
     ([topo_check (rq_name q = '''') ''name'', shortstr_check ''Queue name'' (rq_name q),
       shortstr_check ''Queue routing_key'' (rq_routing_key q)]
      @ quorum_checks q @ stream_checks q @ limit_checks q @ option_checks q)"

definition rabbit_queue :: "queue \<Rightarrow> py_exc + queue" where
  "rabbit_queue q = (case queue_validate q of Inl e \<Rightarrow> Inl e | Inr _ \<Rightarrow> Inr q)"

definition opt_set :: "string \<Rightarrow> ('a \<Rightarrow> pyval) \<Rightarrow> 'a option \<Rightarrow> headers \<Rightarrow> headers" where
  "opt_set k f x d = (case x of None \<Rightarrow> d | Some v \<Rightarrow> dict_set k (f v) d)"

definition flag_set :: "string \<Rightarrow> pyval \<Rightarrow> bool \<Rightarrow> headers \<Rightarrow> headers" where
  "flag_set k v b d = (if b then dict_set k v d else d)"

text \<open>The merged arguments of \<^verbatim>\<open>to_declare_kwargs\<close>: user arguments win.\<close>

definition own_arguments :: "queue \<Rightarrow> headers" where
  "own_arguments q =
     (opt_set ''x-stream-max-segment-size-bytes'' PyInt (rq_stream_max_segment_size_bytes q)
     (opt_set ''x-max-age'' PyStr (rq_max_age q)
     (opt_set ''x-expires'' PyInt (rq_expires q)
     (opt_set ''x-overflow'' PyStr (rq_overflow q)
     (opt_set ''x-dead-letter-strategy'' (\<lambda>s. PyStr (dl_value s)) (rq_dead_letter_strategy q)
     (opt_set ''x-quorum-initial-group-size'' PyInt (rq_quorum_initial_group_size q)
     (flag_set ''x-single-active-consumer'' (PyBool True) (rq_single_active_consumer q)
     (opt_set ''x-delivery-limit'' PyInt (rq_delivery_limit q)
     (opt_set ''x-max-priority'' PyInt (rq_max_priority q)
     (flag_set ''x-queue-mode'' (PyStr ''lazy'') (rq_lazy q)
     (opt_set ''x-consumer-timeout'' PyInt (rq_consumer_timeout q)
     (opt_set ''x-max-length-bytes'' PyInt (rq_max_length_bytes q)
     (opt_set ''x-max-length'' PyInt (rq_max_length q)
     (opt_set ''x-message-ttl'' PyInt (rq_message_ttl q)
     (opt_set ''x-dead-letter-routing-key'' PyStr (rq_dead_letter_routing_key q)
     (opt_set ''x-dead-letter-exchange'' PyStr (rq_dead_letter_exchange q)
       [(''x-queue-type'', PyStr (qt_value (rq_queue_type q)))]))))))))))))))))"

definition declare_arguments :: "queue \<Rightarrow> headers" where
  "declare_arguments q = dict_update_all (own_arguments q) (rq_arguments q)"

definition to_declare_kwargs :: "queue \<Rightarrow> headers" where
  "to_declare_kwargs q =
     [(''queue'', PyStr (rq_name q)), (''durable'', PyBool (rq_durable q)),
      (''exclusive'', PyBool (rq_exclusive q)), (''auto_delete'', PyBool (rq_auto_delete q)),
      (''passive'', PyBool (rq_passive q)), (''arguments'', PyDict (declare_arguments q))]"

definition to_bind_kwargs :: "queue \<Rightarrow> string \<Rightarrow> headers" where
  "to_bind_kwargs q exch =
     [(''queue'', PyStr (rq_name q)), (''exchange'', PyStr exch),
      (''routing_key'', PyStr (rq_routing_key q)), (''arguments'', args_or_none (rq_bind_arguments q))]"

section \<open>Topology modes\<close>

datatype topo_action = TP_SKIP | TP_PASSIVE | TP_DECLARE

definition exchange_action :: "topology_mode \<Rightarrow> exchange \<Rightarrow> topo_action" where
  "exchange_action mode e =
     (if mode = TM_MANUAL then TP_SKIP
      else if mode = TM_PASSIVE_ONLY \<or> ex_passive e then TP_PASSIVE else TP_DECLARE)"

definition queue_action :: "topology_mode \<Rightarrow> queue \<Rightarrow> topo_action" where
  "queue_action mode q =
     (if mode = TM_MANUAL then TP_SKIP
      else if mode = TM_PASSIVE_ONLY \<or> rq_passive q then TP_PASSIVE else TP_DECLARE)"

definition binding_action :: "topology_mode \<Rightarrow> topo_action" where
  "binding_action mode = (if mode \<noteq> TM_AUTO_DECLARE then TP_SKIP else TP_DECLARE)"

definition configuration_error :: "string \<Rightarrow> py_exc" where
  "configuration_error s = mk_exc [''ConfigurationError'', ''Exception'', ''BaseException''] s"

definition check_public_topology_write :: "topology_mode \<Rightarrow> string \<Rightarrow> bool \<Rightarrow> py_exc + unit" where
  "check_public_topology_write mode operation is_passive =
     (if mode = TM_AUTO_DECLARE then Inr ()
      else if mode = TM_PASSIVE_ONLY \<and> is_passive then Inr ()
      else Inl (configuration_error operation))"

section \<open>Named routing-key segments\<close>

definition is_named :: "string \<Rightarrow> bool" where
  "is_named s \<longleftrightarrow> 2 < length s \<and> hd s = CHR ''{'' \<and> last s = CHR ''}''"

definition seg_name :: "string \<Rightarrow> string" where
  "seg_name s = butlast (tl s)"

definition to_binding_key :: "string \<Rightarrow> string" where
  "to_binding_key rk =
     (if CHR ''{'' \<notin> set rk then rk
      else join ''.'' (map (\<lambda>s. if is_named s then ''*'' else s) (split_on CHR ''.'' rk)))"

fun extract_loop :: "string list \<Rightarrow> string list \<Rightarrow> (string, string) dict \<Rightarrow> (string, string) dict" where
  "extract_loop (seg # segs) (a # actual) out =
     (if seg = ''#'' then out
      else extract_loop segs actual (if is_named seg then dict_set (seg_name seg) a out else out))"
| "extract_loop _ _ out = out"

definition extract_path :: "string \<Rightarrow> string \<Rightarrow> (string, string) dict" where
  "extract_path actual pattern =
     (if CHR ''{'' \<notin> set pattern then []
      else extract_loop (split_on CHR ''.'' pattern) (split_on CHR ''.'' actual) [])"

section \<open>Quorum delivery limits\<close>

definition DEFAULT_DELIVERY_LIMIT_4X :: int where
  "DEFAULT_DELIVERY_LIMIT_4X = 20"

definition unsafe_to_browse_error :: "string \<Rightarrow> py_exc" where
  "unsafe_to_browse_error s = mk_exc [''UnsafeToBrowseError'', ''RuntimeError'', ''Exception'', ''BaseException''] s"

definition broker_major_version :: "string option \<Rightarrow> py_exc + int option" where
  "broker_major_version version =
     (case version of
        None \<Rightarrow> Inr None
      | Some v \<Rightarrow>
         if v = '''' then Inr None
         else let h = before CHR ''.'' (strip is_space v)
              in if isdigit h then (case py_int (PyStr h) of Inl e \<Rightarrow> Inl e | Inr i \<Rightarrow> Inr (Some i))
                 else Inr None)"

definition dlq_delivery_limit :: "string option \<Rightarrow> py_exc + int option" where
  "dlq_delivery_limit version =
     (case broker_major_version version of
        Inl e \<Rightarrow> Inl e
      | Inr (Some major) \<Rightarrow> Inr (if major \<ge> 4 then Some (- 1) else None)
      | Inr None \<Rightarrow> Inr None)"

text \<open>\<^verbatim>\<open>d.get(key) or {}\<close> for a value that is an object or null.\<close>

definition sub_dict :: "headers \<Rightarrow> string \<Rightarrow> headers" where
  "sub_dict d k = (case dict_get d k of Some (PyDict e) \<Rightarrow> e | _ \<Rightarrow> [])"

definition is_quorum :: "headers \<Rightarrow> bool" where
  "is_quorum info \<longleftrightarrow>
     (let t = dict_get_or info ''type'' PyNone
      in (if truthy t then t else dict_get_or (sub_dict info ''arguments'') ''x-queue-type'' PyNone)
         = PyStr ''quorum'')"

definition assert_whole_scan :: "string \<Rightarrow> headers \<Rightarrow> int \<Rightarrow> py_exc + unit" where
  "assert_whole_scan q info max_scan =
     (let v = dict_get_or info ''messages_ready'' (dict_get_or info ''messages'' (PyInt 0))
      in case py_int (if truthy v then v else PyInt 0) of
           Inl e \<Rightarrow> Inl e
         | Inr ready \<Rightarrow> if ready > max_scan then Inl (unsafe_to_browse_error q) else Inr ())"

fun all_ints :: "pyval list \<Rightarrow> py_exc + int list" where
  "all_ints [] = Inr []"
| "all_ints (v # vs) =
     (case py_int v of
        Inl e \<Rightarrow> Inl e
      | Inr i \<Rightarrow> (case all_ints vs of Inl e \<Rightarrow> Inl e | Inr is \<Rightarrow> Inr (i # is)))"

definition effective_delivery_limit :: "headers \<Rightarrow> string option \<Rightarrow> py_exc + int option" where
  "effective_delivery_limit info version =
     (if \<not> is_quorum info then Inr None
      else case all_ints (filter (\<lambda>v. v \<noteq> PyNone)
               [dict_get_or (sub_dict info ''arguments'') ''x-delivery-limit'' PyNone,
                dict_get_or (sub_dict info ''effective_policy_definition'') ''delivery-limit'' PyNone]) of
        Inl e \<Rightarrow> Inl e
      | Inr vals \<Rightarrow>
         (case broker_major_version version of
            Inl e \<Rightarrow> Inl e
          | Inr major \<Rightarrow>
             Inr (if (case major of None \<Rightarrow> False | Some n \<Rightarrow> n < 4)
                  then (if vals = [] then None else Some (max 0 (Min (set vals))))
                  else let limits = filter (\<lambda>v. v \<ge> 0) vals
                       in if limits \<noteq> [] then Some (Min (set limits))
                          else if vals \<noteq> [] then None else Some DEFAULT_DELIVERY_LIMIT_4X)))"

definition assert_browsable :: "string \<Rightarrow> headers \<Rightarrow> string option \<Rightarrow> py_exc + unit" where
  "assert_browsable q info version =
     (if \<not> is_quorum info then Inr ()
      else case broker_major_version version of
        Inl e \<Rightarrow> Inl e
      | Inr None \<Rightarrow> Inl (unsafe_to_browse_error q)
      | Inr (Some _) \<Rightarrow>
          if \<not> dict_has info ''messages'' then Inl (unsafe_to_browse_error q)
          else case effective_delivery_limit info version of
                 Inl e \<Rightarrow> Inl e
               | Inr None \<Rightarrow> Inr ()
               | Inr (Some _) \<Rightarrow> Inl (unsafe_to_browse_error q))"

section \<open>Reserved headers\<close>

definition RESERVED_HEADERS :: "string list" where
  "RESERVED_HEADERS =
     [''x-death'', ''x-rabbitkit-retry-count'', ''x-rabbitkit-attempts'', ''x-rabbitkit-first-failed-at'',
      ''x-rabbitkit-last-failed-at'', ''x-rabbitkit-original-queue'', ''x-rabbitkit-original-exchange'',
      ''x-rabbitkit-original-routing-key'', ''x-rabbitkit-original-message-id'',
      ''x-rabbitkit-original-expiration'', ''x-rabbitkit-error'', ''x-rabbitkit-error-category'',
      ''x-rabbitkit-error-class'', ''x-rabbitkit-error-message'', ''x-rabbitkit-error-type'',
      ''x-rabbitkit-failure-category'', ''x-rabbitkit-dead-lettered-at'', ''x-rabbitkit-replay-count'',
      ''x-rabbitkit-replayed-at'', ''x-rabbitkit-replayed-by'', ''x-rabbitkit-previous-retry-count'']"

definition strip_reserved_headers :: "headers \<Rightarrow> string list \<Rightarrow> headers option" where
  "strip_reserved_headers h extra =
     (if \<not> list_ex (\<lambda>k. k \<in> set RESERVED_HEADERS \<or> k \<in> set extra) (dict_keys h) then None
      else Some (filter (\<lambda>(k, v). k \<notin> set RESERVED_HEADERS \<and> k \<notin> set extra) h))"

record header_stripper =
  hs_extra :: "string list"
  hs_warned :: "string list"

definition stripper_init :: "string list \<Rightarrow> header_stripper" where
  "stripper_init extra = \<lparr>hs_extra = filter (\<lambda>k. k \<notin> set RESERVED_HEADERS) (remdups extra), hs_warned = []\<rparr>"

text \<open>\<open>hs_warned\<close> is the set of names already logged, as a list.\<close>

definition stripper_call :: "header_stripper \<Rightarrow> envelope \<Rightarrow> envelope \<times> header_stripper" where
  "stripper_call s e =
     (case strip_reserved_headers (me_headers e) (hs_extra s) of
        None \<Rightarrow> (e, s)
      | Some h \<Rightarrow>
         (let removed = filter (\<lambda>k. k \<notin> set (dict_keys h) \<and> k \<notin> set (hs_warned s)) (dict_keys (me_headers e))
          in (e\<lparr>me_headers := h\<rparr>, s\<lparr>hs_warned := hs_warned s @ removed\<rparr>)))"

section \<open>Lemmas\<close>

lemma dict_get_opt_set [simp]:
  "dict_get (opt_set k f x d) k' = (if k' = k \<and> x \<noteq> None then map_option f x else dict_get d k')"
  by (auto simp: opt_set_def split: option.split)

lemma dict_get_flag_set [simp]:
  "dict_get (flag_set k v b d) k' = (if k' = k \<and> b then Some v else dict_get d k')"
  by (simp add: flag_set_def)

lemma dict_get_filter_key:
  "dict_get (filter (\<lambda>(k, v). P k) d) k = (if P k then dict_get d k else None)"
  by (induction d) auto

lemma extract_loop_other:
  assumes "\<forall>j < min (length segs) (length actual).
      is_named (segs ! j) \<longrightarrow> ''#'' \<notin> set (take j segs) \<longrightarrow> seg_name (segs ! j) \<noteq> n"
  shows "dict_get (extract_loop segs actual out) n = dict_get out n"
  using assms
proof (induction segs actual out rule: extract_loop.induct)
  case (1 seg segs a actual out)
  show ?case
  proof (cases "seg = ''#''")
    case False
    have "\<forall>j < min (length segs) (length actual).
        is_named (segs ! j) \<longrightarrow> ''#'' \<notin> set (take j segs) \<longrightarrow> seg_name (segs ! j) \<noteq> n"
      using "1.prems" False by (auto dest: spec [of _ "Suc _"])
    with "1.IH" [OF False] have "dict_get (extract_loop (seg # segs) (a # actual) out) n
        = dict_get (if is_named seg then dict_set (seg_name seg) a out else out) n"
      using False by simp
    moreover have "is_named seg \<Longrightarrow> seg_name seg \<noteq> n" using "1.prems" by (auto dest: spec [of _ 0])
    ultimately show ?thesis by auto
  qed simp
qed simp_all

lemma extract_loop_at:
  assumes "i < length segs" "i < length actual" "is_named (segs ! i)" "''#'' \<notin> set (take i segs)"
    and "\<forall>j < min (length segs) (length actual). i < j \<longrightarrow>
      is_named (segs ! j) \<longrightarrow> ''#'' \<notin> set (take j segs) \<longrightarrow> seg_name (segs ! j) \<noteq> seg_name (segs ! i)"
  shows "dict_get (extract_loop segs actual out) (seg_name (segs ! i)) = Some (actual ! i)"
  using assms
proof (induction segs actual out arbitrary: i rule: extract_loop.induct)
  case (1 seg segs a actual out)
  have hash: "seg \<noteq> ''#''"
    using "1.prems"(3,4) by (cases i) (auto simp: is_named_def)
  show ?case
  proof (cases i)
    case 0
    have "\<forall>j < min (length segs) (length actual).
        is_named (segs ! j) \<longrightarrow> ''#'' \<notin> set (take j segs) \<longrightarrow> seg_name (segs ! j) \<noteq> seg_name seg"
      using "1.prems"(5) hash 0 by (auto dest: spec [of _ "Suc _"])
    with extract_loop_other [of segs actual "seg_name seg" "dict_set (seg_name seg) a out"] hash 0 "1.prems"(3)
    show ?thesis by simp
  next
    case (Suc k)
    have "\<forall>j < min (length segs) (length actual). k < j \<longrightarrow>
        is_named (segs ! j) \<longrightarrow> ''#'' \<notin> set (take j segs) \<longrightarrow> seg_name (segs ! j) \<noteq> seg_name (segs ! k)"
      using "1.prems"(5) hash Suc by (auto dest: spec [of _ "Suc _"])
    with "1.IH" [OF hash, of k] "1.prems" Suc hash show ?thesis by simp
  qed
qed simp_all

lemma join_part: "s \<in> set ws \<Longrightarrow> set s \<subseteq> set (join sep ws)"
  by (induction sep ws rule: join.induct) auto

lemma split_to_binding_key:
  "split_on CHR ''.'' (to_binding_key rk) = map (\<lambda>s. if is_named s then ''*'' else s) (split_on CHR ''.'' rk)"
proof (cases "CHR ''{'' \<in> set rk")
  case True
  have "split_on CHR ''.'' (join [CHR ''.''] (map (\<lambda>s. if is_named s then ''*'' else s) (split_on CHR ''.'' rk)))
      = map (\<lambda>s. if is_named s then ''*'' else s) (split_on CHR ''.'' rk)"
    by (rule split_on_join) (auto dest: split_on_parts)
  with True show ?thesis by (simp add: to_binding_key_def)
next
  case False
  have "\<not> is_named s" if "s \<in> set (split_on CHR ''.'' rk)" for s
  proof
    assume n: "is_named s"
    then obtain r where s: "s = CHR ''{'' # r" by (cases s) (auto simp: is_named_def)
    have "set s \<subseteq> set (join ''.'' (split_on CHR ''.'' rk))" using that by (rule join_part)
    with False s show False by (simp add: join_split_on)
  qed
  then show ?thesis using False by (simp add: to_binding_key_def map_idI)
qed

lemma own_arguments_get:
  "dict_get (own_arguments q) ''x-delivery-limit'' = map_option PyInt (rq_delivery_limit q)"
  "dict_get (own_arguments q) ''x-quorum-initial-group-size'' = map_option PyInt (rq_quorum_initial_group_size q)"
  "dict_get (own_arguments q) ''x-dead-letter-strategy'' = map_option (\<lambda>s. PyStr (dl_value s)) (rq_dead_letter_strategy q)"
  "dict_get (own_arguments q) ''x-max-age'' = map_option PyStr (rq_max_age q)"
  "dict_get (own_arguments q) ''x-stream-max-segment-size-bytes'' = map_option PyInt (rq_stream_max_segment_size_bytes q)"
  "dict_get (own_arguments q) ''x-queue-mode'' = (if rq_lazy q then Some (PyStr ''lazy'') else None)"
  "dict_get (own_arguments q) ''x-max-priority'' = map_option PyInt (rq_max_priority q)"
  "dict_get (own_arguments q) ''x-message-ttl'' = map_option PyInt (rq_message_ttl q)"
  "dict_get (own_arguments q) ''x-consumer-timeout'' = map_option PyInt (rq_consumer_timeout q)"
  "dict_get (own_arguments q) ''x-dead-letter-exchange'' = map_option PyStr (rq_dead_letter_exchange q)"
  "dict_get (own_arguments q) ''x-dead-letter-routing-key'' = map_option PyStr (rq_dead_letter_routing_key q)"
  "dict_get (own_arguments q) ''x-max-length'' = map_option PyInt (rq_max_length q)"
  "dict_get (own_arguments q) ''x-overflow'' = map_option PyStr (rq_overflow q)"
  "dict_get (own_arguments q) ''x-expires'' = map_option PyInt (rq_expires q)"
  "dict_get (own_arguments q) ''x-single-active-consumer'' = (if rq_single_active_consumer q then Some (PyBool True) else None)"
  "dict_get (own_arguments q) ''x-queue-type'' = Some (PyStr (qt_value (rq_queue_type q)))"
  by (simp_all add: own_arguments_def)

text \<open>The arguments a queue of each type must not be declared with.\<close>

fun forbidden_arguments :: "queue_type \<Rightarrow> string list" where
  "forbidden_arguments QT_CLASSIC =
     [''x-delivery-limit'', ''x-quorum-initial-group-size'', ''x-dead-letter-strategy'', ''x-max-age'',
      ''x-stream-max-segment-size-bytes'']"
| "forbidden_arguments QT_QUORUM =
     [''x-queue-mode'', ''x-max-priority'', ''x-max-age'', ''x-stream-max-segment-size-bytes'']"
| "forbidden_arguments QT_STREAM =
     [''x-queue-mode'', ''x-max-priority'', ''x-message-ttl'', ''x-consumer-timeout'',
      ''x-dead-letter-exchange'', ''x-dead-letter-routing-key'', ''x-max-length'', ''x-overflow'',
      ''x-expires'', ''x-delivery-limit'', ''x-single-active-consumer'', ''x-quorum-initial-group-size'',
      ''x-dead-letter-strategy'']"

lemma rabbit_queue_ok:
  "rabbit_queue q = Inr q' \<longleftrightarrow> q' = q \<and> rq_name q \<noteq> '''' \<and> utf8_len (rq_name q) \<le> 255
     \<and> utf8_len (rq_routing_key q) \<le> 255
     \<and> (\<forall>c \<in> set (quorum_checks q @ stream_checks q @ limit_checks q @ option_checks q). \<not> fst c)"
proof -
  have "rabbit_queue q = Inr q' \<longleftrightarrow> q' = q \<and> queue_validate q = Inr ()"
    by (cases "queue_validate q") (auto simp: rabbit_queue_def)
  then show ?thesis
    unfolding queue_validate_def first_error_ok
    by (auto simp: shortstr_check_def AMQP_SHORTSTR_MAX_BYTES_def not_less)
qed

section \<open>Properties\<close>


text \<open>C37: named routing-key segments are bound and extracted consistently.  The binding key has one
  word per segment of the pattern, a wildcard exactly where the pattern names a segment, so it names
  none itself; and a delivered key yields for every named segment ahead of a hash the word at that
  segment's own position (the last one, where a name is repeated).\<close>

theorem path_segments_extracted:
  assumes "split_on CHR ''.'' pattern = segs" "split_on CHR ''.'' key = words"
    and "i < length segs" "i < length words" "is_named (segs ! i)" "''#'' \<notin> set (take i segs)"
    and "\<forall>j < length segs. i < j \<longrightarrow> is_named (segs ! j) \<longrightarrow> seg_name (segs ! j) \<noteq> seg_name (segs ! i)"
  shows "dict_get (extract_path key pattern) (seg_name (segs ! i)) = Some (words ! i)
    \<and> split_on CHR ''.'' (to_binding_key pattern) = map (\<lambda>s. if is_named s then ''*'' else s) segs
    \<and> to_binding_key (to_binding_key pattern) = to_binding_key pattern"
proof -
  have brace: "CHR ''{'' \<in> set pattern"
  proof -
    have "CHR ''{'' \<in> set (segs ! i)" using assms(5) by (cases "segs ! i") (auto simp: is_named_def)
    moreover have "set (segs ! i) \<subseteq> set (join ''.'' segs)" using assms(3) by (intro join_part) simp
    ultimately show ?thesis using join_split_on [of "CHR ''.''" pattern] assms(1) by auto
  qed
  have star: "\<not> is_named ''*''" by (simp add: is_named_def)
  have sp: "split_on CHR ''.'' (to_binding_key pattern) = map (\<lambda>s. if is_named s then ''*'' else s) segs"
    using split_to_binding_key assms(1) by simp
  have "split_on CHR ''.'' (to_binding_key (to_binding_key pattern))
      = split_on CHR ''.'' (to_binding_key pattern)"
    using sp star by (simp add: split_to_binding_key)
  then have "to_binding_key (to_binding_key pattern) = to_binding_key pattern"
    by (metis join_split_on)
  moreover have "dict_get (extract_path key pattern) (seg_name (segs ! i)) = Some (words ! i)"
    using extract_loop_at [of i segs words "[]"] assms brace by (simp add: extract_path_def)
  ultimately show ?thesis using sp by simp
qed

text \<open>C38: a queue that passes the browse check can be peeked without losing messages.  Either it is not a
  quorum queue, or the broker version is known and neither the queue's argument nor its policy nor
  the broker's default limits deliveries: on a version before 4 no limit is configured at all, from
  4 on some source is configured and every configured value is negative.\<close>

theorem browsable_has_no_limit:
  assumes "assert_browsable q info version = Inr ()" "is_quorum info"
  shows "\<exists>major vals. broker_major_version version = Inr (Some major)
    \<and> all_ints (filter (\<lambda>v. v \<noteq> PyNone)
        [dict_get_or (sub_dict info ''arguments'') ''x-delivery-limit'' PyNone,
         dict_get_or (sub_dict info ''effective_policy_definition'') ''delivery-limit'' PyNone]) = Inr vals
    \<and> (if major < 4 then vals = [] else vals \<noteq> [] \<and> (\<forall>v \<in> set vals. v < 0))"
  using assms
  by (auto simp: assert_browsable_def effective_delivery_limit_def Let_def filter_empty_conv not_le
      split: sum.splits option.splits if_splits)

theorem browsable_has_no_limit_witness:
  "assert_browsable ''q'' [(''type'', PyStr ''quorum''), (''messages'', PyInt 3),
      (''arguments'', PyDict [(''x-delivery-limit'', PyInt (- 1))])] (Some ''4'') = Inr ()
   \<and> (\<exists>major. broker_major_version (Some ''4'') = Inr (Some major) \<and> major \<ge> 4)"
proof -
  let ?info = "[(''type'', PyStr ''quorum''), (''messages'', PyInt 3),
      (''arguments'', PyDict [(''x-delivery-limit'', PyInt (- 1))])]"
  have v: "broker_major_version (Some ''4'') = Inr (Some 4)"
    by (simp add: broker_major_version_def before_def strip_def is_space_def isdigit_def isdigit_char_def
        is_ascii_digit_def int_of_text_def int_of_stripped_def is_int_space_def is_ascii_space_def
        digits_value_def INT_MAX_STR_DIGITS_def or_value_error_def Let_def)
  have b: "assert_browsable ''q'' ?info (Some ''4'') = Inr ()" and t: "is_quorum ?info"
    by (simp_all add: assert_browsable_def is_quorum_def effective_delivery_limit_def sub_dict_def v
        dict_get_or_def dict_has_def Let_def)
  from browsable_has_no_limit [OF b t] b show ?thesis
    by (auto simp: sub_dict_def dict_get_or_def split: if_splits)
qed


theorem path_segments_extracted_witness:
  "dict_get (extract_path ''events.warn.x'' ''events.{level}.#'') ''level'' = Some ''warn''"
proof -
  let ?segs = "[''events'', ''{level}'', ''#'']" and ?words = "[''events'', ''warn'', ''x'']"
  have "dict_get (extract_path ''events.warn.x'' ''events.{level}.#'') (seg_name (?segs ! 1)) = Some (?words ! 1)"
    using path_segments_extracted [of "''events.{level}.#''" ?segs "''events.warn.x''" ?words 1]
    by (simp add: is_named_def less_Suc_eq numeral_2_eq_2 numeral_3_eq_3)
  then show ?thesis by (simp add: seg_name_def)
qed

end
