(* ===== verification/Rk_Retry.thy ===== *)
theory Rk_Retry
  imports Rk_Handoff Rk_FailureCopy Rk_Topology
begin

text \<open>
  \<^verbatim>\<open>RetryMiddleware\<close> and \<^verbatim>\<open>RetryRouter\<close> (\<^verbatim>\<open>middleware/retry.py\<close>): the decision to retry, the delay-queue
  copy, the terminal dead-letter copy, and the topology of delay queues they publish into.

  An operation of the middleware acts on the middleware object, the message and the world.  The
  publish functions, the hooks, the metrics collector and \<^verbatim>\<open>asyncio.sleep\<close> are functions on the
  world that may raise.  Log lines and warnings are left out.
\<close>

section \<open>Names and headers\<close>

definition SETTLEMENT_SIGNALS :: "string list" where
  "SETTLEMENT_SIGNALS = [''AckMessage'', ''NackMessage'', ''RejectMessage'']"

text \<open>Text interpolation of a header value (\<^verbatim>\<open>str(value)\<close>).\<close>

definition py_str :: "runtime \<Rightarrow> pyval \<Rightarrow> string" where
  "py_str rt v = (case v of PyStr s \<Rightarrow> s | _ \<Rightarrow> rt_repr rt v)"

definition retry_prefix :: "string \<Rightarrow> string" where
  "retry_prefix q = q @ ''.retry.''"

fun xdeath_loop :: "runtime \<Rightarrow> string \<Rightarrow> pyval list \<Rightarrow> int \<Rightarrow> py_exc + int" where
  "xdeath_loop rt pre [] fl = Inr fl"
| "xdeath_loop rt pre (PyDict death # deaths) fl =
     (let q = header_text rt (hget death ''queue'')
      in if \<not> startswith q pre then xdeath_loop rt pre deaths fl
         else let tier = before CHR ''.'' (drop (length pre) q)
              in if isdigit tier
                 then (case py_int (PyStr tier) of
                         Inl e \<Rightarrow> Inl e
                       | Inr n \<Rightarrow> xdeath_loop rt pre deaths (max fl n))
                 else xdeath_loop rt pre deaths fl)"
| "xdeath_loop rt pre (_ # deaths) fl = xdeath_loop rt pre deaths fl"

definition xdeath_retry_floor :: "runtime \<Rightarrow> headers \<Rightarrow> string \<Rightarrow> py_exc + int" where
  "xdeath_retry_floor rt h source_queue =
     (case hget h ''x-death'' of
        PyList deaths \<Rightarrow> xdeath_loop rt (retry_prefix source_queue) deaths 0
      | _ \<Rightarrow> Inr 0)"

definition is_timeout :: "py_exc \<Rightarrow> bool" where
  "is_timeout e \<longleftrightarrow> isinstance e [''TimeoutError'']"

definition outcome_ok :: "publish_outcome option \<Rightarrow> bool" where
  "outcome_ok o' \<longleftrightarrow> (case o' of None \<Rightarrow> False | Some p \<Rightarrow> po_ok p)"

definition shard_index :: "runtime \<Rightarrow> string \<Rightarrow> int \<Rightarrow> int" where
  "shard_index rt message_id shards = (if message_id = '''' then 0 else int (rt_md5 rt message_id) mod shards)"

definition shard_queue_name :: "string \<Rightarrow> int \<Rightarrow> int \<Rightarrow> string" where
  "shard_queue_name q attempt shard =
     (let base = retry_prefix q @ str_int attempt
      in if shard = 0 then base else base @ ''.s'' @ str_int shard)"

definition shard_ttl_multipliers :: "int \<Rightarrow> real \<Rightarrow> real list" where
  "shard_ttl_multipliers shards jf =
     (if shards = 2 then [1, 1 + jf]
      else let rest = shards - 1
           in 1 # map (\<lambda>i. 1 + jf * (- 1 + 2 * real i / (real_of_int rest - 1))) [0..<nat rest])"

text \<open>The position of an auto-wired retry middleware: after the leading exception middlewares.\<close>

fun retry_middleware_insertion_index :: "('m \<Rightarrow> bool) \<Rightarrow> 'm list \<Rightarrow> nat" where
  "retry_middleware_insertion_index is_exc [] = 0"
| "retry_middleware_insertion_index is_exc (mw # mws) =
     (if is_exc mw then Suc (retry_middleware_insertion_index is_exc mws) else 0)"

section \<open>The middleware object\<close>

type_synonym 'w publish_fn = "envelope \<Rightarrow> ('w, py_exc, publish_outcome option) act"

record metrics_names =
  mn_messages_retried_total :: "string option"
  mn_messages_dead_lettered_total :: "string option"
  mn_retry_handoff_failures_total :: "string option"
  mn_retry_handoff_paused :: string

record 'w metrics_collector =
  mc_inc_counter :: "string \<Rightarrow> (string, string) dict \<Rightarrow> ('w, py_exc, unit) act"
  mc_set_gauge :: "(string \<Rightarrow> (string, string) dict \<Rightarrow> real \<Rightarrow> ('w, py_exc, unit) act) option"

record 'w retry_mw =
  rw_config :: retry_config
  rw_sanitizer :: sanitizer
  rw_handoff :: handoff_tracker
  rw_on_handoff_failure :: "(real \<Rightarrow> handoff_tracker \<Rightarrow> ('w, py_exc, unit) act) option"
  rw_on_handoff_exhausted :: "(handoff_tracker \<Rightarrow> ('w, py_exc, unit) act) option"
  rw_sleep_on_handoff_failure :: bool
  rw_exhausted_logged :: bool
  rw_classifier :: error_classifier
  rw_publish_fn :: "'w publish_fn option"
  rw_publish_async_fn :: "'w publish_fn option"
  rw_metrics_collector :: "'w metrics_collector option"
  rw_metrics_config :: "metrics_names option"
  rw_sleep :: "real \<Rightarrow> ('w, py_exc, unit) act"

definition ensure_publish_fns :: "'w publish_fn option \<Rightarrow> 'w publish_fn option \<Rightarrow> 'w retry_mw \<Rightarrow> 'w retry_mw" where
  "ensure_publish_fns fn afn mw = mw\<lparr>
     rw_publish_fn := (case rw_publish_fn mw of None \<Rightarrow> fn | Some f \<Rightarrow> Some f),
     rw_publish_async_fn := (case rw_publish_async_fn mw of None \<Rightarrow> afn | Some f \<Rightarrow> Some f)\<rparr>"

text \<open>The state of an operation, and the operations of its parts.\<close>

type_synonym 'w rstate = "'w retry_mw \<times> 'w msg \<times> 'w"

definition on_msg :: "('w msg \<times> 'w, py_exc, 'a) act \<Rightarrow> ('w rstate, py_exc, 'a) act" where
  "on_msg f = (\<lambda>(mw, m, w). case f (m, w) of (r, (m', w')) \<Rightarrow> (r, (mw, m', w')))"

definition on_world :: "('w, py_exc, 'a) act \<Rightarrow> ('w rstate, py_exc, 'a) act" where
  "on_world f = (\<lambda>(mw, m, w). case f w of (r, w') \<Rightarrow> (r, (mw, m, w')))"

definition pending_msg :: "'w rstate \<Rightarrow> bool" where
  "pending_msg s \<longleftrightarrow> \<not> is_settled (fst (snd s))"

definition metric_queue :: "runtime \<Rightarrow> 'w msg \<Rightarrow> string" where
  "metric_queue rt m =
     (let v = hget (m_headers m) H_ORIGINAL_QUEUE
      in if truthy v then py_str rt v else if m_routing_key m \<noteq> '''' then m_routing_key m else ''unknown'')"

definition record_metric ::
    "runtime \<Rightarrow> string option \<Rightarrow> error_category option \<Rightarrow> ('w rstate, py_exc, unit) act" where
  "record_metric rt name category = (\<lambda>(mw, m, w).
     case (rw_metrics_collector mw, name) of
       (Some mc, Some n) \<Rightarrow>
         on_world (mc_inc_counter mc n ((''queue'', metric_queue rt m)
           # (case category of None \<Rightarrow> [] | Some c \<Rightarrow> [(''category'', ec_value c)]))) (mw, m, w)
     | _ \<Rightarrow> (Inr (), (mw, m, w)))"

definition set_paused_gauge :: "runtime \<Rightarrow> real \<Rightarrow> ('w rstate, py_exc, unit) act" where
  "set_paused_gauge rt x = (\<lambda>(mw, m, w).
     case (rw_metrics_collector mw, rw_metrics_config mw) of
       (Some mc, Some mn) \<Rightarrow>
         (case mc_set_gauge mc of
            None \<Rightarrow> (Inr (), (mw, m, w))
          | Some g \<Rightarrow> on_world (g (mn_retry_handoff_paused mn) [(''queue'', metric_queue rt m)] x) (mw, m, w))
     | _ \<Rightarrow> (Inr (), (mw, m, w)))"

definition with_metrics :: "(metrics_names \<Rightarrow> ('w rstate, py_exc, unit) act) \<Rightarrow> ('w rstate, py_exc, unit) act" where
  "with_metrics f s = (case rw_metrics_config (fst s) of None \<Rightarrow> (Inr (), s) | Some mn \<Rightarrow> f mn s)"

text \<open>What a failed hand-off sets off once the tracker \<open>t\<close> has counted it: metrics, the log latch and
  the two hooks.\<close>

definition handoff_failure_effects ::
    "runtime \<Rightarrow> 'w retry_mw \<Rightarrow> handoff_tracker \<Rightarrow> bool \<Rightarrow> real \<Rightarrow> ('w rstate, py_exc, real) act" where
  "handoff_failure_effects rt mw t is_exhausted backoff =
     act_bind (with_metrics (\<lambda>mn. act_bind (record_metric rt (mn_retry_handoff_failures_total mn) None)
                 (\<lambda>_. set_paused_gauge rt 1))) (\<lambda>_.
     act_bind (act_upd (\<lambda>(mw, s). (mw\<lparr>rw_exhausted_logged := rw_exhausted_logged mw \<or> is_exhausted\<rparr>, s))) (\<lambda>_.
     act_bind (case rw_on_handoff_failure mw of None \<Rightarrow> act_ret ()
               | Some h \<Rightarrow> guarded_hook (on_world (h backoff t))) (\<lambda>_.
     act_bind (if \<not> is_exhausted then act_ret () else
               case rw_on_handoff_exhausted mw of None \<Rightarrow> act_ret ()
               | Some h \<Rightarrow> guarded_hook (on_world (h t))) (\<lambda>_.
     act_ret backoff))))"

definition record_handoff_failure :: "runtime \<Rightarrow> ('w rstate, py_exc, real) act" where
  "record_handoff_failure rt = (\<lambda>(mw, m, w).
     case record_failure (rt_monotonic rt) (rt_random rt) (rw_handoff mw) of (backoff0, t) \<Rightarrow>
       let is_exhausted = (tracker_state (rt_monotonic rt) t = HS_EXHAUSTED);
           backoff = (if is_exhausted then hc_backoff_max (ht_config t) else backoff0)
       in handoff_failure_effects rt mw t is_exhausted backoff (mw\<lparr>rw_handoff := t\<rparr>, m, w))"

definition record_handoff_success :: "runtime \<Rightarrow> ('w rstate, py_exc, unit) act" where
  "record_handoff_success rt = (\<lambda>(mw, m, w).
     let was_paused = is_paused (rt_monotonic rt) (rw_handoff mw);
         mw' = mw\<lparr>rw_handoff := record_success (rw_handoff mw), rw_exhausted_logged := False\<rparr>
     in if was_paused then with_metrics (\<lambda>_. set_paused_gauge rt 0) (mw', m, w)
        else (Inr (), (mw', m, w)))"

section \<open>The decision\<close>

definition get_retry_count :: "runtime \<Rightarrow> retry_config \<Rightarrow> headers \<Rightarrow> py_exc + int" where
  "get_retry_count rt cfg h =
     (case (if rc_trust_retry_header cfg
            then header_int (dict_get_or h (rc_retry_header cfg) (PyInt 0)) else Inr 0) of
        Inl e \<Rightarrow> Inl e
      | Inr claimed \<Rightarrow>
         (let source_queue = header_text rt (hget h H_ORIGINAL_QUEUE)
          in case (if source_queue \<noteq> '''' then xdeath_retry_floor rt h source_queue else Inr 0) of
               Inl e \<Rightarrow> Inl e
             | Inr fl \<Rightarrow>
                 (let n = (if source_queue \<noteq> '''' then max claimed fl else claimed)
                  in Inr (max 0 (min n (rc_max_retries cfg))))))"

definition retry_age_exceeded :: "runtime \<Rightarrow> retry_config \<Rightarrow> headers \<Rightarrow> bool" where
  "retry_age_exceeded rt cfg h =
     (case rc_max_retry_age cfg of
        None \<Rightarrow> False
      | Some max_age \<Rightarrow>
         (case parse_iso rt (hget h H_FIRST_FAILED_AT) of
            None \<Rightarrow> False
          | Some first \<Rightarrow> rt_now rt - first > max_age))"

definition decide_retry ::
    "runtime \<Rightarrow> 'w retry_mw \<Rightarrow> py_exc \<Rightarrow> 'w msg \<Rightarrow> py_exc + classified_error \<times> int \<times> failure_category option" where
  "decide_retry rt mw e m =
     (let classified = classifier_classify (rt_infrastructure rt) (rw_classifier mw) e
      in case get_retry_count rt (rw_config mw) (m_headers m) of
           Inl x \<Rightarrow> Inl x
         | Inr n \<Rightarrow>
             Inr (classified, n,
               if ce_severity classified \<noteq> SV_TRANSIENT then Some FC_PERMANENT
               else if n \<ge> rc_max_retries (rw_config mw) then Some FC_EXHAUSTED
               else if retry_age_exceeded rt (rw_config mw) (m_headers m) then Some FC_RETRY_AGE_EXCEEDED
               else None))"

section \<open>Copies\<close>

definition build_retry_envelope ::
    "runtime \<Rightarrow> 'w retry_mw \<Rightarrow> 'w msg \<Rightarrow> int \<Rightarrow> py_exc \<Rightarrow> classified_error \<Rightarrow> py_exc + envelope" where
  "build_retry_envelope rt mw m retry_count e classified =
     (let cfg = rw_config mw;
          attempt = retry_count + 1;
          source_queue = py_str rt (dict_get_or (m_headers m) H_ORIGINAL_QUEUE (PyStr ''unknown''));
          (message_id, h1) = stable_message_id rt m (m_headers m);
          shard = (if rc_jitter_mode cfg = ''sharded'' then shard_index rt message_id (rc_jitter_shards cfg) else 0);
          rk = shard_queue_name source_queue attempt shard
      in case header_int (dict_get_or (m_headers m) (rc_retry_header cfg) (PyInt 0)) of
           Inl x \<Rightarrow> Inl x
         | Inr claimed \<Rightarrow>
            (let h2 = dict_set (rc_retry_header cfg) (PyInt (max attempt claimed)) h1;
                 category = (if is_timeout e then FC_TIMEOUT_UNKNOWN else FC_TRANSIENT)
             in case stamp_failure rt h2 m e classified category attempt (rt_iso rt (rt_now rt)) (rw_sanitizer mw) of
                  Inl x \<Rightarrow> Inl x
                | Inr h3 \<Rightarrow> copy_envelope m rk h3 message_id))"

definition build_dlq_envelope ::
    "runtime \<Rightarrow> 'w retry_mw \<Rightarrow> 'w msg \<Rightarrow> int \<Rightarrow> py_exc \<Rightarrow> classified_error \<Rightarrow> failure_category
       \<Rightarrow> py_exc + envelope option" where
  "build_dlq_envelope rt mw m retry_count e classified category =
     (let source_queue = header_text rt (hget (m_headers m) H_ORIGINAL_QUEUE)
      in if source_queue = '''' then Inr None
         else case dead_letter_envelope rt m (source_queue @ ''.dlq'') e classified category (retry_count + 1)
                     (rw_sanitizer mw) [] of
                Inl x \<Rightarrow> Inl x
              | Inr env \<Rightarrow> Inr (Some env))"

definition terminal_envelope ::
    "runtime \<Rightarrow> 'w retry_mw \<Rightarrow> 'w msg \<Rightarrow> int \<Rightarrow> py_exc \<Rightarrow> classified_error \<Rightarrow> failure_category \<Rightarrow> bool
       \<Rightarrow> py_exc + envelope option" where
  "terminal_envelope rt mw m retry_count e classified category have_publisher =
     (if rc_terminal_action (rw_config mw) \<noteq> TA_DEAD_LETTER \<or> \<not> have_publisher then Inr None
      else build_dlq_envelope rt mw m retry_count e classified category)"

section \<open>Handing over\<close>

text \<open>\<^verbatim>\<open>_safe_publish_sync\<close> and \<^verbatim>\<open>_safe_publish_async\<close>: an exception counts as an unverified outcome.\<close>

definition safe_publish :: "'w publish_fn \<Rightarrow> envelope \<Rightarrow> ('w rstate, py_exc, publish_outcome option) act" where
  "safe_publish pub env = act_try (on_world (pub env))
     (\<lambda>e. if is_exception e then act_ret None else act_raise e)"

definition record_retried :: "runtime \<Rightarrow> error_category \<Rightarrow> ('w rstate, py_exc, unit) act" where
  "record_retried rt category = act_bind (record_handoff_success rt)
     (\<lambda>_. with_metrics (\<lambda>mn. record_metric rt (mn_messages_retried_total mn) (Some category)))"

definition route_to_delay_queue_sync ::
    "runtime \<Rightarrow> int \<Rightarrow> py_exc \<Rightarrow> classified_error \<Rightarrow> ('w rstate, py_exc, unit) act" where
  "route_to_delay_queue_sync rt retry_count e classified = act_get (\<lambda>(mw, m, w).
     act_bind (act_of (build_retry_envelope rt mw m retry_count e classified)) (\<lambda>env.
     case rw_publish_fn mw of
       None \<Rightarrow> act_when pending_msg (on_msg (msg_nack True))
     | Some pub \<Rightarrow> act_bind (safe_publish pub env) (\<lambda>outcome.
         if \<not> outcome_ok outcome
         then act_bind (act_when pending_msg (on_msg (msg_nack True))) (\<lambda>_.
              act_bind (record_handoff_failure rt) (\<lambda>_. act_ret ()))
         else act_bind (act_when pending_msg (on_msg msg_ack)) (\<lambda>_.
              record_retried rt (ce_category classified)))))"

definition route_to_delay_queue_async ::
    "runtime \<Rightarrow> int \<Rightarrow> py_exc \<Rightarrow> classified_error \<Rightarrow> ('w rstate, py_exc, unit) act" where
  "route_to_delay_queue_async rt retry_count e classified = act_get (\<lambda>(mw, m, w).
     act_bind (act_of (build_retry_envelope rt mw m retry_count e classified)) (\<lambda>env.
     case rw_publish_async_fn mw of
       None \<Rightarrow> act_when pending_msg (on_msg (msg_nack_async True))
     | Some pub \<Rightarrow> act_bind (safe_publish pub env) (\<lambda>outcome.
         if \<not> outcome_ok outcome
         then act_bind (record_handoff_failure rt) (\<lambda>backoff.
              act_ensure
                (act_when (\<lambda>s. rw_sleep_on_handoff_failure (fst s) \<and> backoff > 0 \<and> pending_msg s)
                   (act_get (\<lambda>(mw, m, w). on_world (rw_sleep mw backoff))))
                (act_when pending_msg (on_msg (msg_nack_async True))))
         else act_bind (act_when pending_msg (on_msg msg_ack_async)) (\<lambda>_.
              record_retried rt (ce_category classified)))))"

definition attribute_error :: "string \<Rightarrow> py_exc" where
  "attribute_error s = mk_exc [''AttributeError'', ''Exception'', ''BaseException''] s"

definition mark_terminal_and_raise ::
    "runtime \<Rightarrow> py_exc \<Rightarrow> classified_error \<Rightarrow> bool \<Rightarrow> bool \<Rightarrow> ('w rstate, py_exc, unit) act" where
  "mark_terminal_and_raise rt e classified dead_lettered handoff_failed =
     (if \<not> exc_takes_attrs e then act_raise (attribute_error ''_rabbitkit_terminal'')
      else let e1 = e\<lparr>exc_terminal := True, exc_dead_lettered := dead_lettered,
                     exc_dead_letter_failed := handoff_failed\<rparr>
           in act_get (\<lambda>(mw, m, w).
              case rw_metrics_config mw of
                None \<Rightarrow> act_raise e1
              | Some mn \<Rightarrow>
                  if dead_lettered
                  then act_bind (record_metric rt (mn_messages_dead_lettered_total mn) (Some (ce_category classified)))
                         (\<lambda>_. act_raise e1)
                  else act_raise (e1\<lparr>exc_on_dead_lettered := Some (ce_category classified)\<rparr>)))"

text \<open>\<^verbatim>\<open>_terminal_sync\<close> and \<^verbatim>\<open>_terminal_async\<close> differ only in the publish function and the ack they use.\<close>

definition terminal_with ::
    "'w publish_fn option \<Rightarrow> ('w msg \<times> 'w, py_exc, unit) act \<Rightarrow> runtime \<Rightarrow> py_exc \<Rightarrow> classified_error
       \<Rightarrow> failure_category \<Rightarrow> int \<Rightarrow> ('w rstate, py_exc, unit) act" where
  "terminal_with pub ack rt e classified category retry_count = act_get (\<lambda>(mw, m, w).
     act_bind (act_of (terminal_envelope rt mw m retry_count e classified category (pub \<noteq> None))) (\<lambda>env.
     case (env, pub) of
       (Some env, Some pub) \<Rightarrow> act_bind (safe_publish pub env) (\<lambda>outcome.
         if outcome_ok outcome
         then act_bind (act_when pending_msg (on_msg ack)) (\<lambda>_. mark_terminal_and_raise rt e classified True False)
         else mark_terminal_and_raise rt e classified False True)
     | _ \<Rightarrow> mark_terminal_and_raise rt e classified False False))"

definition terminal_sync ::
    "runtime \<Rightarrow> py_exc \<Rightarrow> classified_error \<Rightarrow> failure_category \<Rightarrow> int \<Rightarrow> ('w rstate, py_exc, unit) act" where
  "terminal_sync rt e classified category n =
     act_get (\<lambda>(mw, m, w). terminal_with (rw_publish_fn mw) msg_ack rt e classified category n)"

definition terminal_async ::
    "runtime \<Rightarrow> py_exc \<Rightarrow> classified_error \<Rightarrow> failure_category \<Rightarrow> int \<Rightarrow> ('w rstate, py_exc, unit) act" where
  "terminal_async rt e classified category n =
     act_get (\<lambda>(mw, m, w). terminal_with (rw_publish_async_fn mw) msg_ack_async rt e classified category n)"

definition handle_retry_sync :: "runtime \<Rightarrow> py_exc \<Rightarrow> ('w rstate, py_exc, unit) act" where
  "handle_retry_sync rt e = act_get (\<lambda>(mw, m, w).
     act_bind (act_of (decide_retry rt mw e m)) (\<lambda>(classified, n, terminal).
       case terminal of
         None \<Rightarrow> route_to_delay_queue_sync rt n e classified
       | Some category \<Rightarrow> terminal_sync rt e classified category n))"

definition handle_retry_async :: "runtime \<Rightarrow> py_exc \<Rightarrow> ('w rstate, py_exc, unit) act" where
  "handle_retry_async rt e = act_get (\<lambda>(mw, m, w).
     act_bind (act_of (decide_retry rt mw e m)) (\<lambda>(classified, n, terminal).
       case terminal of
         None \<Rightarrow> route_to_delay_queue_async rt n e classified
       | Some category \<Rightarrow> terminal_async rt e classified category n))"

text \<open>The two consume scopes; \<open>call_next\<close> is the rest of the chain.\<close>

datatype 'a scope_result = Returned 'a | RequeuedForRetry

definition retry_scope ::
    "(py_exc \<Rightarrow> ('w rstate, py_exc, unit) act) \<Rightarrow> ('w msg \<times> 'w, py_exc, 'a) act
       \<Rightarrow> ('w rstate, py_exc, 'a scope_result) act" where
  "retry_scope handle call_next = act_try (act_bind (on_msg call_next) (\<lambda>a. act_ret (Returned a)))
     (\<lambda>e. if isinstance e SETTLEMENT_SIGNALS then act_raise e
          else if is_exception e then act_bind (handle e) (\<lambda>_. act_ret RequeuedForRetry)
          else act_raise e)"

definition consume_scope where "consume_scope rt = retry_scope (handle_retry_sync rt)"
definition consume_scope_async where "consume_scope_async rt = retry_scope (handle_retry_async rt)"

section \<open>Delay-queue topology\<close>

definition dlq_queue_definition :: "string \<Rightarrow> bool \<Rightarrow> string option \<Rightarrow> int option \<Rightarrow> py_exc + queue" where
  "dlq_queue_definition name quorum version group_size =
     (if \<not> quorum then rabbit_queue (queue_named name)
      else case dlq_delivery_limit version of
             Inl e \<Rightarrow> Inl e
           | Inr limit \<Rightarrow> rabbit_queue ((queue_named name)\<lparr>rq_queue_type := QT_QUORUM,
               rq_delivery_limit := limit, rq_quorum_initial_group_size := group_size\<rparr>))"

definition get_dlq_name :: "string \<Rightarrow> string" where
  "get_dlq_name q = q @ ''.dlq''"

definition get_source_queue_dlq_arguments :: "string \<Rightarrow> (string, string) dict" where
  "get_source_queue_dlq_arguments q =
     [(''x-dead-letter-exchange'', ''''), (''x-dead-letter-routing-key'', get_dlq_name q)]"

definition quorum_delay_arguments :: "retry_config \<Rightarrow> headers" where
  "quorum_delay_arguments cfg =
     (let d1 = opt_set ''x-quorum-initial-group-size'' PyInt (rc_quorum_initial_group_size cfg) []
      in case rc_delay_queue_dead_letter_strategy cfg of
           None \<Rightarrow> d1
         | Some s \<Rightarrow>
            (let d2 = dict_set ''x-dead-letter-strategy'' (PyStr s) d1
             in if s = ''at-least-once'' then dict_set ''x-overflow'' (PyStr ''reject-publish'') d2 else d2))"

definition resolve_queue_type :: "string \<Rightarrow> queue_type option \<Rightarrow> string \<Rightarrow> string" where
  "resolve_queue_type setting source_type dflt =
     (if setting = ''inherit''
      then (if source_type = Some QT_QUORUM then ''quorum''
            else if source_type = Some QT_CLASSIC then ''classic'' else dflt)
      else setting)"

definition index_error :: py_exc where
  "index_error = mk_exc [''IndexError'', ''LookupError'', ''Exception'', ''BaseException''] ''tuple index out of range''"

text \<open>\<^verbatim>\<open>delays[min(index, len(delays) - 1)]\<close>, which raises on an empty tuple only.\<close>

definition get_delay_ms :: "retry_config \<Rightarrow> nat \<Rightarrow> py_exc + int" where
  "get_delay_ms cfg index =
     (if rc_delays cfg = [] then Inl index_error
      else Inr (rc_delays cfg ! min index (length (rc_delays cfg) - 1) * 1000))"

definition delay_queue :: "retry_config \<Rightarrow> string \<Rightarrow> string \<Rightarrow> nat \<Rightarrow> int \<Rightarrow> nat \<times> real \<Rightarrow> py_exc + queue" where
  "delay_queue cfg q delay_type attempt delay_ms sm =
     (let ttl = max 1 \<lfloor>real_of_int delay_ms * snd sm\<rfloor>;
          arguments = [(''x-message-ttl'', PyInt ttl), (''x-dead-letter-exchange'', PyStr ''''),
            (''x-dead-letter-routing-key'', PyStr q), (''x-queue-type'', PyStr delay_type)]
      in rabbit_queue ((queue_named (shard_queue_name q (int attempt) (int (fst sm))))\<lparr>rq_arguments :=
           (if delay_type = ''quorum'' then dict_update_all arguments (quorum_delay_arguments cfg)
            else arguments)\<rparr>))"

fun sequence :: "('e + 'a) list \<Rightarrow> 'e + 'a list" where
  "sequence [] = Inr []"
| "sequence (x # xs) =
     (case x of Inl e \<Rightarrow> Inl e
      | Inr a \<Rightarrow> (case sequence xs of Inl e \<Rightarrow> Inl e | Inr as \<Rightarrow> Inr (a # as)))"

definition tier_queues :: "retry_config \<Rightarrow> string \<Rightarrow> string \<Rightarrow> real list \<Rightarrow> nat \<Rightarrow> py_exc + queue list" where
  "tier_queues cfg q delay_type multipliers attempt =
     (case get_delay_ms cfg (attempt - 1) of
        Inl e \<Rightarrow> Inl e
      | Inr ms \<Rightarrow> sequence (map (delay_queue cfg q delay_type attempt ms) (enumerate 0 multipliers)))"

definition get_delay_queue_definitions ::
    "retry_config \<Rightarrow> string \<Rightarrow> queue_type option \<Rightarrow> string option \<Rightarrow> py_exc + queue list" where
  "get_delay_queue_definitions cfg q source_type version =
     (let multipliers = (if rc_jitter_mode cfg = ''sharded''
                         then shard_ttl_multipliers (rc_jitter_shards cfg) (rc_jitter_factor cfg) else [1]);
          delay_type = resolve_queue_type (rc_delay_queue_type cfg) source_type ''classic'';
          dlq_type = resolve_queue_type (rc_dlq_queue_type cfg) source_type ''classic''
      in case sequence (map (tier_queues cfg q delay_type multipliers) [1..<nat (rc_max_retries cfg) + 1]) of
           Inl e \<Rightarrow> Inl e
         | Inr tiers \<Rightarrow>
            (case dlq_queue_definition (get_dlq_name q) (dlq_type = ''quorum'') version
                    (rc_quorum_initial_group_size cfg) of
               Inl e \<Rightarrow> Inl e
             | Inr dlq \<Rightarrow> Inr (concat tiers @ [dlq])))"

section \<open>Lemmas on names and counts\<close>

lemma before_append: "c \<notin> set w \<Longrightarrow> before c (w @ c # s) = w"
  by (induction w) (auto simp: before_def)

lemma before_none: "c \<notin> set w \<Longrightarrow> before c w = w"
  by (induction w) (auto simp: before_def)

lemma digits_no_dot: "CHR ''.'' \<notin> set (digits_of n)"
  using digits_of_ascii [of n] by (auto simp: list_all_iff dest: ascii_digit_simps)

lemma tier_of_shard_name:
  assumes "0 \<le> attempt"
  shows "startswith (shard_queue_name q attempt shard) (retry_prefix q)"
    "before CHR ''.'' (drop (length (retry_prefix q)) (shard_queue_name q attempt shard)) = digits_of (nat attempt)"
proof -
  have "shard_queue_name q attempt shard
      = retry_prefix q @ digits_of (nat attempt) @ (if shard = 0 then '''' else ''.s'' @ str_int shard)"
    using assms by (simp add: shard_queue_name_def str_int_def Let_def)
  then show "startswith (shard_queue_name q attempt shard) (retry_prefix q)"
    "before CHR ''.'' (drop (length (retry_prefix q)) (shard_queue_name q attempt shard)) = digits_of (nat attempt)"
    using digits_no_dot by (simp_all add: before_append before_none)
qed

lemma py_int_digits:
  "length (digits_of n) \<le> INT_MAX_STR_DIGITS \<Longrightarrow> py_int (PyStr (digits_of n)) = Inr (int n)"
  by (simp add: int_of_text_digits digits_of_ascii or_value_error_def)

lemma xdeath_loop_mono: "xdeath_loop rt pre ds fl = Inr n \<Longrightarrow> fl \<le> n"
proof (induction rt pre ds fl rule: xdeath_loop.induct)
  case (2 rt pre death deaths fl)
  then show ?case by (force simp: Let_def split: if_splits sum.splits)
qed auto

lemma xdeath_loop_tier:
  assumes "PyDict d \<in> set ds" "header_text rt (hget d ''queue'') = shard_queue_name q attempt shard"
    and "0 \<le> attempt" "length (digits_of (nat attempt)) \<le> INT_MAX_STR_DIGITS"
    and "xdeath_loop rt (retry_prefix q) ds fl = Inr n"
  shows "attempt \<le> n"
  using assms(1,5)
proof (induction ds arbitrary: fl)
  case (Cons x xs)
  show ?case
  proof (cases "x = PyDict d")
    case True
    with Cons.prems(2) assms(2-4) tier_of_shard_name [OF assms(3), of q shard]
    have "xdeath_loop rt (retry_prefix q) xs (max fl attempt) = Inr n"
      using py_int_digits [OF assms(4)] isdigit_digits_of by (simp add: Let_def)
    then show ?thesis using xdeath_loop_mono by fastforce
  next
    case False
    then have d: "PyDict d \<in> set xs" using Cons.prems(1) by simp
    obtain fl' where "xdeath_loop rt (retry_prefix q) xs fl' = Inr n"
      using Cons.prems(2) by (cases x) (auto simp: Let_def split: if_splits sum.splits)
    with Cons.IH d show ?thesis by blast
  qed
qed simp

lemma get_retry_count_bounds:
  "get_retry_count rt cfg h = Inr n \<Longrightarrow> 0 \<le> n \<and> n \<le> max 0 (rc_max_retries cfg)"
  by (auto simp: get_retry_count_def Let_def split: sum.splits if_splits)

lemma get_retry_count_header:
  assumes "get_retry_count rt cfg h = Inr n" "rc_trust_retry_header cfg"
    and "dict_get h (rc_retry_header cfg) = Some (PyInt i)" "i \<le> rc_max_retries cfg"
  shows "i \<le> n"
  using assms by (auto simp: get_retry_count_def Let_def dict_get_or_def split: sum.splits if_splits)

lemma get_retry_count_xdeath:
  assumes "get_retry_count rt cfg h = Inr n"
    and "hget h H_ORIGINAL_QUEUE = PyStr q" "q \<noteq> ''''" "hget h ''x-death'' = PyList ds"
    and "PyDict d \<in> set ds" "hget d ''queue'' = PyStr (shard_queue_name q attempt shard)"
    and "0 \<le> attempt" "attempt \<le> rc_max_retries cfg" "length (digits_of (nat attempt)) \<le> INT_MAX_STR_DIGITS"
  shows "attempt \<le> n"
proof -
  obtain fl claimed where "xdeath_loop rt (retry_prefix q) ds 0 = Inr fl"
    and n: "n = max 0 (min (max claimed fl) (rc_max_retries cfg))"
    using assms(1-4)
    by (auto simp: get_retry_count_def xdeath_retry_floor_def Let_def split: sum.splits)
  then have "attempt \<le> fl" using xdeath_loop_tier assms(5-7,9) by fastforce
  with n assms(8) show ?thesis by simp
qed

lemma build_retry_envelopeE:
  assumes "build_retry_envelope rt mw m n e c = Inr env"
  obtains claimed h3 where
    "header_int (dict_get_or (m_headers m) (rc_retry_header (rw_config mw)) (PyInt 0)) = Inr claimed"
    and "stamp_failure rt (dict_set (rc_retry_header (rw_config mw)) (PyInt (max (n + 1) claimed))
        (snd (stable_message_id rt m (m_headers m)))) m e c (if is_timeout e then FC_TIMEOUT_UNKNOWN else FC_TRANSIENT)
        (n + 1) (rt_iso rt (rt_now rt)) (rw_sanitizer mw) = Inr h3"
    and "copy_envelope m (shard_queue_name
        (py_str rt (dict_get_or (m_headers m) H_ORIGINAL_QUEUE (PyStr ''unknown''))) (n + 1)
        (if rc_jitter_mode (rw_config mw) = ''sharded''
         then shard_index rt (fst (stable_message_id rt m (m_headers m))) (rc_jitter_shards (rw_config mw)) else 0))
        h3 (fst (stable_message_id rt m (m_headers m))) = Inr env"
proof -
  obtain i h1 where s: "stable_message_id rt m (m_headers m) = (i, h1)" by fastforce
  from assms s obtain claimed h3 where
    "header_int (dict_get_or (m_headers m) (rc_retry_header (rw_config mw)) (PyInt 0)) = Inr claimed"
    and "stamp_failure rt (dict_set (rc_retry_header (rw_config mw)) (PyInt (max (n + 1) claimed)) h1) m e c
        (if is_timeout e then FC_TIMEOUT_UNKNOWN else FC_TRANSIENT)
        (n + 1) (rt_iso rt (rt_now rt)) (rw_sanitizer mw) = Inr h3"
    and "copy_envelope m (shard_queue_name
        (py_str rt (dict_get_or (m_headers m) H_ORIGINAL_QUEUE (PyStr ''unknown''))) (n + 1)
        (if rc_jitter_mode (rw_config mw) = ''sharded''
         then shard_index rt i (rc_jitter_shards (rw_config mw)) else 0)) h3 i = Inr env"
    by (auto simp: build_retry_envelope_def Let_def split: sum.splits)
  then show thesis using that [unfolded s fst_conv snd_conv] by blast
qed

lemma build_retry_envelope_total:
  assumes "header_int (dict_get_or (m_headers m) (rc_retry_header (rw_config mw)) (PyInt 0)) = Inr claimed"
    and "header_int (dict_get_or (m_headers m) H_ATTEMPTS (PyInt 0)) = Inr n0"
    and "rc_retry_header (rw_config mw) \<noteq> H_ATTEMPTS"
    and "\<And>shard. utf8_len (shard_queue_name
        (py_str rt (dict_get_or (m_headers m) H_ORIGINAL_QUEUE (PyStr ''unknown''))) (n + 1) shard) \<le> 255
        \<or> (rc_jitter_mode (rw_config mw) \<noteq> ''sharded'' \<and> shard \<noteq> 0)"
  shows "\<exists>env. build_retry_envelope rt mw m n e c = Inr env"
proof -
  obtain i h1 where s: "stable_message_id rt m (m_headers m) = (i, h1)" by fastforce
  let ?shard = "if rc_jitter_mode (rw_config mw) = ''sharded''
         then shard_index rt i (rc_jitter_shards (rw_config mw)) else 0"
  let ?h2 = "dict_set (rc_retry_header (rw_config mw)) (PyInt (max (n + 1) claimed)) h1"
  have "dict_get h1 H_ATTEMPTS = dict_get (m_headers m) H_ATTEMPTS"
    using stable_message_id_get [of rt m "m_headers m" H_ATTEMPTS] s by simp
  then have "header_int (dict_get_or ?h2 H_ATTEMPTS (PyInt 0)) = Inr n0"
    using assms(2,3) by (simp add: dict_get_or_def)
  then obtain h3 where h3: "stamp_failure rt ?h2 m e c (if is_timeout e then FC_TIMEOUT_UNKNOWN else FC_TRANSIENT)
      (n + 1) (rt_iso rt (rt_now rt)) (rw_sanitizer mw) = Inr h3"
    using stamp_failure_total by blast
  have "utf8_len (shard_queue_name
        (py_str rt (dict_get_or (m_headers m) H_ORIGINAL_QUEUE (PyStr ''unknown''))) (n + 1) ?shard) \<le> 255"
    using assms(4) [of ?shard] by auto
  from copy_envelope_total [OF this, of m h3 i] h3 s assms(1) show ?thesis
    by (simp add: build_retry_envelope_def Let_def split del: if_split)
qed

lemma retry_copy_facts:
  assumes "build_retry_envelope rt mw m n e c = Inr env" "rc_retry_header (rw_config mw) \<notin> set IDENTITY"
  shows "copy_facts rt m env"
proof -
  let ?s = "stable_message_id rt m (m_headers m)" and ?hdr = "rc_retry_header (rw_config mw)"
  obtain claimed h3 where h3: "stamp_failure rt (dict_set ?hdr (PyInt (max (n + 1) claimed)) (snd ?s)) m e c
        (if is_timeout e then FC_TIMEOUT_UNKNOWN else FC_TRANSIENT)
        (n + 1) (rt_iso rt (rt_now rt)) (rw_sanitizer mw) = Inr h3"
    and env: "me_headers env = h3" "me_message_id env = fst ?s"
    by (rule build_retry_envelopeE [OF assms(1)]) (auto dest: copy_envelopeD(4,5))
  show ?thesis
  proof (rule built_copy_facts [OF h3, where hs = "m_headers m"])
    fix k assume "k \<in> set IDENTITY"
    then show "dict_get (dict_set ?hdr (PyInt (max (n + 1) claimed)) (snd ?s)) k = dict_get (snd ?s) k"
      using assms(2) by auto
  qed (simp_all add: env)
qed

section \<open>Chains of retries\<close>

text \<open>
  How a delay-queue copy comes back.  When its TTL expires the broker dead-letters it to the source
  queue: the delivery carries the copy's headers and an \<^verbatim>\<open>x-death\<close> entry naming the delay queue.
\<close>

definition comes_back :: "envelope \<Rightarrow> 'w msg \<Rightarrow> bool" where
  "comes_back env m' \<longleftrightarrow>
     (\<forall>k. k \<noteq> ''x-death'' \<longrightarrow> dict_get (m_headers m') k = dict_get (me_headers env) k)
     \<and> (\<exists>ds d. hget (m_headers m') ''x-death'' = PyList ds \<and> PyDict d \<in> set ds
          \<and> hget d ''queue'' = PyStr (me_routing_key env))"

text \<open>\<open>retry_chain cfg m0 k m\<close>: \<open>m\<close> is \<open>m0\<close> after \<open>k\<close> retries under the configuration \<open>cfg\<close>.\<close>

inductive retry_chain :: "retry_config \<Rightarrow> 'w msg \<Rightarrow> nat \<Rightarrow> 'w msg \<Rightarrow> bool" for cfg and m0 where
  start: "retry_chain cfg m0 0 m0"
| again: "retry_chain cfg m0 k m \<Longrightarrow> rw_config mw = cfg \<Longrightarrow>
     decide_retry rt mw e m = Inr (c, n, None) \<Longrightarrow> build_retry_envelope rt mw m n e c = Inr env \<Longrightarrow>
     comes_back env m' \<Longrightarrow> retry_chain cfg m0 (Suc k) m'"

inductive_cases retry_chain_SucE: "retry_chain cfg m0 (Suc k) m"

definition chain_ok :: "retry_config \<Rightarrow> 'w msg \<Rightarrow> bool" where
  "chain_ok cfg m \<longleftrightarrow> rc_retry_header cfg \<notin> set (''x-death'' # H_ORIGINAL_MESSAGE_ID # STAMPED)
     \<and> rc_max_retries cfg < 10 ^ INT_MAX_STR_DIGITS
     \<and> (rc_trust_retry_header cfg \<or> (\<exists>q. q \<noteq> '''' \<and> hget (m_headers m) H_ORIGINAL_QUEUE = PyStr q))"

lemma decide_retryD:
  "decide_retry rt mw e m = Inr (c, n, None) \<Longrightarrow>
     get_retry_count rt (rw_config mw) (m_headers m) = Inr n \<and> n < rc_max_retries (rw_config mw)
     \<and> ce_severity c = SV_TRANSIENT"
  by (auto simp: decide_retry_def Let_def split: sum.splits if_splits)

lemma retry_copy_headers:
  assumes "build_retry_envelope rt mw m n e c = Inr env"
    and "rc_retry_header (rw_config mw) \<notin> set (''x-death'' # H_ORIGINAL_MESSAGE_ID # STAMPED)"
  obtains claimed where
    "dict_get (me_headers env) (rc_retry_header (rw_config mw)) = Some (PyInt (max (n + 1) claimed))"
    "header_int (dict_get_or (m_headers m) (rc_retry_header (rw_config mw)) (PyInt 0)) = Inr claimed"
    "hget (m_headers m) H_ORIGINAL_QUEUE \<noteq> PyNone \<Longrightarrow>
       dict_get (me_headers env) H_ORIGINAL_QUEUE = dict_get (m_headers m) H_ORIGINAL_QUEUE"
proof -
  let ?s = "stable_message_id rt m (m_headers m)" and ?hdr = "rc_retry_header (rw_config mw)"
  obtain claimed h3 where cl: "header_int (dict_get_or (m_headers m) ?hdr (PyInt 0)) = Inr claimed"
    and h3: "stamp_failure rt (dict_set ?hdr (PyInt (max (n + 1) claimed)) (snd ?s)) m e c
        (if is_timeout e then FC_TIMEOUT_UNKNOWN else FC_TRANSIENT)
        (n + 1) (rt_iso rt (rt_now rt)) (rw_sanitizer mw) = Inr h3"
    and env: "me_headers env = h3"
    by (rule build_retry_envelopeE [OF assms(1)]) (auto dest: copy_envelopeD(4))
  note get = stamp_failureE [OF h3]
  have "dict_get h3 ?hdr = Some (PyInt (max (n + 1) claimed))"
    by (rule get) (use assms(2) in \<open>auto simp: STAMPED_def dict_get_stamped\<close>)
  moreover have "dict_get h3 H_ORIGINAL_QUEUE = dict_get (m_headers m) H_ORIGINAL_QUEUE"
    if "hget (m_headers m) H_ORIGINAL_QUEUE \<noteq> PyNone"
    by (rule get) (use that assms(2) in \<open>auto simp: STAMPED_def dict_get_stamped stable_message_id_get
        hget_def dict_get_or_def split: option.splits\<close>)
  ultimately show thesis using that cl env by blast
qed

text \<open>One retry raises the count that the next delivery is judged by.\<close>

lemma retry_count_grows:
  assumes returned: "comes_back env m'" and env: "build_retry_envelope rt mw m n e c = Inr env"
    and dec: "decide_retry rt mw e m = Inr (c, n, None)" and ok: "chain_ok (rw_config mw) m"
    and cnt: "get_retry_count rt' (rw_config mw) (m_headers m') = Inr n'"
  shows "n < n'"
proof -
  let ?cfg = "rw_config mw"
  have hdr: "rc_retry_header ?cfg \<notin> set (''x-death'' # H_ORIGINAL_MESSAGE_ID # STAMPED)"
    and big: "rc_max_retries ?cfg < 10 ^ INT_MAX_STR_DIGITS" using ok by (simp_all add: chain_ok_def)
  have n: "get_retry_count rt ?cfg (m_headers m) = Inr n" "n < rc_max_retries ?cfg"
    using decide_retryD [OF dec] by simp_all
  then have n0: "0 \<le> n" using get_retry_count_bounds by blast
  obtain claimed where
    h: "dict_get (me_headers env) (rc_retry_header ?cfg) = Some (PyInt (max (n + 1) claimed))"
    and q: "hget (m_headers m) H_ORIGINAL_QUEUE \<noteq> PyNone \<Longrightarrow>
       dict_get (me_headers env) H_ORIGINAL_QUEUE = dict_get (m_headers m) H_ORIGINAL_QUEUE"
    using retry_copy_headers [OF env hdr] by blast
  show ?thesis
  proof (cases "rc_trust_retry_header ?cfg")
    case True
    have "dict_get (m_headers m') (rc_retry_header ?cfg) = Some (PyInt (max (n + 1) claimed))"
      using returned h hdr by (simp add: comes_back_def)
    with True cnt n(2) show ?thesis
      by (auto simp: get_retry_count_def Let_def dict_get_or_def split: sum.splits if_splits)
  next
    case False
    then obtain s where s: "s \<noteq> ''''" "hget (m_headers m) H_ORIGINAL_QUEUE = PyStr s"
      using ok by (auto simp: chain_ok_def)
    have "H_ORIGINAL_QUEUE \<noteq> ''x-death''" by (simp add: header_names)
    then have s': "hget (m_headers m') H_ORIGINAL_QUEUE = PyStr s"
      using returned q s by (simp add: comes_back_def hget_def dict_get_or_def)
    have src: "dict_get_or (m_headers m) H_ORIGINAL_QUEUE (PyStr ''unknown'') = PyStr s"
      using s(2) by (auto simp: hget_def dict_get_or_def split: option.splits)
    obtain shard where rk: "me_routing_key env = shard_queue_name s (n + 1) shard"
      by (rule build_retry_envelopeE [OF env]) (auto dest: copy_envelopeD(1) simp: src py_str_def)
    obtain ds d where "hget (m_headers m') ''x-death'' = PyList ds" "PyDict d \<in> set ds"
      "hget d ''queue'' = PyStr (shard_queue_name s (n + 1) shard)"
      using returned rk by (auto simp: comes_back_def)
    moreover have "length (digits_of (nat (n + 1))) \<le> INT_MAX_STR_DIGITS"
    proof (rule length_digits_of)
      have "int (nat (n + 1)) < 10 ^ INT_MAX_STR_DIGITS" using n(2) n0 big by linarith
      then show "nat (n + 1) < 10 ^ INT_MAX_STR_DIGITS" by (metis of_nat_less_iff of_nat_numeral of_nat_power)
    qed (simp add: INT_MAX_STR_DIGITS_def)
    ultimately have "n + 1 \<le> n'"
      using get_retry_count_xdeath [OF cnt s' s(1)] n(2) n0 by auto
    then show ?thesis by simp
  qed
qed

lemma chain_ok_step:
  assumes "comes_back env m'" "build_retry_envelope rt mw m n e c = Inr env" "chain_ok (rw_config mw) m"
  shows "chain_ok (rw_config mw) m'"
proof -
  have hdr: "rc_retry_header (rw_config mw) \<notin> set (''x-death'' # H_ORIGINAL_MESSAGE_ID # STAMPED)"
    using assms(3) by (simp add: chain_ok_def)
  have "H_ORIGINAL_QUEUE \<noteq> ''x-death''" by (simp add: header_names)
  then have "hget (m_headers m') H_ORIGINAL_QUEUE = hget (m_headers m) H_ORIGINAL_QUEUE"
    if "hget (m_headers m) H_ORIGINAL_QUEUE \<noteq> PyNone"
    using retry_copy_headers [OF assms(2) hdr] that assms(1)
    by (metis (no_types, lifting) comes_back_def dict_get_or_def hget_def)
  with assms(3) show ?thesis by (auto simp: chain_ok_def)
qed

lemma retry_chain_ok: "retry_chain cfg m0 k m \<Longrightarrow> chain_ok cfg m0 \<Longrightarrow> chain_ok cfg m"
  by (induction rule: retry_chain.induct) (auto dest: chain_ok_step)

section \<open>Settlement by the middleware\<close>

lemma act_bindE:
  assumes "act_bind f g s = (r, s')"
  obtains (raised) e where "f s = (Inl e, s')" "r = Inl e"
  | (returned) a s1 where "f s = (Inr a, s1)" "g a s1 = (r, s')"
  using assms by (auto simp: act_bind_def split: prod.splits sum.splits)

text \<open>Steps that leave the message alone.\<close>

named_theorems keeps_msg_intros \<open>operations that do not touch the message\<close>

definition keeps_msg :: "('w rstate, py_exc, 'a) act \<Rightarrow> bool" where
  "keeps_msg f \<longleftrightarrow> (\<forall>s. fst (snd (snd (f s))) = fst (snd s))"

lemma keeps_msgD: "keeps_msg f \<Longrightarrow> f (mw, m, w) = (r, (mw', m', w')) \<Longrightarrow> m' = m"
  unfolding keeps_msg_def by (metis fst_conv snd_conv)

lemma keeps_msg_basic [keeps_msg_intros]:
  "keeps_msg (act_ret a)" "keeps_msg (act_raise e)" "keeps_msg (on_world f)"
  "keeps_msg (act_upd (\<lambda>(mw, s). (g mw, s)))"
  by (auto simp: keeps_msg_def act_defs on_world_def split: prod.splits)

lemma keeps_msg_bind [keeps_msg_intros]:
  "keeps_msg f \<Longrightarrow> (\<And>a. keeps_msg (g a)) \<Longrightarrow> keeps_msg (act_bind f g)"
  by (auto simp: keeps_msg_def act_bind_def split: prod.splits sum.splits) (metis fst_conv snd_conv)+

lemma keeps_msg_try [keeps_msg_intros]:
  "keeps_msg f \<Longrightarrow> (\<And>e. keeps_msg (g e)) \<Longrightarrow> keeps_msg (act_try f g)"
  by (auto simp: keeps_msg_def act_try_def split: prod.splits sum.splits) (metis fst_conv snd_conv)+

lemma keeps_msg_hook [keeps_msg_intros]: "keeps_msg f \<Longrightarrow> keeps_msg (guarded_hook f)"
  unfolding guarded_hook_def by (intro keeps_msg_intros) (auto intro: keeps_msg_intros)

lemma keeps_msg_metrics [keeps_msg_intros]:
  "keeps_msg (record_metric rt name c)" "keeps_msg (set_paused_gauge rt x)"
  "(\<And>mn. keeps_msg (f mn)) \<Longrightarrow> keeps_msg (with_metrics f)"
  by (auto simp: keeps_msg_def record_metric_def set_paused_gauge_def with_metrics_def on_world_def
      split: option.splits prod.splits)

lemma keeps_msg_effects: "keeps_msg (handoff_failure_effects rt mw t x b)"
  unfolding handoff_failure_effects_def
  by (intro keeps_msg_intros) (auto split: option.splits intro!: keeps_msg_intros)

lemma keeps_msg_failure [keeps_msg_intros]: "keeps_msg (record_handoff_failure rt)"
  by (auto simp: keeps_msg_def record_handoff_failure_def Let_def
      keeps_msg_effects [unfolded keeps_msg_def, rule_format] split: prod.splits)

lemma keeps_msg_retried [keeps_msg_intros]: "keeps_msg (record_retried rt c :: ('w rstate, py_exc, unit) act)"
proof -
  have "keeps_msg (record_handoff_success rt :: ('w rstate, py_exc, unit) act)"
  proof -
    have "keeps_msg (with_metrics (\<lambda>_. set_paused_gauge rt 0) :: ('w rstate, py_exc, unit) act)"
      by (intro keeps_msg_intros)
    then show ?thesis by (auto simp: keeps_msg_def record_handoff_success_def Let_def split: prod.splits)
  qed
  then show ?thesis unfolding record_retried_def by (intro keeps_msg_intros)
qed

lemma keeps_msg_publish [keeps_msg_intros]: "keeps_msg (safe_publish pub env)"
  unfolding safe_publish_def by (intro keeps_msg_intros) (auto intro: keeps_msg_intros)

lemma keeps_msg_mark [keeps_msg_intros]:
  "keeps_msg (mark_terminal_and_raise rt e c d h :: ('w rstate, py_exc, unit) act)"
proof -
  have "keeps_msg (act_bind (record_metric rt name cat) (\<lambda>_. act_raise x) :: ('w rstate, py_exc, unit) act)"
    for name cat x
    by (intro keeps_msg_intros)
  then show ?thesis
    by (auto simp: keeps_msg_def mark_terminal_and_raise_def act_get_def act_raise_def Let_def split: option.split)
qed

lemma mark_terminal_raises: "isl (fst (mark_terminal_and_raise rt e c d h s))"
  by (cases s) (auto simp: mark_terminal_and_raise_def act_defs act_get_def Let_def split: option.split prod.split sum.split)

text \<open>The settlement calls the middleware relies on: what they can make of a pending message.\<close>

locale acker =
  fixes ack nack :: "('w msg \<times> 'w, py_exc, unit) act"
  assumes ack_result: "m_disposition m = DP_PENDING \<Longrightarrow> ack (m, w) = (r, (m', w')) \<Longrightarrow>
      (m_disposition m' = DP_PENDING \<and> isl r) \<or> m_disposition m' = DP_ACKED"
    and nack_result: "m_disposition m = DP_PENDING \<Longrightarrow> nack (m, w) = (r, (m', w')) \<Longrightarrow>
      (m_disposition m' = DP_PENDING \<and> isl r) \<or> m_disposition m' = DP_NACKED"
begin

lemma ack_pending:
  assumes "act_when pending_msg (on_msg ack) (mw, m, w) = (r, (mw', m', w'))" "m_disposition m = DP_PENDING"
  shows "(m_disposition m' = DP_PENDING \<and> isl r) \<or> m_disposition m' = DP_ACKED"
  using assms ack_result [of m w]
  by (auto simp: act_when_def pending_msg_def is_settled_def on_msg_def split: prod.splits)

lemma nack_pending:
  assumes "act_when pending_msg (on_msg nack) (mw, m, w) = (r, (mw', m', w'))" "m_disposition m = DP_PENDING"
  shows "(m_disposition m' = DP_PENDING \<and> isl r) \<or> m_disposition m' = DP_NACKED"
  using assms nack_result [of m w]
  by (auto simp: act_when_def pending_msg_def is_settled_def on_msg_def split: prod.splits)

end

lemma settle_sync_result:
  assumes "m_disposition m = DP_PENDING" "settle_sync d fn verb (m, w) = (r, (m', w'))"
  shows "(m_disposition m' = DP_PENDING \<and> isl r) \<or> m_disposition m' = d"
  using assms by (auto simp: settle_sync_pending split: option.splits if_splits)

lemma settle_async_result:
  assumes "m_disposition m = DP_PENDING" "settle_async d af sf verb (m, w) = (r, (m', w'))"
  shows "(m_disposition m' = DP_PENDING \<and> isl r) \<or> m_disposition m' = d"
  using assms by (auto simp: settle_async_pending split: option.splits if_splits)

interpretation sync_acker: acker msg_ack "msg_nack True"
proof
  fix m m' :: "'w msg" and w w' r
  assume "m_disposition m = DP_PENDING"
  then show "msg_ack (m, w) = (r, (m', w')) \<Longrightarrow>
      (m_disposition m' = DP_PENDING \<and> isl r) \<or> m_disposition m' = DP_ACKED"
    "msg_nack True (m, w) = (r, (m', w')) \<Longrightarrow>
      (m_disposition m' = DP_PENDING \<and> isl r) \<or> m_disposition m' = DP_NACKED"
    unfolding msg_ack_def msg_nack_def by (auto dest: settle_sync_result)
qed

interpretation async_acker: acker msg_ack_async "msg_nack_async True"
proof
  fix m m' :: "'w msg" and w w' r
  assume "m_disposition m = DP_PENDING"
  then show "msg_ack_async (m, w) = (r, (m', w')) \<Longrightarrow>
      (m_disposition m' = DP_PENDING \<and> isl r) \<or> m_disposition m' = DP_ACKED"
    "msg_nack_async True (m, w) = (r, (m', w')) \<Longrightarrow>
      (m_disposition m' = DP_PENDING \<and> isl r) \<or> m_disposition m' = DP_NACKED"
    unfolding msg_ack_async_def msg_nack_async_def by (auto dest: settle_async_result)
qed

text \<open>The outcome of a failed delivery, in terms of the message and the copy published for it.\<close>

definition copied_ok :: "runtime \<Rightarrow> 'w retry_mw \<Rightarrow> 'w publish_fn option \<Rightarrow> 'w msg \<Rightarrow> 'w \<Rightarrow> bool" where
  "copied_ok rt mw pub m w \<longleftrightarrow> (\<exists>f env out w1 n e c. pub = Some f
     \<and> f env w = (Inr (Some out), w1) \<and> po_ok out
     \<and> (build_retry_envelope rt mw m n e c = Inr env
        \<or> (\<exists>category. build_dlq_envelope rt mw m n e c category = Inr (Some env))))"

definition safe_result ::
    "runtime \<Rightarrow> 'w retry_mw \<Rightarrow> 'w publish_fn option \<Rightarrow> 'w msg \<Rightarrow> 'w \<Rightarrow> py_exc + unit \<Rightarrow> 'w msg \<Rightarrow> bool" where
  "safe_result rt mw pub m w r m' \<longleftrightarrow>
     (m_disposition m' = DP_ACKED \<longrightarrow> copied_ok rt mw pub m w)
     \<and> m_disposition m' \<noteq> DP_REJECTED
     \<and> (\<not> isl r \<longrightarrow> m_disposition m' \<noteq> DP_PENDING)"

lemma safe_publishE:
  assumes "safe_publish f env (mw, m, w) = (r, (mw', m', w'))"
  obtains "mw' = mw" "m' = m" "(\<exists>x. r = Inl x) \<or> r = Inr None \<or> (\<exists>out. r = Inr out \<and> f env w = (Inr out, w'))"
  using assms
  by (auto simp: safe_publish_def act_try_def on_world_def act_ret_def act_raise_def
      split: prod.splits sum.splits if_splits)

lemma published:
  assumes "safe_publish f env (mw, m, w) = (Inr outcome, s1)"
  obtains w1 where "s1 = (mw, m, w1)" "outcome_ok outcome \<Longrightarrow> \<exists>out. f env w = (Inr (Some out), w1) \<and> po_ok out"
proof -
  obtain mw1 m1 w1 where s1: "s1 = (mw1, m1, w1)" by (metis prod_cases3)
  from assms [unfolded s1] show thesis
  proof (rule safe_publishE)
    assume "mw1 = mw" "m1 = m"
      "(\<exists>x. Inr outcome = Inl x) \<or> Inr outcome = Inr None \<or> (\<exists>out. Inr outcome = Inr out \<and> f env w = (Inr out, w1))"
    then show thesis using s1 by (intro that [of w1]) (auto simp: outcome_ok_def split: option.splits)
  qed
qed

lemma publish_raised:
  assumes "safe_publish f env (mw, m, w) = (Inl x, (mw', m', w'))"
  shows "m' = m"
  by (rule safe_publishE [OF assms])

context acker
begin

text \<open>The tail of a hand-over: settle, then do the accounting that does not touch the message.\<close>

lemma ack_then:
  assumes "act_bind (act_when pending_msg (on_msg ack)) (\<lambda>_. g) (mw0, m, w0) = (r, (mw', m', w'))"
    and "m_disposition m = DP_PENDING" "keeps_msg g" "copied_ok rt mw pub m w"
  shows "safe_result rt mw pub m w r m'"
  using assms(1)
proof (cases rule: act_bindE)
  case (raised x)
  then show ?thesis using ack_pending [of mw0 m w0] assms(2,4) by (auto simp: safe_result_def)
next
  case (returned a s1)
  obtain mw1 m1 w1 where s1: "s1 = (mw1, m1, w1)" by (metis prod_cases3)
  have "m_disposition m1 = DP_ACKED" using ack_pending [of mw0 m w0] returned(1) s1 assms(2) by auto
  moreover have "m' = m1" using keeps_msgD [OF assms(3)] returned(2) s1 by metis
  ultimately show ?thesis using assms(4) by (simp add: safe_result_def)
qed

lemma nack_then:
  assumes "act_bind (act_when pending_msg (on_msg nack)) (\<lambda>_. g) (mw0, m, w0) = (r, (mw', m', w'))"
    and "m_disposition m = DP_PENDING" "keeps_msg g"
  shows "safe_result rt mw pub m w r m'"
  using assms(1)
proof (cases rule: act_bindE)
  case (raised x)
  then show ?thesis using nack_pending [of mw0 m w0] assms(2) by (auto simp: safe_result_def)
next
  case (returned a s1)
  obtain mw1 m1 w1 where s1: "s1 = (mw1, m1, w1)" by (metis prod_cases3)
  have "m_disposition m1 = DP_NACKED" using nack_pending [of mw0 m w0] returned(1) s1 assms(2) by auto
  moreover have "m' = m1" using keeps_msgD [OF assms(3)] returned(2) s1 by metis
  ultimately show ?thesis by (simp add: safe_result_def)
qed

lemma nack_only:
  assumes "act_when pending_msg (on_msg nack) (mw0, m, w0) = (r, (mw', m', w'))" "m_disposition m = DP_PENDING"
  shows "safe_result rt mw pub m w r m'"
  using nack_pending [OF assms] by (auto simp: safe_result_def)

lemma terminal_safe:
  assumes "terminal_with pub ack rt e c category n (mw, m, w) = (r, (mw', m', w'))"
    and "m_disposition m = DP_PENDING"
  shows "safe_result rt mw pub m w r m'"
proof -
  have mark: "safe_result rt mw pub m w r m'"
    if "mark_terminal_and_raise rt e c d h (mw1, m, w1) = (r, (mw', m', w'))" for d h mw1 w1
    using mark_terminal_raises [of rt e c d h "(mw1, m, w1)"] keeps_msgD [OF keeps_msg_mark that] that assms(2)
    by (simp add: safe_result_def)
  have unmoved: "safe_result rt mw pub m w (Inl x) m" for x using assms(2) by (simp add: safe_result_def)
  consider (bad) x where "terminal_envelope rt mw m n e c category (pub \<noteq> None) = Inl x"
    | (none) "terminal_envelope rt mw m n e c category (pub \<noteq> None) = Inr None"
    | (env) env f where "terminal_envelope rt mw m n e c category (pub \<noteq> None) = Inr (Some env)" "pub = Some f"
    by (cases "terminal_envelope rt mw m n e c category (pub \<noteq> None)"; cases pub)
      (auto simp: terminal_envelope_def split: if_splits option.splits)
  then show ?thesis
  proof cases
    case bad
    then show ?thesis using assms(1) unmoved by (auto simp: terminal_with_def act_get_def act_raise_def)
  next
    case none
    then show ?thesis
      using assms(1) by (intro mark [of False False mw w]) (simp add: terminal_with_def act_get_def act_raise_def)
  next
    case (env env f)
    have built: "build_dlq_envelope rt mw m n e c category = Inr (Some env)"
      using env(1) by (auto simp: terminal_envelope_def split: if_splits)
    have "act_bind (safe_publish f env) (\<lambda>outcome. if outcome_ok outcome
         then act_bind (act_when pending_msg (on_msg ack)) (\<lambda>_. mark_terminal_and_raise rt e c True False)
         else mark_terminal_and_raise rt e c False True) (mw, m, w) = (r, (mw', m', w'))"
      using assms(1) env by (simp add: terminal_with_def act_get_def act_raise_def)
    then show ?thesis
    proof (cases rule: act_bindE)
      case (raised x)
      then show ?thesis using publish_raised [OF raised(1)] unmoved by simp
    next
      case (returned outcome s1)
      obtain w1 where s1: "s1 = (mw, m, w1)"
        and pub: "outcome_ok outcome \<Longrightarrow> \<exists>out. f env w = (Inr (Some out), w1) \<and> po_ok out"
        by (rule published [OF returned(1)]) blast
      show ?thesis
      proof (cases "outcome_ok outcome")
        case True
        then obtain out where "f env w = (Inr (Some out), w1)" "po_ok out" using pub by blast
        then have "copied_ok rt mw pub m w" using built env(2) unfolding copied_ok_def by blast
        with True returned(2) s1 assms(2) show ?thesis
          by (intro ack_then [where g = "mark_terminal_and_raise rt e c True False"]) (auto intro: keeps_msg_intros)
      next
        case False
        with returned(2) s1 show ?thesis by (intro mark [of False True mw w1]) simp
      qed
    qed
  qed
qed

end

lemma route_sync_safe:
  assumes "route_to_delay_queue_sync rt n e c (mw, m, w) = (r, (mw', m', w'))" "m_disposition m = DP_PENDING"
  shows "safe_result rt mw (rw_publish_fn mw) m w r m'"
proof (cases "build_retry_envelope rt mw m n e c")
  case (Inl x)
  then show ?thesis
    using assms by (auto simp: route_to_delay_queue_sync_def act_get_def act_raise_def safe_result_def)
next
  case (Inr env)
  show ?thesis
  proof (cases "rw_publish_fn mw")
    case None
    then show ?thesis
      using assms Inr
      by (intro sync_acker.nack_only) (auto simp: route_to_delay_queue_sync_def act_get_def act_raise_def)
  next
    case (Some f)
    have "act_bind (safe_publish f env) (\<lambda>outcome. if \<not> outcome_ok outcome
         then act_bind (act_when pending_msg (on_msg (msg_nack True))) (\<lambda>_.
              act_bind (record_handoff_failure rt) (\<lambda>_. act_ret ()))
         else act_bind (act_when pending_msg (on_msg msg_ack)) (\<lambda>_. record_retried rt (ce_category c))) (mw, m, w)
         = (r, (mw', m', w'))"
      using assms(1) Inr Some
      by (simp add: route_to_delay_queue_sync_def act_get_def)
    then show ?thesis
    proof (cases rule: act_bindE)
      case (raised x)
      then show ?thesis using publish_raised [OF raised(1)] assms(2) by (auto simp: safe_result_def)
    next
      case (returned outcome s1)
      obtain w1 where s1: "s1 = (mw, m, w1)"
        and ok: "outcome_ok outcome \<Longrightarrow> \<exists>out. f env w = (Inr (Some out), w1) \<and> po_ok out"
        by (rule published [OF returned(1)]) blast
      show ?thesis
      proof (cases "outcome_ok outcome")
        case True
        then have "copied_ok rt mw (rw_publish_fn mw) m w" using ok Inr Some unfolding copied_ok_def by blast
        with True returned(2) s1 assms(2) show ?thesis
          by (intro sync_acker.ack_then [where g = "record_retried rt (ce_category c)"]) (auto intro: keeps_msg_intros)
      next
        case False
        with returned(2) s1 assms(2) show ?thesis
          by (intro sync_acker.nack_then [where g = "act_bind (record_handoff_failure rt) (\<lambda>_. act_ret ())"])
            (auto intro!: keeps_msg_intros)
      qed
    qed
  qed
qed

lemma hold_then_nack_safe:
  assumes "act_bind (record_handoff_failure rt) (\<lambda>backoff. act_ensure
        (act_when (p backoff) (act_get (\<lambda>(mw, m, w). on_world (sleep mw backoff))))
        (act_when pending_msg (on_msg (msg_nack_async True)))) (mw0, m, w0) = (r, (mw', m', w'))"
    and "m_disposition m = DP_PENDING"
  shows "safe_result rt mw pub m w r m'"
  using assms(1)
proof (cases rule: act_bindE)
  case (raised x)
  then show ?thesis using keeps_msgD [OF keeps_msg_failure raised(1)] assms(2) by (auto simp: safe_result_def)
next
  case (returned backoff s1)
  obtain mw1 w1 where s1: "s1 = (mw1, m, w1)"
    using keeps_msgD [OF keeps_msg_failure] returned(1) by (metis prod_cases3)
  let ?hold = "act_when (p backoff) (act_get (\<lambda>(mw, m, w). on_world (sleep mw backoff)))"
  obtain r2 mw2 m2 w2 where hold: "?hold (mw1, m, w1) = (r2, (mw2, m2, w2))" by (metis prod_cases4)
  then have m2: "m2 = m" by (auto simp: act_when_def act_get_def on_world_def split: if_splits prod.splits)
  obtain r3 s3 where nack: "act_when pending_msg (on_msg (msg_nack_async True)) (mw2, m, w2) = (r3, s3)"
    by (metis surj_pair)
  have "s3 = (mw', m', w')" "r = (case r3 of Inl x \<Rightarrow> Inl x | Inr _ \<Rightarrow> r2)"
    using returned(2) s1 hold nack m2 by (auto simp: act_ensure_def split: sum.splits)
  with async_acker.nack_pending [of mw2 m w2 r3] nack assms(2) show ?thesis
    by (auto simp: safe_result_def split: sum.splits)
qed

lemma route_async_safe:
  assumes "route_to_delay_queue_async rt n e c (mw, m, w) = (r, (mw', m', w'))" "m_disposition m = DP_PENDING"
  shows "safe_result rt mw (rw_publish_async_fn mw) m w r m'"
proof (cases "build_retry_envelope rt mw m n e c")
  case (Inl x)
  then show ?thesis
    using assms by (auto simp: route_to_delay_queue_async_def act_get_def act_raise_def safe_result_def)
next
  case (Inr env)
  show ?thesis
  proof (cases "rw_publish_async_fn mw")
    case None
    then show ?thesis
      using assms Inr
      by (intro async_acker.nack_only) (auto simp: route_to_delay_queue_async_def act_get_def act_raise_def)
  next
    case (Some f)
    let ?hold = "act_bind (record_handoff_failure rt) (\<lambda>backoff. act_ensure
        (act_when (\<lambda>s. rw_sleep_on_handoff_failure (fst s) \<and> backoff > 0 \<and> pending_msg s)
           (act_get (\<lambda>(mw, m, w). on_world (rw_sleep mw backoff))))
        (act_when pending_msg (on_msg (msg_nack_async True))))"
    have "act_bind (safe_publish f env) (\<lambda>outcome. if \<not> outcome_ok outcome then ?hold
         else act_bind (act_when pending_msg (on_msg msg_ack_async)) (\<lambda>_. record_retried rt (ce_category c))) (mw, m, w)
         = (r, (mw', m', w'))"
      using assms(1) Inr Some
      by (simp add: route_to_delay_queue_async_def act_get_def)
    then show ?thesis
    proof (cases rule: act_bindE)
      case (raised x)
      then show ?thesis using publish_raised [OF raised(1)] assms(2) by (auto simp: safe_result_def)
    next
      case (returned outcome s1)
      obtain w1 where s1: "s1 = (mw, m, w1)"
        and ok: "outcome_ok outcome \<Longrightarrow> \<exists>out. f env w = (Inr (Some out), w1) \<and> po_ok out"
        by (rule published [OF returned(1)]) blast
      show ?thesis
      proof (cases "outcome_ok outcome")
        case True
        then have "copied_ok rt mw (rw_publish_async_fn mw) m w" using ok Inr Some unfolding copied_ok_def by blast
        with True returned(2) s1 assms(2) show ?thesis
          by (intro async_acker.ack_then [where g = "record_retried rt (ce_category c)"]) (auto intro: keeps_msg_intros)
      next
        case False
        with returned(2) s1 assms(2) show ?thesis by (intro hold_then_nack_safe) auto
      qed
    qed
  qed
qed

lemma handle_retry_safe:
  assumes "m_disposition m = DP_PENDING"
  shows "handle_retry_sync rt e (mw, m, w) = (r, (mw', m', w')) \<Longrightarrow>
      safe_result rt mw (rw_publish_fn mw) m w r m'"
    and "handle_retry_async rt e (mw, m, w) = (r, (mw', m', w')) \<Longrightarrow>
      safe_result rt mw (rw_publish_async_fn mw) m w r m'"
proof -
  consider (bad) x where "decide_retry rt mw e m = Inl x"
    | (go) c n where "decide_retry rt mw e m = Inr (c, n, None)"
    | (stop) c n category where "decide_retry rt mw e m = Inr (c, n, Some category)"
    by (cases "decide_retry rt mw e m") (auto, metis option.exhaust)
  note cases = this
  show "safe_result rt mw (rw_publish_fn mw) m w r m'"
    if "handle_retry_sync rt e (mw, m, w) = (r, (mw', m', w'))"
    using cases
  proof cases
    case bad
    with that assms show ?thesis by (auto simp: handle_retry_sync_def act_get_def act_raise_def safe_result_def)
  next
    case go
    with that assms show ?thesis
      by (intro route_sync_safe) (auto simp: handle_retry_sync_def act_get_def act_raise_def)
  next
    case stop
    with that assms show ?thesis
      by (intro sync_acker.terminal_safe)
        (auto simp: handle_retry_sync_def terminal_sync_def act_get_def act_raise_def)
  qed
  show "safe_result rt mw (rw_publish_async_fn mw) m w r m'"
    if "handle_retry_async rt e (mw, m, w) = (r, (mw', m', w'))"
    using cases
  proof cases
    case bad
    with that assms show ?thesis by (auto simp: handle_retry_async_def act_get_def act_raise_def safe_result_def)
  next
    case go
    with that assms show ?thesis
      by (intro route_async_safe) (auto simp: handle_retry_async_def act_get_def act_raise_def)
  next
    case stop
    with that assms show ?thesis
      by (intro async_acker.terminal_safe)
        (auto simp: handle_retry_async_def terminal_async_def act_get_def act_raise_def)
  qed
qed

section \<open>Lemmas on the delay-queue topology\<close>

lemma sequence_map_Inr: "sequence (map Inr ys) = Inr ys"
  by (induction ys) auto

lemma sequence_Inr: "sequence xs = Inr ys \<longleftrightarrow> xs = map Inr ys"
proof
  show "sequence xs = Inr ys \<Longrightarrow> xs = map Inr ys"
    by (induction xs arbitrary: ys) (auto split: sum.splits)
qed (simp add: sequence_map_Inr)

lemma map_nth_eq: "map f xs = map g ys \<Longrightarrow> i < length xs \<Longrightarrow> f (xs ! i) = g (ys ! i)"
  by (metis length_map nth_map)

lemma length_shard_multipliers: "2 \<le> shards \<Longrightarrow> length (shard_ttl_multipliers shards jf) = nat shards"
  by (auto simp: shard_ttl_multipliers_def Let_def)

lemma dict_ok_quorum_delay: "dict_ok (quorum_delay_arguments cfg)"
  by (auto simp: quorum_delay_arguments_def Let_def opt_set_def dict_ok_def split: option.split)

lemma dict_get_quorum_delay:
  "k \<in> {''x-message-ttl'', ''x-dead-letter-exchange'', ''x-dead-letter-routing-key'', ''x-queue-type''} \<Longrightarrow>
     dict_get (quorum_delay_arguments cfg) k = None"
  by (auto simp: quorum_delay_arguments_def Let_def split: option.split)

lemma dict_ok_update_all: "dict_ok d \<Longrightarrow> dict_ok (dict_update_all d e)"
  by (induction e arbitrary: d) auto

lemma delay_queue_declared:
  assumes "delay_queue cfg q ty attempt ms sm = Inr d"
  shows "rq_name d = shard_queue_name q (int attempt) (int (fst sm))"
    "dict_get (declare_arguments d) ''x-dead-letter-exchange'' = Some (PyStr '''')"
    "dict_get (declare_arguments d) ''x-dead-letter-routing-key'' = Some (PyStr q)"
    "\<exists>ttl. dict_get (declare_arguments d) ''x-message-ttl'' = Some (PyInt ttl) \<and> 1 \<le> ttl"
proof -
  let ?base = "[(''x-message-ttl'', PyInt (max 1 \<lfloor>real_of_int ms * snd sm\<rfloor>)), (''x-dead-letter-exchange'', PyStr ''''),
            (''x-dead-letter-routing-key'', PyStr q), (''x-queue-type'', PyStr ty)]"
  let ?args = "if ty = ''quorum'' then dict_update_all ?base (quorum_delay_arguments cfg) else ?base"
  have d: "d = (queue_named (shard_queue_name q (int attempt) (int (fst sm))))\<lparr>rq_arguments := ?args\<rparr>"
    using assms by (auto simp: delay_queue_def Let_def rabbit_queue_def split: sum.splits)
  show "rq_name d = shard_queue_name q (int attempt) (int (fst sm))" by (simp add: d queue_named_def)
  have base: "dict_ok ?base" by (simp add: dict_ok_def)
  then have ok: "dict_ok (rq_arguments d)" using dict_ok_update_all [OF base] by (auto simp: d)
  have get: "dict_get (rq_arguments d) k = dict_get ?base k"
    if "k \<in> {''x-message-ttl'', ''x-dead-letter-exchange'', ''x-dead-letter-routing-key'', ''x-queue-type''}" for k
    using dict_get_quorum_delay [OF that, of cfg]
    by (simp add: d dict_get_update_all dict_ok_quorum_delay del: map_of.simps)
  show "dict_get (declare_arguments d) ''x-dead-letter-exchange'' = Some (PyStr '''')"
    "dict_get (declare_arguments d) ''x-dead-letter-routing-key'' = Some (PyStr q)"
    "\<exists>ttl. dict_get (declare_arguments d) ''x-message-ttl'' = Some (PyInt ttl) \<and> 1 \<le> ttl"
    by (simp_all add: declare_arguments_def dict_get_update_all [OF ok] get)
qed

lemma tier_has_shard:
  assumes "tier_queues cfg q ty mults attempt = Inr ds" "shard < length mults"
  obtains d ms where "d \<in> set ds" "delay_queue cfg q ty attempt ms (shard, mults ! shard) = Inr d"
proof -
  obtain ms where "map (delay_queue cfg q ty attempt ms) (enumerate 0 mults) = map Inr ds"
    using assms(1) by (auto simp: tier_queues_def sequence_Inr split: sum.splits)
  moreover from this have "length ds = length mults" by (metis length_enumerate length_map)
  ultimately have "delay_queue cfg q ty attempt ms (enumerate 0 mults ! shard) = Inr (ds ! shard)"
    using assms(2) by (metis length_enumerate nth_map)
  then show thesis
    using that [of "ds ! shard" ms] assms(2) \<open>length ds = length mults\<close> by (simp add: nth_enumerate_eq)
qed

lemma definitions_have_tier:
  assumes "get_delay_queue_definitions cfg q st ver = Inr qs" "1 \<le> attempt" "int attempt \<le> rc_max_retries cfg"
    and "shard < (if rc_jitter_mode cfg = ''sharded''
                  then length (shard_ttl_multipliers (rc_jitter_shards cfg) (rc_jitter_factor cfg)) else 1)"
  obtains d ms ty mult where "d \<in> set qs" "delay_queue cfg q ty attempt ms (shard, mult) = Inr d"
proof -
  let ?mults = "if rc_jitter_mode cfg = ''sharded''
                  then shard_ttl_multipliers (rc_jitter_shards cfg) (rc_jitter_factor cfg) else [1]"
  let ?ty = "resolve_queue_type (rc_delay_queue_type cfg) st ''classic''"
  obtain tiers dlq where tiers: "map (tier_queues cfg q ?ty ?mults) [1..<nat (rc_max_retries cfg) + 1] = map Inr tiers"
    and qs: "qs = concat tiers @ [dlq]"
    using assms(1) by (auto simp: get_delay_queue_definitions_def Let_def sequence_Inr split: sum.splits if_splits)
  have i: "attempt - 1 < length [1..<nat (rc_max_retries cfg) + 1]"
    using assms(2,3) by (simp del: upt_Suc)
  have len: "length tiers = length [1..<nat (rc_max_retries cfg) + 1]" using tiers by (metis length_map)
  have "tier_queues cfg q ?ty ?mults ([1..<nat (rc_max_retries cfg) + 1] ! (attempt - 1)) = Inr (tiers ! (attempt - 1))"
    by (rule map_nth_eq [OF tiers i])
  moreover have "[1..<nat (rc_max_retries cfg) + 1] ! (attempt - 1) = attempt" using assms(2,3) by (subst nth_upt) auto
  ultimately have tier: "tier_queues cfg q ?ty ?mults attempt = Inr (tiers ! (attempt - 1))" by simp
  have "shard < length ?mults" using assms(4) by (auto split: if_splits)
  then obtain d ms where d: "d \<in> set (tiers ! (attempt - 1))"
    "delay_queue cfg q ?ty attempt ms (shard, ?mults ! shard) = Inr d"
    by (rule tier_has_shard [OF tier])
  moreover have "tiers ! (attempt - 1) \<in> set tiers" using i len by simp
  ultimately have "d \<in> set qs" using qs by auto
  then show thesis using d(2) by (rule that)
qed

lemma definitions_have_dlq:
  assumes "get_delay_queue_definitions cfg q st ver = Inr qs"
  obtains d where "d \<in> set qs" "rq_name d = get_dlq_name q"
proof -
  obtain tiers dlq quo ver' gs where "qs = concat tiers @ [dlq]"
    and dlq: "dlq_queue_definition (get_dlq_name q) quo ver' gs = Inr dlq"
    using assms by (auto simp: get_delay_queue_definitions_def Let_def split: sum.splits)
  moreover from dlq have "rq_name dlq = get_dlq_name q"
    by (auto simp: dlq_queue_definition_def rabbit_queue_def queue_named_def split: sum.splits if_splits)
  ultimately show thesis by (intro that [of dlq]) simp
qed

section \<open>Properties\<close>




definition example_outcome :: publish_outcome where
  "example_outcome = \<lparr>po_status = PS_CONFIRMED, po_delivery_tag = None, po_exchange = '''', po_routing_key = '''',
     po_error = None, po_timestamp = 0, po_reason = None, po_reply_code = None, po_reply_text = None\<rparr>"

definition example_mw :: "unit retry_mw" where
  "example_mw = \<lparr>rw_config = example_retry, rw_sanitizer = example_sanitizer,
     rw_handoff = tracker_init example_handoff, rw_on_handoff_failure = None, rw_on_handoff_exhausted = None,
     rw_sleep_on_handoff_failure = True, rw_exhausted_logged = False,
     rw_classifier = \<lparr>ecl_predicates = [], ecl_unknown_policy = SV_PERMANENT\<rparr>,
     rw_publish_fn = Some (\<lambda>env w. (Inr (Some example_outcome), w)), rw_publish_async_fn = None,
     rw_metrics_collector = None, rw_metrics_config = None, rw_sleep = (\<lambda>_ w. (Inr (), w))\<rparr>"

definition example_timeout :: py_exc where
  "example_timeout = mk_exc [''TimeoutError'', ''OSError'', ''Exception'', ''BaseException''] ''late''"

lemma example_retry_valid: "retry_config_init example_retry = Inr example_retry"
  by (simp add: retry_config_init_def example_retry_def RETRY_QUEUE_TYPES_def)

lemma example_decide:
  "\<exists>c. decide_retry example_runtime example_mw example_timeout (example_msg :: unit msg) = Inr (c, 0, None)"
proof -
  have "classify_inner example_timeout [] TRANSIENT_ERRORS PERMANENT_ERRORS SV_PERMANENT []
      = result_ce example_timeout EC_RETRYABLE ''transient error''"
    by (simp add: classify_inner_def example_timeout_def SHUTDOWN_ERRORS_def TRANSIENT_ERRORS_def mk_exc_def
        isinstance_def)
  then have "ce_severity (classifier_classify [] (rw_classifier example_mw) example_timeout) = SV_TRANSIENT"
    by (simp add: classifier_classify_def classify_error_def example_mw_def example_timeout_def mk_exc_def
        ec_severity_def Let_def)
  moreover have "get_retry_count example_runtime example_retry (m_headers (example_msg :: unit msg)) = Inr 0"
    by (simp add: get_retry_count_def example_retry_def example_msg_def dict_get_or_def hget_def header_names
        xdeath_retry_floor_def Let_def)
  ultimately show ?thesis
    by (simp add: decide_retry_def example_mw_def example_runtime_def retry_age_exceeded_def example_retry_def
        Let_def)
qed




end
