(* ===== verification/Rk_DeadLetter.thy ===== *)
theory Rk_DeadLetter
  imports Rk_FailureCopy Rk_Topology
begin

text \<open>
  The dead-letter guard and the dead-letter copier (\<^verbatim>\<open>core/dead_letter.py\<close>).

  Both read only the queue of a route, so they take the queue.  The probe and the confirmed publish
  are functions on the world that may raise; the reading of the injected monotonic clock is an
  argument of \<open>guard_check\<close>.  Log lines are left out.
\<close>

section \<open>DeadLetterGuard\<close>

record 'w dl_guard =
  dg_probe :: "string \<Rightarrow> ('w, py_exc, bool) act"
  dg_ttl :: real
  dg_targets :: "(string, string option) dict"
  dg_verified_until :: "(string, real) dict"
  dg_probes :: int
  dg_missing :: int

definition guard_init :: "(string \<Rightarrow> ('w, py_exc, bool) act) \<Rightarrow> real \<Rightarrow> 'w dl_guard" where
  "guard_init probe ttl = \<lparr>dg_probe = probe, dg_ttl = ttl, dg_targets = [], dg_verified_until = [],
     dg_probes = 0, dg_missing = 0\<rparr>"

definition set_target :: "string \<Rightarrow> string option \<Rightarrow> string option \<Rightarrow> 'w dl_guard \<Rightarrow> 'w dl_guard" where
  "set_target q exchange rk g = g\<lparr>
     dg_targets := dict_set q (if exchange = Some '''' \<and> rk \<noteq> None \<and> rk \<noteq> Some '''' then rk else None)
       (dg_targets g),
     dg_verified_until := dict_pop q (dg_verified_until g)\<rparr>"

definition target_for :: "'w dl_guard \<Rightarrow> queue \<Rightarrow> string option" where
  "target_for g q =
     (case dict_get (dg_targets g) (rq_name q) of
        Some t \<Rightarrow> t
      | None \<Rightarrow>
          if rq_dead_letter_exchange q = Some '''' \<and> rq_dead_letter_routing_key q \<noteq> None
             \<and> rq_dead_letter_routing_key q \<noteq> Some ''''
          then rq_dead_letter_routing_key q else None)"

definition broker_retains_dead_letters :: "queue \<Rightarrow> bool" where
  "broker_retains_dead_letters q \<longleftrightarrow>
     rq_queue_type q = QT_QUORUM \<and> rq_dead_letter_strategy q = Some DL_AT_LEAST_ONCE"

definition guard_verdict :: "real \<Rightarrow> string \<Rightarrow> bool \<Rightarrow> 'w dl_guard \<Rightarrow> 'w dl_guard" where
  "guard_verdict now t found g =
     (if found then g\<lparr>dg_verified_until := dict_set t (now + dg_ttl g) (dg_verified_until g)\<rparr>
      else g\<lparr>dg_verified_until := dict_pop t (dg_verified_until g), dg_missing := dg_missing g + 1\<rparr>)"

definition guard_check :: "real \<Rightarrow> queue \<Rightarrow> ('w dl_guard \<times> 'w, py_exc, bool) act" where
  "guard_check now q = act_get (\<lambda>(g, w).
     case target_for g q of
       None \<Rightarrow> act_ret True
     | Some t \<Rightarrow>
         if broker_retains_dead_letters q then act_ret True
         else if dict_get_or (dg_verified_until g) t 0 > now then act_ret True
         else act_bind (act_upd (apfst (\<lambda>g. g\<lparr>dg_probes := dg_probes g + 1\<rparr>))) (\<lambda>_.
              act_bind (act_try (act_snd (dg_probe g t))
                (\<lambda>e. if is_exception e then act_ret False else act_raise e)) (\<lambda>found.
              act_bind (act_upd (apfst (guard_verdict now t found))) (\<lambda>_. act_ret found))))"

section \<open>DeadLetterCopier\<close>

record 'w dl_copier =
  dc_publish :: "envelope \<Rightarrow> ('w, py_exc, publish_outcome) act"
  dc_target_for :: "queue \<Rightarrow> string option"
  dc_sanitizer_for :: "queue \<Rightarrow> sanitizer"
  dc_retry_header_for :: "queue \<Rightarrow> string"
  dc_copied :: int
  dc_failed :: int

text \<open>\<^verbatim>\<open>__init__\<close>; the default sanitizer is \<^verbatim>\<open>ErrorSanitizer(max_summary_len=512)\<close>, whose patterns are
  an argument.\<close>

definition copier_init ::
    "(envelope \<Rightarrow> ('w, py_exc, publish_outcome) act) \<Rightarrow> (queue \<Rightarrow> string option)
       \<Rightarrow> (queue \<Rightarrow> sanitizer) option \<Rightarrow> (queue \<Rightarrow> string) option \<Rightarrow> sanitizer \<Rightarrow> 'w dl_copier" where
  "copier_init publish target sanitizer_for retry_header_for default_sanitizer =
     \<lparr>dc_publish = publish, dc_target_for = target,
      dc_sanitizer_for = (case sanitizer_for of None \<Rightarrow> (\<lambda>_. default_sanitizer) | Some f \<Rightarrow> f),
      dc_retry_header_for = (case retry_header_for of None \<Rightarrow> (\<lambda>_. DEFAULT_RETRY_HEADER) | Some f \<Rightarrow> f),
      dc_copied = 0, dc_failed = 0\<rparr>"

definition copier_envelope ::
    "runtime \<Rightarrow> 'w dl_copier \<Rightarrow> queue \<Rightarrow> 'm msg \<Rightarrow> py_exc \<Rightarrow> string \<Rightarrow> string \<Rightarrow> py_exc + envelope" where
  "copier_envelope rt c q m e reason dlq =
     dead_letter_envelope rt m dlq e (classify_default (rt_infrastructure rt) e)
       (if reason = ''transient_on_redelivery'' then FC_EXHAUSTED else FC_PERMANENT)
       (if m_redelivered m then 2 else 1)
       (dc_sanitizer_for c q)
       (dict_set (dc_retry_header_for c q) (PyInt 0) [(H_ORIGINAL_QUEUE, PyStr (rq_name q))])"

definition count_failed :: "('w dl_copier \<times> 'w, py_exc, bool) act" where
  "count_failed = act_bind (act_upd (apfst (\<lambda>c. c\<lparr>dc_failed := dc_failed c + 1\<rparr>))) (\<lambda>_. act_ret False)"

definition copier_copy ::
    "runtime \<Rightarrow> queue \<Rightarrow> 'm msg \<Rightarrow> py_exc \<Rightarrow> string \<Rightarrow> ('w dl_copier \<times> 'w, py_exc, bool) act" where
  "copier_copy rt q m e reason = act_get (\<lambda>(c, w).
     case dc_target_for c q of
       None \<Rightarrow> act_ret False
     | Some dlq \<Rightarrow> act_bind (act_of (copier_envelope rt c q m e reason dlq)) (\<lambda>env.
         act_bind (act_try (act_bind (act_snd (dc_publish c env)) (\<lambda>out. act_ret (Some out)))
           (\<lambda>x. if is_exception x then act_ret None else act_raise x)) (\<lambda>outcome.
         case outcome of
           None \<Rightarrow> count_failed
         | Some out \<Rightarrow>
             if po_status out \<noteq> PS_CONFIRMED then count_failed
             else act_bind (act_upd (apfst (\<lambda>c. c\<lparr>dc_copied := dc_copied c + 1\<rparr>))) (\<lambda>_. act_ret True))))"

section \<open>Runs of a guard\<close>

text \<open>\<open>asked\<close> is the queue a check has to probe, \<open>answered\<close> that the probe found it.  A run of the
  guard interleaves declarations, checks and whatever else changes the world; \<open>hits\<close> holds the
  moment and the queue of every probe that found its queue.\<close>

definition asked :: "real \<Rightarrow> queue \<Rightarrow> 'w dl_guard \<Rightarrow> string option" where
  "asked now q g =
     (case target_for g q of
        None \<Rightarrow> None
      | Some t \<Rightarrow> if broker_retains_dead_letters q \<or> dict_get_or (dg_verified_until g) t 0 > now then None
                  else Some t)"

definition answered :: "'w dl_guard \<Rightarrow> string \<Rightarrow> 'w \<Rightarrow> bool" where
  "answered g t w \<longleftrightarrow> fst (dg_probe g t w) = Inr True"

inductive guard_run :: "'w dl_guard \<Rightarrow> 'w \<Rightarrow> (real \<times> string) list \<Rightarrow> bool" where
  start: "guard_run (guard_init probe ttl) w []"
| declared: "guard_run g w hits \<Longrightarrow> guard_run (set_target q ex rk g) w hits"
| outside: "guard_run g w hits \<Longrightarrow> guard_run g w' hits"
| checked: "guard_run g w hits \<Longrightarrow> guard_check now q (g, w) = (r, (g', w')) \<Longrightarrow>
    guard_run g' w'
      (case asked now q g of Some t \<Rightarrow> if answered g t w then (now, t) # hits else hits | None \<Rightarrow> hits)"

text \<open>Every cached answer goes back to a probe that found the queue, one time-to-live ago.\<close>

definition cache_backed :: "'w dl_guard \<Rightarrow> (real \<times> string) list \<Rightarrow> bool" where
  "cache_backed g hits \<longleftrightarrow>
     (\<forall>t v. dict_get (dg_verified_until g) t = Some v \<longrightarrow> (\<exists>s. (s, t) \<in> set hits \<and> v = s + dg_ttl g))"

lemma cache_backed_mono: "cache_backed g hits \<Longrightarrow> set hits \<subseteq> set hits' \<Longrightarrow> cache_backed g hits'"
  unfolding cache_backed_def by blast

lemma cache_backed_verdict:
  assumes "cache_backed g hits" and "found \<longrightarrow> (now, t) \<in> set hits"
  shows "cache_backed (guard_verdict now t found g) hits"
  using assms by (auto simp: cache_backed_def guard_verdict_def split: if_splits)

lemma target_for_upd [simp]:
  "target_for (g\<lparr>dg_probes := n\<rparr>) q = target_for g q"
  "target_for (g\<lparr>dg_missing := n\<rparr>) q = target_for g q"
  "target_for (g\<lparr>dg_verified_until := d\<rparr>) q = target_for g q"
  by (simp_all add: target_for_def)

text \<open>One check, by what it asks.\<close>

lemma guard_check_free:
  "asked now q g = None \<Longrightarrow> guard_check now q (g, w) = (Inr True, (g, w))"
  by (auto simp: guard_check_def asked_def act_simps split: option.splits if_splits)

lemma guard_check_probe:
  assumes "asked now q g = Some t"
  shows "guard_check now q (g, w) =
    (let g1 = g\<lparr>dg_probes := dg_probes g + 1\<rparr> in
     case dg_probe g t w of
       (Inr b, w') \<Rightarrow> (Inr b, (guard_verdict now t b g1, w'))
     | (Inl e, w') \<Rightarrow> if is_exception e then (Inr False, (guard_verdict now t False g1, w'))
                      else (Inl e, (g1, w')))"
  using assms
  by (auto simp: guard_check_def asked_def act_simps act_snd_def Let_def split: option.splits if_splits prod.splits
      sum.splits)

lemma guard_run_backed: "guard_run g w hits \<Longrightarrow> cache_backed g hits"
proof (induction rule: guard_run.induct)
  case (start probe ttl w)
  show ?case by (simp add: cache_backed_def guard_init_def)
next
  case (declared g w hits q ex rk)
  then show ?case by (auto simp: cache_backed_def set_target_def split: if_splits)
next
  case (checked g w hits now q r g' w')
  show ?case
  proof (cases "asked now q g")
    case None
    with checked guard_check_free [OF None] show ?thesis by auto
  next
    case (Some t)
    let ?g = "g\<lparr>dg_probes := dg_probes g + 1\<rparr>"
    let ?hits = "if answered g t w then (now, t) # hits else hits"
    have "cache_backed ?g hits" using checked.IH by (simp add: cache_backed_def)
    then have hits: "cache_backed ?g ?hits" by (rule cache_backed_mono) auto
    then have "cache_backed (guard_verdict now t False ?g) ?hits"
      by (rule cache_backed_verdict) simp
    moreover have "cache_backed (guard_verdict now t True ?g) ?hits" if "answered g t w"
      using hits by (rule cache_backed_verdict) (simp add: that)
    ultimately have "cache_backed g' ?hits"
      using checked.hyps(2) guard_check_probe [OF Some, of w] hits
      by (auto simp: Let_def answered_def split: prod.splits sum.splits if_splits)
    with Some show ?thesis by simp
  qed
qed

text \<open>Declaring a source queue again drops the cache entry of the source queue's own name, while the
  cache is kept per dead-letter queue: the cached answer about its target survives.\<close>

lemma set_target_keeps_cache:
  assumes "rk \<noteq> q" and "rk \<noteq> ''''"
  shows "target_for (set_target q (Some '''') (Some rk) g) ((queue_named q)) = Some rk
    \<and> dict_get (dg_verified_until (set_target q (Some '''') (Some rk) g)) rk = dict_get (dg_verified_until g) rk"
  using assms by (simp add: set_target_def target_for_def queue_named_def)

section \<open>The copy\<close>

lemma copier_copy_cases:
  "copier_copy rt q m e reason (c, w) =
    (case dc_target_for c q of
       None \<Rightarrow> (Inr False, (c, w))
     | Some dlq \<Rightarrow> (case copier_envelope rt c q m e reason dlq of
         Inl x \<Rightarrow> (Inl x, (c, w))
       | Inr env \<Rightarrow> (case dc_publish c env w of
           (Inl x, w') \<Rightarrow> if is_exception x then (Inr False, (c\<lparr>dc_failed := dc_failed c + 1\<rparr>, w'))
                          else (Inl x, (c, w'))
         | (Inr out, w') \<Rightarrow>
             if po_status out = PS_CONFIRMED then (Inr True, (c\<lparr>dc_copied := dc_copied c + 1\<rparr>, w'))
             else (Inr False, (c\<lparr>dc_failed := dc_failed c + 1\<rparr>, w')))))"
  by (auto simp: copier_copy_def count_failed_def act_simps act_snd_def
      split: option.splits sum.splits prod.splits)

lemma stamp_failure_queue:
  assumes "stamp_failure rt h m e c cat att now san = Inr h'" and "dict_get h H_ORIGINAL_QUEUE \<noteq> None"
  shows "dict_get h' H_ORIGINAL_QUEUE = dict_get h H_ORIGINAL_QUEUE"
  by (rule stamp_failureE [OF assms(1)]) (simp add: dict_get_stamped assms(2))

lemma copier_envelope_facts:
  assumes "copier_envelope rt c q m e reason dlq = Inr env"
    and "dc_retry_header_for c q \<noteq> H_ORIGINAL_QUEUE" and "rq_name q \<noteq> ''''"
  shows "me_routing_key env = dlq \<and> me_exchange env = '''' \<and> me_mandatory env \<and> me_body env = m_wire_body m
    \<and> hget (me_headers env) H_ORIGINAL_QUEUE \<notin> {PyNone, PyStr ''''}"
proof -
  define h where "h = fill_defaults (dict_set (dc_retry_header_for c q) (PyInt 0)
    [(H_ORIGINAL_QUEUE, PyStr (rq_name q))]) (m_headers m)"
  have named: "hget h H_ORIGINAL_QUEUE \<notin> {PyNone, PyStr ''''}"
    using assms(2,3) by (auto simp: h_def fill_defaults_def hget_def dict_get_or_def split: option.splits)
  obtain h2 where h2: "stamp_failure rt (snd (stable_message_id rt m h)) m e
      (classify_default (rt_infrastructure rt) e)
      (if reason = ''transient_on_redelivery'' then FC_EXHAUSTED else FC_PERMANENT)
      (if m_redelivered m then 2 else 1) (rt_iso rt (rt_now rt)) (dc_sanitizer_for c q) = Inr h2"
    and env: "copy_envelope m dlq (dict_set H_DEAD_LETTERED_AT (PyStr (rt_iso rt (rt_now rt))) h2)
      (fst (stable_message_id rt m h)) = Inr env"
    using dead_letter_envelopeE [OF assms(1) [unfolded copier_envelope_def]] unfolding h_def by blast
  have "dict_get (me_headers env) H_ORIGINAL_QUEUE = dict_get h2 H_ORIGINAL_QUEUE"
    using copy_envelopeD(4) [OF env] by simp
  moreover have "dict_get (snd (stable_message_id rt m h)) H_ORIGINAL_QUEUE = dict_get h H_ORIGINAL_QUEUE"
    by (simp add: stable_message_id_get)
  with named have "dict_get h2 H_ORIGINAL_QUEUE = dict_get h H_ORIGINAL_QUEUE"
    using stamp_failure_queue [OF h2] by (simp add: hget_def dict_get_or_def split: option.splits)
  ultimately show ?thesis
    using named copy_envelopeD [OF env] by (simp add: hget_def dict_get_or_def)
qed

section \<open>Properties\<close>

text \<open>C20: the guard clears a rejection only on evidence.  In every run of a guard, when a check lets a
  delivery be dead-lettered into a queue it can verify, either the broker retains dead letters
  itself, or a probe found that very queue now or less than one time-to-live ago; and when it
  refuses, the probe made by this check did not find the queue, and the next check probes again.\<close>

theorem guard_clears_on_evidence:
  assumes "guard_run g w hits" and "0 \<le> now" and "target_for g q = Some t"
    and "\<not> broker_retains_dead_letters q"
    and "guard_check now q (g, w) = (Inr verdict, (g', w'))"
  shows "if verdict
    then answered g t w \<or> (\<exists>s. (s, t) \<in> set hits \<and> now < s + dg_ttl g)
    else \<not> answered g t w \<and> (\<forall>later \<ge> 0. asked later q g' = Some t)"
proof (cases "asked now q g")
  case None
  then have "dict_get_or (dg_verified_until g) t 0 > now"
    using assms(3,4) by (auto simp: asked_def split: if_splits)
  then obtain v where "dict_get (dg_verified_until g) t = Some v" "now < v"
    using assms(2) by (auto simp: dict_get_or_def split: option.splits)
  then have "\<exists>s. (s, t) \<in> set hits \<and> now < s + dg_ttl g"
    using guard_run_backed [OF assms(1)] unfolding cache_backed_def by blast
  then show ?thesis using assms(5) guard_check_free [OF None, of w] by simp
next
  case (Some t')
  then have [simp]: "t' = t" using assms(3) by (auto simp: asked_def split: if_splits)
  show ?thesis
    using assms(3,4,5) guard_check_probe [OF Some, of w]
    by (auto simp: Let_def answered_def asked_def guard_verdict_def dict_get_or_def
        split: prod.splits sum.splits if_splits)
qed


text \<open>A guard over a world that is the existence of the dead-letter queue, and a copier whose publish
  is always confirmed.\<close>

definition example_queue :: queue where
  "example_queue = (queue_named ''orders'')\<lparr>rq_dead_letter_exchange := Some '''',
     rq_dead_letter_routing_key := Some ''orders.dlq''\<rparr>"

definition example_guard :: "bool dl_guard" where
  "example_guard = guard_init (\<lambda>_ w. (Inr w, w)) 5"

lemmas guard_examples = example_queue_def example_guard_def queue_named_def guard_init_def

theorem guard_clears_on_evidence_witness:
  "\<exists>g' hits. guard_run g' False hits \<and> fst (guard_check 3 example_queue (g', False)) = Inr True
     \<and> (\<exists>s. (s, ''orders.dlq'') \<in> set hits \<and> 3 < s + dg_ttl g')
     \<and> fst (guard_check 7 example_queue (g', False)) = Inr False"
proof -
  let ?g = "example_guard\<lparr>dg_verified_until := [(''orders.dlq'', 6)], dg_probes := 1\<rparr>"
  have first: "guard_check 1 example_queue (example_guard, True) = (Inr True, (?g, True))"
    by (simp add: guard_check_def guard_examples target_for_def broker_retains_dead_letters_def
        guard_verdict_def dict_get_or_def act_simps act_snd_def)
  have ask: "asked 1 example_queue example_guard = Some ''orders.dlq''"
    by (simp add: asked_def guard_examples target_for_def broker_retains_dead_letters_def dict_get_or_def)
  have hit: "answered example_guard ''orders.dlq'' True"
    by (simp add: answered_def guard_examples)
  have "guard_run example_guard True []"
    unfolding example_guard_def by (rule guard_run.start)
  from guard_run.checked [OF this first] have "guard_run ?g True [(1, ''orders.dlq'')]"
    by (simp add: ask hit)
  then have run: "guard_run ?g False [(1, ''orders.dlq'')]" by (rule guard_run.outside)
  have third: "guard_check 3 example_queue (?g, False) = (Inr True, (?g, False))"
    by (simp add: guard_check_def guard_examples target_for_def broker_retains_dead_letters_def
        dict_get_or_def act_simps)
  have tgt: "target_for ?g example_queue = Some ''orders.dlq''" "\<not> broker_retains_dead_letters example_queue"
    by (simp_all add: guard_examples target_for_def broker_retains_dead_letters_def)
  have "\<not> answered ?g ''orders.dlq'' False"
    by (simp add: answered_def guard_examples)
  with guard_clears_on_evidence [OF run _ tgt third]
  have "\<exists>s. (s, ''orders.dlq'') \<in> set [(1, ''orders.dlq'')] \<and> 3 < s + dg_ttl ?g" by simp
  moreover have "fst (guard_check 7 example_queue (?g, False)) = Inr False"
    by (simp add: guard_check_def guard_examples target_for_def broker_retains_dead_letters_def
        guard_verdict_def dict_get_or_def act_simps act_snd_def)
  moreover have "fst (guard_check 3 example_queue (?g, False)) = Inr True" using third by simp
  ultimately show ?thesis using run by blast
qed

definition confirmed_outcome :: publish_outcome where
  "confirmed_outcome = \<lparr>po_status = PS_CONFIRMED, po_delivery_tag = Some 1, po_exchange = '''',
     po_routing_key = ''orders.dlq'', po_error = None, po_timestamp = 0, po_reason = None,
     po_reply_code = None, po_reply_text = None\<rparr>"

definition example_copier :: "envelope list dl_copier" where
  "example_copier = copier_init (\<lambda>env w. (Inr confirmed_outcome, w @ [env])) (target_for example_guard) None None
     example_sanitizer"


end
