(* ===== verification/Rk_Pipeline.thy ===== *)
theory Rk_Pipeline
  imports Rk_DeadLetter
begin

text \<open>
  The handler pipeline (\<^verbatim>\<open>core/pipeline.py\<close>): what happens to a delivery from the moment the transport
  hands it over until it is settled.

  The operations act on the pipeline object, the message and the world.  The middlewares of a route,
  the handler, the dependency resolver, the serializers, the dead-letter hooks, \<^verbatim>\<open>asyncio.sleep\<close> and
  \<^verbatim>\<open>asyncio.timeout\<close> are functions on the world that may raise.  The type variable \<open>'v\<close> stands for
  the Python objects a body decodes to and a handler returns.  Log lines, the debug context and the
  caches, which only save recomputing what is fixed for a route, are left out.
\<close>

section \<open>Routes\<close>

datatype 'v py_result =
    R_NONE
  | R_REQUEUED_FOR_RETRY
  | R_BYTES string
  | R_STR string
  | R_ENVELOPE envelope
  | R_OBJ 'v

datatype 'v body_value = BV_BYTES string | BV_OBJ 'v

record 'v serializer =
  sz_decode :: "(string \<Rightarrow> string \<Rightarrow> py_exc + 'v) option"
  sz_encode :: "('v \<Rightarrow> py_exc + string) option"

text \<open>The parameters of a handler as its signature gives them: the annotation (the message class, one
  with dependency markers, or a plain type), whether it collects arguments and whether it has a
  default.\<close>

datatype annotation = AN_RABBIT_MESSAGE | AN_ANNOTATED | AN_TYPE string

record param =
  pa_name :: string
  pa_var :: bool
  pa_ann :: "annotation option"
  pa_has_default :: bool

datatype 'v argument = ARG_MESSAGE | ARG_BODY "'v body_value" | ARG_OTHER 'v

type_synonym 'v kwargs = "(string \<times> 'v argument) list"

type_synonym ('w, 'a) mact = "('w msg \<times> 'w, py_exc, 'a) act"
type_synonym 'w send = "envelope \<Rightarrow> ('w, py_exc, publish_outcome) act"

record ('w, 'v) resolver =
  rs_resolve :: "'w msg \<Rightarrow> 'v body_value \<Rightarrow> ('w, py_exc, 'v kwargs) act"
  rs_cleanup :: "('w, py_exc, unit) act"

record ('w, 'v) middleware =
  mw_on_receive :: "('w, unit) mact"
  mw_on_receive_async :: "('w, unit) mact"
  mw_consume_scope :: "('w, 'v py_result) mact \<Rightarrow> ('w, 'v py_result) mact"
  mw_consume_scope_async :: "('w, 'v py_result) mact \<Rightarrow> ('w, 'v py_result) mact"
  mw_publish_scope :: "'w send \<Rightarrow> 'w send"
  mw_publish_scope_async :: "'w send \<Rightarrow> 'w send"

record 'w settlement_metrics =
  sm_record_settlement :: "'w msg \<Rightarrow> disposition \<Rightarrow> ('w, py_exc, unit) act"
  sm_record_outcome_unknown :: "'w msg \<Rightarrow> ('w, py_exc, unit) act"

record result_publisher =
  rp_exchange :: "string option"
  rp_routing_key :: string

text \<open>What the pipeline reads of a route; \<open>ro_resolver\<close> is the effective resolver of its handler and
  \<open>ro_metrics\<close> its first metrics middleware.\<close>

record ('w, 'v) route =
  ro_queue :: queue
  ro_ack_policy :: ack_policy
  ro_filter_fn :: "('w msg \<Rightarrow> py_exc + bool) option"
  ro_params :: "param list"
  ro_handler :: "'v kwargs \<Rightarrow> ('w, 'v py_result) mact"
  ro_resolver :: "('w, 'v) resolver option"
  ro_middlewares :: "('w, 'v) middleware list"
  ro_metrics :: "'w settlement_metrics option"
  ro_result_publisher :: "result_publisher option"
  ro_serializer_override :: "'v serializer option"
  ro_reply_to_allow :: "string list option"

record ('w, 'v) pipeline =
  pl_serializer :: "'v serializer option"
  pl_reject_transient_on_redelivery :: bool
  pl_manual_settle_on_error :: bool
  pl_processing_timeout :: "real option"
  pl_dead_letter_check :: "(queue \<Rightarrow> ('w, py_exc, bool) act) option"
  pl_max_body_bytes :: "int option"
  pl_dead_letter_copy :: "(queue \<Rightarrow> 'w msg \<Rightarrow> py_exc \<Rightarrow> string \<Rightarrow> ('w, py_exc, bool) act) option"
  pl_dlq_missing_streak :: "(string, nat) dict"
  pl_ack_outcome_unknown_total :: int
  pl_dead_letter_blocked_total :: int
  pl_infrastructure :: "string list"
  pl_json_dumps :: "'v \<Rightarrow> py_exc + string"
  pl_uuid :: string
  pl_sleep :: "real \<Rightarrow> ('w, py_exc, unit) act"
  pl_timeout :: "real \<Rightarrow> ('w, 'v py_result) mact \<Rightarrow> 'w msg \<times> 'w \<Rightarrow> bool \<times> (py_exc + 'v py_result) \<times> 'w msg \<times> 'w"
  pl_dead_lettered_hook :: "error_category \<Rightarrow> ('w, py_exc, unit) act"

type_synonym ('w, 'v) pstate = "('w, 'v) pipeline \<times> 'w msg \<times> 'w"
type_synonym ('w, 'v, 'a) pact = "(('w, 'v) pstate, py_exc, 'a) act"

section \<open>Dead channels\<close>

definition CHANNEL_GONE_NAMES :: "string list" where
  "CHANNEL_GONE_NAMES = [''ChannelWrongStateError'', ''ChannelClosed'', ''ChannelClosedByBroker'',
     ''ChannelClosedByClient'', ''ChannelInvalidStateError'', ''ConnectionClosed'',
     ''ConnectionClosedByBroker'', ''ConnectionWrongStateError'', ''AMQPConnectionError'', ''StreamLostError'']"

text \<open>The walk along \<^verbatim>\<open>__cause__ or __context__\<close>; \<open>exc_links\<close> holds the exceptions reachable from this
  one by their identity, and an identity seen before ends the walk.\<close>

definition exc_node :: "py_exc \<Rightarrow> nat \<Rightarrow> string \<times> nat option" where
  "exc_node e i =
     (case dict_get (exc_links e) i of
        Some (name, cause, ctx) \<Rightarrow> (name, case cause of None \<Rightarrow> ctx | Some c \<Rightarrow> Some c)
      | None \<Rightarrow> (if i = exc_id e then type_name e else '''', None))"

function gone_walk :: "py_exc \<Rightarrow> nat set \<Rightarrow> nat option \<Rightarrow> bool" where
  "gone_walk e seen None = False"
| "gone_walk e seen (Some i) =
     (if i \<in> seen then False
      else if fst (exc_node e i) \<in> set CHANNEL_GONE_NAMES then True
      else gone_walk e (insert i seen) (snd (exc_node e i)))"
  by pat_completeness auto
termination
proof (relation "measure (\<lambda>(e, seen, cur). card (set (dict_keys (exc_links e)) - seen) + (if cur = None then 0 else 1))")
  fix e :: py_exc and seen :: "nat set" and i :: nat
  assume new: "i \<notin> seen"
  let ?keys = "set (dict_keys (exc_links e))"
  show "((e, insert i seen, snd (exc_node e i)), e, seen, Some i)
    \<in> measure (\<lambda>(e, seen, cur). card (set (dict_keys (exc_links e)) - seen) + (if cur = None then 0 else 1))"
  proof (cases "i \<in> ?keys")
    case True
    with new have "card (?keys - insert i seen) < card (?keys - seen)"
      by (intro psubset_card_mono) auto
    then show ?thesis by simp
  next
    case False
    then have "dict_get (exc_links e) i = None" by (simp only: dict_get_None not_False_eq_True)
    then have "snd (exc_node e i) = None" by (simp add: exc_node_def)
    moreover have "card (?keys - insert i seen) \<le> card (?keys - seen)" by (intro card_mono) auto
    ultimately show ?thesis by simp
  qed
qed simp

definition is_channel_gone :: "py_exc \<Rightarrow> bool" where
  "is_channel_gone e = gone_walk e {} (Some (exc_id e))"

section \<open>Metrics and the dead-letter hook\<close>

definition emit_settlement_metric :: "('w, 'v) route \<Rightarrow> ('w, 'v, unit) pact" where
  "emit_settlement_metric ro = (\<lambda>(p, m, w).
     if m_disposition m = DP_PENDING \<or> m_settle_unknown m then (Inr (), (p, m, w))
     else if m_metric_once m = Some [] then (Inr (), (p, m, w))
     else let m' = m\<lparr>m_metric_once := map_option butlast (m_metric_once m)\<rparr>
          in case ro_metrics ro of
               None \<Rightarrow> (Inr (), (p, m', w))
             | Some sm \<Rightarrow> act_snd (act_snd (sm_record_settlement sm m' (m_disposition m'))) (p, m', w))"

definition emit_outcome_unknown_metric :: "('w, 'v) route \<Rightarrow> ('w, 'v, unit) pact" where
  "emit_outcome_unknown_metric ro = (\<lambda>(p, m, w).
     case ro_metrics ro of
       None \<Rightarrow> (Inr (), (p, m, w))
     | Some sm \<Rightarrow> act_snd (act_snd (sm_record_outcome_unknown sm m)) (p, m, w))"

definition note_dead_lettered :: "py_exc \<Rightarrow> ('w, 'v, unit) pact" where
  "note_dead_lettered e =
     (case exc_on_dead_lettered e of
        None \<Rightarrow> act_ret ()
      | Some category \<Rightarrow> act_get (\<lambda>(p, _).
          guarded_hook (act_snd (act_snd (pl_dead_lettered_hook p category)))))"

section \<open>Handler invocation\<close>

text \<open>The first parameter that is neither the message nor marked gives the type of the body.\<close>

fun compute_body_type :: "param list \<Rightarrow> string option" where
  "compute_body_type [] = None"
| "compute_body_type (p # ps) =
     (case pa_ann p of Some (AN_TYPE t) \<Rightarrow> Some t | _ \<Rightarrow> compute_body_type ps)"

definition effective_serializer :: "('w, 'v) pipeline \<Rightarrow> ('w, 'v) route \<Rightarrow> 'v serializer option" where
  "effective_serializer p ro =
     (case ro_serializer_override ro of Some s \<Rightarrow> Some s | None \<Rightarrow> pl_serializer p)"

definition deserialize_body :: "('w, 'v) pipeline \<Rightarrow> ('w, 'v) route \<Rightarrow> 'w msg \<Rightarrow> py_exc + 'v body_value" where
  "deserialize_body p ro m =
     (case effective_serializer p ro of
        None \<Rightarrow> Inr (BV_BYTES (m_body m))
      | Some s \<Rightarrow>
         (case (sz_decode s, compute_body_type (ro_params ro)) of
            (Some decode, Some t) \<Rightarrow>
              if t = ''bytes'' then Inr (BV_BYTES (m_body m))
              else (case decode (m_body m) t of Inl e \<Rightarrow> Inl e | Inr v \<Rightarrow> Inr (BV_OBJ v))
          | _ \<Rightarrow> Inr (BV_BYTES (m_body m))))"

text \<open>The binding plan of a handler without dependency markers, and its execution.\<close>

fun binding_plan :: "bool \<Rightarrow> param list \<Rightarrow> (string \<times> string) list" where
  "binding_plan body_injected [] = []"
| "binding_plan body_injected (p # ps) =
     (if pa_var p then (pa_name p, ''skip'') # binding_plan body_injected ps
      else if pa_ann p = Some AN_RABBIT_MESSAGE then (pa_name p, ''message'') # binding_plan body_injected ps
      else if \<not> body_injected then (pa_name p, ''body'') # binding_plan True ps
      else if pa_has_default p then (pa_name p, ''skip'') # binding_plan body_injected ps
      else (pa_name p, ''message'') # binding_plan body_injected ps)"

definition execute_plan :: "(string \<times> string) list \<Rightarrow> 'v body_value \<Rightarrow> 'v kwargs" where
  "execute_plan plan body =
     List.map_filter (\<lambda>(name, action).
       if action = ''message'' then Some (name, ARG_MESSAGE)
       else if action = ''body'' then Some (name, ARG_BODY body) else None) plan"

definition resolve_params :: "('w, 'v) route \<Rightarrow> 'v body_value \<Rightarrow> ('w, 'v kwargs) mact" where
  "resolve_params ro body = act_get (\<lambda>(m, w).
     case ro_resolver ro of
       Some rs \<Rightarrow> act_snd (rs_resolve rs m body)
     | None \<Rightarrow> act_ret (execute_plan (binding_plan False (ro_params ro)) body))"

definition scope_cleanup :: "('w, 'v) route \<Rightarrow> ('w, unit) mact" where
  "scope_cleanup ro = (case ro_resolver ro of
     None \<Rightarrow> act_ret () | Some rs \<Rightarrow> guarded_hook (act_snd (rs_cleanup rs)))"

text \<open>The asynchronous variant awaits the same steps; where it decodes a large body in a thread the
  result is the same.\<close>

definition invoke_handler :: "('w, 'v) pipeline \<Rightarrow> ('w, 'v) route \<Rightarrow> ('w, 'v py_result) mact" where
  "invoke_handler p ro = act_get (\<lambda>(m, w).
     act_bind (act_of (case deserialize_body p ro m of
                         Inl e \<Rightarrow> Inl (if is_exception e then mark_invalid_message e else e) | Inr b \<Rightarrow> Inr b)) (\<lambda>body.
     act_ensure (act_bind (resolve_params ro body) (ro_handler ro)) (scope_cleanup ro)))"

fun receive_all :: "('m \<Rightarrow> ('w, unit) mact) \<Rightarrow> 'm list \<Rightarrow> ('w, unit) mact" where
  "receive_all hook [] = act_ret ()"
| "receive_all hook (mw # mws) = act_bind (hook mw) (\<lambda>_. receive_all hook mws)"

definition run_consume ::
    "(('w, 'v) middleware \<Rightarrow> ('w, unit) mact)
       \<Rightarrow> (('w, 'v) middleware \<Rightarrow> ('w, 'v py_result) mact \<Rightarrow> ('w, 'v py_result) mact)
       \<Rightarrow> ('w, 'v) pipeline \<Rightarrow> ('w, 'v) route \<Rightarrow> ('w, 'v py_result) mact" where
  "run_consume hook scope p ro =
     (if ro_middlewares ro = [] then invoke_handler p ro
      else act_bind (act_try (receive_all hook (rev (ro_middlewares ro)))
                       (\<lambda>e. act_raise (if is_exception e then mark_invalid_message e else e))) (\<lambda>_.
           foldr scope (ro_middlewares ro) (invoke_handler p ro)))"

definition run_consume_sync where
  "run_consume_sync = run_consume mw_on_receive mw_consume_scope"

definition run_consume_async where
  "run_consume_async = run_consume mw_on_receive_async mw_consume_scope_async"

definition run_consume_with_deadline ::
    "('w, 'v) pipeline \<Rightarrow> ('w, 'v) route \<Rightarrow> real \<Rightarrow> ('w, 'v py_result) mact" where
  "run_consume_with_deadline p ro seconds s =
     (case pl_timeout p seconds (run_consume_async p ro) s of (expired, r, s') \<Rightarrow>
        (case r of
           Inl e \<Rightarrow> if isinstance e [''TimeoutError''] \<and> expired
                    then (Inl (handler_timeout_error ''''), s') else (Inl e, s')
         | Inr a \<Rightarrow> (Inr a, s')))"

section \<open>Results\<close>

definition DIRECT_REPLY_PREFIX :: string where
  "DIRECT_REPLY_PREFIX = ''amq.rabbitmq.reply-to''"

definition pattern_matches :: "string \<Rightarrow> string \<Rightarrow> bool" where
  "pattern_matches reply_to pattern =
     (if pattern \<noteq> [] \<and> last pattern = CHR ''*'' then startswith reply_to (butlast pattern) else reply_to = pattern)"

definition reply_to_permitted :: "string \<Rightarrow> string list option \<Rightarrow> bool" where
  "reply_to_permitted reply_to allow =
     (case allow of
        None \<Rightarrow> True
      | Some patterns \<Rightarrow> list_ex (pattern_matches reply_to) patterns \<or> startswith reply_to DIRECT_REPLY_PREFIX)"

definition utf8_encode :: "string \<Rightarrow> string" where
  "utf8_encode s = concat (map (\<lambda>c. let n = (of_char c :: nat)
     in if n < 128 then [c] else [char_of (192 + n div 64), char_of (128 + n mod 64)]) s)"

definition serialize_result :: "('w, 'v) pipeline \<Rightarrow> ('w, 'v) route \<Rightarrow> 'v py_result \<Rightarrow> py_exc + string" where
  "serialize_result p ro r =
     (case r of
        R_BYTES b \<Rightarrow> Inr b
      | R_STR s \<Rightarrow> Inr (utf8_encode s)
      | R_ENVELOPE env \<Rightarrow> Inr (me_body env)
      | R_OBJ v \<Rightarrow> (case Option.bind (effective_serializer p ro) sz_encode of
                      Some encode \<Rightarrow> encode v
                    | None \<Rightarrow> pl_json_dumps p v)
      | _ \<Rightarrow> Inr '''')"

text \<open>\<^verbatim>\<open>MessageEnvelope(...)\<close> with the defaults of the other fields.\<close>

definition plain_envelope :: "string \<Rightarrow> string \<Rightarrow> string \<Rightarrow> string \<Rightarrow> string option \<Rightarrow> envelope" where
  "plain_envelope message_id rk body exchange correlation_id =
     \<lparr>me_routing_key = rk, me_body = body, me_exchange = exchange, me_headers = [], me_message_id = message_id,
      me_correlation_id = correlation_id, me_reply_to = None, me_timestamp = None,
      me_content_type = ''application/json'', me_content_encoding = None, me_expiration = None,
      me_priority = None, me_mandatory = False, me_delivery_mode = 2, me_type = None, me_user_id = None,
      me_app_id = None\<rparr>"

definition resolve_exchange_name :: "result_publisher \<Rightarrow> string" where
  "resolve_exchange_name rp = (case rp_exchange rp of None \<Rightarrow> '''' | Some x \<Rightarrow> x)"

definition build_result_envelope ::
    "('w, 'v) pipeline \<Rightarrow> ('w, 'v) route \<Rightarrow> 'w msg \<Rightarrow> 'v py_result \<Rightarrow> py_exc + envelope option" where
  "build_result_envelope p ro m r =
     (if r = R_NONE then Inr None
      else case serialize_result p ro r of
        Inl e \<Rightarrow> Inl e
      | Inr body \<Rightarrow>
         (case (if m_reply_to m = Some '''' then None else m_reply_to m) of
            Some reply_to \<Rightarrow>
              if \<not> reply_to_permitted reply_to (ro_reply_to_allow ro) then Inr None
              else (case message_envelope (case r of
                        R_ENVELOPE env \<Rightarrow> env\<lparr>me_routing_key := reply_to, me_exchange := '''',
                                             me_correlation_id := m_correlation_id m\<rparr>
                      | _ \<Rightarrow> plain_envelope (pl_uuid p) reply_to body '''' (m_correlation_id m)) of
                      Inl e \<Rightarrow> Inl e | Inr env \<Rightarrow> Inr (Some env))
          | None \<Rightarrow>
             (case ro_result_publisher ro of
                Some rp \<Rightarrow>
                 (case message_envelope (case r of
                        R_ENVELOPE env \<Rightarrow> env\<lparr>me_routing_key := rp_routing_key rp,
                                             me_exchange := resolve_exchange_name rp\<rparr>
                      | _ \<Rightarrow> plain_envelope (pl_uuid p) (rp_routing_key rp) body (resolve_exchange_name rp) None) of
                      Inl e \<Rightarrow> Inl e | Inr env \<Rightarrow> Inr (Some env))
              | None \<Rightarrow> Inr None)))"

text \<open>The publish middlewares of a route, and those of the broker, around a publish function.\<close>

definition compose_publish :: "('m \<Rightarrow> 'w send \<Rightarrow> 'w send) \<Rightarrow> 'm list \<Rightarrow> 'w send \<Rightarrow> 'w send" where
  "compose_publish scope mws publish_fn = foldr scope mws publish_fn"

definition compose_publish_sync :: "('w, 'v) middleware list \<Rightarrow> 'w send \<Rightarrow> 'w send" where
  "compose_publish_sync = compose_publish mw_publish_scope"

definition compose_publish_async :: "('w, 'v) middleware list \<Rightarrow> 'w send \<Rightarrow> 'w send" where
  "compose_publish_async = compose_publish mw_publish_scope_async"

definition publish_result ::
    "(('w, 'v) middleware list \<Rightarrow> 'w send \<Rightarrow> 'w send) \<Rightarrow> ('w, 'v) route \<Rightarrow> 'v py_result \<Rightarrow> 'w send option
       \<Rightarrow> ('w, 'v, bool) pact" where
  "publish_result compose ro r publish_fn = act_get (\<lambda>(p, m, w).
     case publish_fn of
       None \<Rightarrow> act_ret True
     | Some fn \<Rightarrow> act_bind (act_of (build_result_envelope p ro m r)) (\<lambda>envelope.
         case envelope of
           None \<Rightarrow> act_ret True
         | Some env \<Rightarrow> act_bind (act_snd (act_snd (compose (ro_middlewares ro) fn env))) (\<lambda>out. act_ret (po_ok out))))"

definition publish_result_sync where "publish_result_sync = publish_result compose_publish_sync"
definition publish_result_async where "publish_result_async = publish_result compose_publish_async"

section \<open>Settlement on success\<close>

text \<open>\<^verbatim>\<open>on_success\<close> of the four strategies; \<open>settle\<close> is the synchronous or asynchronous settlement.\<close>

definition on_success ::
    "(settle_op \<Rightarrow> ('w, unit) mact) \<Rightarrow> ack_policy \<Rightarrow> ('w, unit) mact" where
  "on_success settle policy =
     (case policy of
        AP_MANUAL \<Rightarrow> act_ret ()
      | _ \<Rightarrow> act_when (\<lambda>(m, w). \<not> is_settled m) (settle Op_ack))"

definition acks_first :: "ack_policy \<Rightarrow> bool" where
  "acks_first policy \<longleftrightarrow> policy = AP_ACK_FIRST"

definition record_ack_outcome_unknown :: "('w, 'v) route \<Rightarrow> ('w, 'v, unit) pact" where
  "record_ack_outcome_unknown ro =
     act_bind (act_upd (apfst (\<lambda>p. p\<lparr>pl_ack_outcome_unknown_total := pl_ack_outcome_unknown_total p + 1\<rparr>)))
       (\<lambda>_. emit_outcome_unknown_metric ro)"

text \<open>\<open>None\<close> in place of the policy is the unconditional ack of a raised \<^verbatim>\<open>AckMessage\<close>.\<close>

definition ack_after_success ::
    "(settle_op \<Rightarrow> ('w, unit) mact) \<Rightarrow> ('w, 'v) route \<Rightarrow> ack_policy option \<Rightarrow> ('w, 'v, unit) pact" where
  "ack_after_success settle ro strategy =
     act_try (act_snd (case strategy of None \<Rightarrow> settle Op_ack | Some policy \<Rightarrow> on_success settle policy))
       (\<lambda>e. if isinstance e [''SettlementError''] then act_raise e
            else if is_exception e then record_ack_outcome_unknown ro else act_raise e)"

definition ack_after_success_sync where "ack_after_success_sync = ack_after_success sync_op"
definition ack_after_success_async where "ack_after_success_async = ack_after_success async_op"

section \<open>Settlement on failure\<close>

datatype settle_kind = SK_NACK | SK_REJECT

fun kind_op :: "settle_kind \<Rightarrow> bool \<Rightarrow> settle_op" where
  "kind_op SK_NACK requeue = Op_nack requeue"
| "kind_op SK_REJECT requeue = Op_reject requeue"

definition failure_decision ::
    "('w, 'v) pipeline \<Rightarrow> ('w, 'v) route \<Rightarrow> 'w msg \<Rightarrow> py_exc \<Rightarrow> (settle_kind \<times> bool \<times> string) option" where
  "failure_decision p ro m e =
     (let policy = ro_ack_policy ro
      in if policy = AP_MANUAL \<and> \<not> pl_manual_settle_on_error p then None
         else if exc_terminal e \<and> policy \<noteq> AP_MANUAL then Some (SK_REJECT, False, ''retry_terminal'')
         else if policy = AP_NACK_ON_ERROR then Some (SK_NACK, False, ''nack_on_error'')
         else if ce_severity (classify_default (pl_infrastructure p) e) \<noteq> SV_TRANSIENT
         then Some (SK_REJECT, False, ''permanent'')
         else if pl_reject_transient_on_redelivery p \<and> m_redelivered m
         then Some (SK_REJECT, False, ''transient_on_redelivery'')
         else Some (SK_NACK, True, ''transient''))"

definition handle_sync_exception_inner :: "('w, 'v) route \<Rightarrow> py_exc \<Rightarrow> ('w, 'v, unit) pact" where
  "handle_sync_exception_inner ro e = act_get (\<lambda>(p, m, w).
     if is_settled m then act_ret ()
     else case failure_decision p ro m e of
       None \<Rightarrow> act_raise e
     | Some (kind, requeue, reason) \<Rightarrow>
         act_bind (act_snd (sync_op (kind_op kind requeue))) (\<lambda>_.
         if \<not> requeue then note_dead_lettered e else act_ret ()))"

text \<open>A settlement that fails because the channel is gone is left to the broker's redelivery.\<close>

definition unless_channel_gone :: "('w, 'v, unit) pact \<Rightarrow> ('w, 'v, unit) pact" where
  "unless_channel_gone f =
     act_try f (\<lambda>x. if is_exception x \<and> is_channel_gone x then act_ret () else act_raise x)"

definition handle_sync_exception :: "('w, 'v) route \<Rightarrow> py_exc \<Rightarrow> ('w, 'v, unit) pact" where
  "handle_sync_exception ro e = unless_channel_gone (handle_sync_exception_inner ro e)"

definition settle_expired_sync :: "('w, 'v) route \<Rightarrow> py_exc \<Rightarrow> ('w, 'v, bool) pact" where
  "settle_expired_sync ro e =
     act_ensure
       (act_try (act_bind (handle_sync_exception ro e) (\<lambda>_. act_ret True))
          (\<lambda>raised. if isinstance raised [''HandlerTimeoutError''] \<and> raised = e then act_ret False
                    else act_raise raised))
       (emit_settlement_metric ro)"

definition DLQ_MISSING_BACKOFF_INITIAL :: real where "DLQ_MISSING_BACKOFF_INITIAL = 1 / 2"
definition DLQ_MISSING_BACKOFF_MAX :: real where "DLQ_MISSING_BACKOFF_MAX = 5"

definition dlq_missing_delay :: "nat \<Rightarrow> real" where
  "dlq_missing_delay streak = min (DLQ_MISSING_BACKOFF_INITIAL * 2 ^ min streak 16) DLQ_MISSING_BACKOFF_MAX"

definition clear_streak :: "('w, 'v) route \<Rightarrow> ('w, 'v, unit) pact" where
  "clear_streak ro = act_upd (apfst (\<lambda>p. p\<lparr>pl_dlq_missing_streak :=
     dict_pop (rq_name (ro_queue ro)) (pl_dlq_missing_streak p)\<rparr>))"

text \<open>The dead-letter queue is missing: count, wait, requeue.\<close>

definition requeue_missing_dlq :: "('w, 'v) route \<Rightarrow> ('w, 'v, unit) pact" where
  "requeue_missing_dlq ro = act_get (\<lambda>(p, _).
     let q = rq_name (ro_queue ro);
         streak = dict_get_or (pl_dlq_missing_streak p) q 0
     in act_bind (act_upd (apfst (\<lambda>p. p\<lparr>pl_dlq_missing_streak := dict_set q (streak + 1) (pl_dlq_missing_streak p),
                    pl_dead_letter_blocked_total := pl_dead_letter_blocked_total p + 1\<rparr>))) (\<lambda>_.
        act_bind (act_snd (act_snd (pl_sleep p (dlq_missing_delay streak)))) (\<lambda>_.
        act_snd (async_op (Op_nack True)))))"

definition settle_plainly :: "settle_kind \<Rightarrow> bool \<Rightarrow> py_exc option \<Rightarrow> ('w, 'v, unit) pact" where
  "settle_plainly kind requeue e =
     act_bind (act_snd (async_op (kind_op kind requeue))) (\<lambda>_.
       case e of Some x \<Rightarrow> if \<not> requeue then note_dead_lettered x else act_ret () | None \<Rightarrow> act_ret ())"

definition try_copy :: "('w, 'v) route \<Rightarrow> bool \<Rightarrow> py_exc option \<Rightarrow> string \<Rightarrow> ('w, 'v, bool) pact" where
  "try_copy ro requeue e reason = act_get (\<lambda>(p, m, w).
     case (e, pl_dead_letter_copy p) of
       (Some x, Some copy) \<Rightarrow>
         if \<not> requeue \<and> reason \<noteq> ''retry_terminal''
         then act_snd (act_snd (copy (ro_queue ro) m x reason)) else act_ret False
     | _ \<Rightarrow> act_ret False)"

text \<open>The check of the dead-letter target before a settlement that dead-letters.\<close>

definition settle_checked :: "('w, 'v) route \<Rightarrow> settle_kind \<Rightarrow> bool \<Rightarrow> py_exc option \<Rightarrow> ('w, 'v, unit) pact" where
  "settle_checked ro kind requeue e = act_get (\<lambda>(p, _).
     case pl_dead_letter_check p of
       Some check \<Rightarrow>
         if requeue then settle_plainly kind requeue e
         else act_bind (act_snd (act_snd (check (ro_queue ro)))) (\<lambda>found.
              if found then act_bind (clear_streak ro) (\<lambda>_. settle_plainly kind requeue e)
              else requeue_missing_dlq ro)
     | None \<Rightarrow> settle_plainly kind requeue e)"

definition settle_failure_async ::
    "('w, 'v) route \<Rightarrow> settle_kind \<Rightarrow> bool \<Rightarrow> py_exc option \<Rightarrow> string \<Rightarrow> ('w, 'v, unit) pact" where
  "settle_failure_async ro kind requeue e reason =
     act_bind (try_copy ro requeue e reason) (\<lambda>copied.
     if copied
     then act_bind (clear_streak ro) (\<lambda>_. act_snd (async_op Op_ack))
     else settle_checked ro kind requeue e)"

definition handle_async_exception_inner :: "('w, 'v) route \<Rightarrow> py_exc \<Rightarrow> ('w, 'v, unit) pact" where
  "handle_async_exception_inner ro e = act_get (\<lambda>(p, m, w).
     if is_settled m then act_ret ()
     else case failure_decision p ro m e of
       None \<Rightarrow> act_raise e
     | Some (kind, requeue, reason) \<Rightarrow> settle_failure_async ro kind requeue (Some e) reason)"

definition handle_async_exception :: "('w, 'v) route \<Rightarrow> py_exc \<Rightarrow> ('w, 'v, unit) pact" where
  "handle_async_exception ro e = unless_channel_gone (handle_async_exception_inner ro e)"

section \<open>The raw-body cap\<close>

definition oversized :: "('w, 'v) pipeline \<Rightarrow> 'w msg \<Rightarrow> py_exc option" where
  "oversized p m =
     (case pl_max_body_bytes p of
        None \<Rightarrow> None
      | Some limit \<Rightarrow> if int (length (m_wire_body m)) > limit then Some (inbound_too_large_error '''') else None)"

definition pending_delivery :: "('w, 'v) pstate \<Rightarrow> bool" where
  "pending_delivery s \<longleftrightarrow> \<not> is_settled (fst (snd s))"

definition dead_letter_oversized_sync :: "('w, 'v) route \<Rightarrow> ('w, 'v, unit) pact" where
  "dead_letter_oversized_sync ro =
     act_ensure (unless_channel_gone (act_when pending_delivery (act_snd (sync_op (Op_reject False)))))
       (emit_settlement_metric ro)"

definition dead_letter_oversized_async :: "('w, 'v) route \<Rightarrow> py_exc \<Rightarrow> ('w, 'v, unit) pact" where
  "dead_letter_oversized_async ro e =
     act_ensure (unless_channel_gone (act_when pending_delivery
         (settle_failure_async ro SK_REJECT False (Some e) ''body_too_large'')))
       (emit_settlement_metric ro)"

section \<open>One delivery\<close>

text \<open>The part of \<^verbatim>\<open>process_*\<close> between the early ack and the settlement on success: run the chain and
  publish its result; \<open>False\<close> means that the result was lost.\<close>

definition consume_and_publish ::
    "(('w, 'v) pipeline \<Rightarrow> ('w, 'v py_result) mact) \<Rightarrow> ('v py_result \<Rightarrow> ('w, 'v, bool) pact) \<Rightarrow> ('w, 'v, bool) pact" where
  "consume_and_publish consume publish = act_get (\<lambda>(p, _).
     act_bind (act_snd (consume p)) (\<lambda>r.
     if r = R_NONE \<or> r = R_REQUEUED_FOR_RETRY then act_ret True else publish r))"

text \<open>The \<^verbatim>\<open>except\<close> clauses, in order.\<close>

definition except_clauses_sync :: "('w, 'v) route \<Rightarrow> py_exc \<Rightarrow> ('w, 'v, unit) pact" where
  "except_clauses_sync ro e =
     (if isinstance e [''AckMessage''] then act_when pending_delivery (ack_after_success_sync ro None)
      else if isinstance e [''NackMessage''] then act_when pending_delivery (act_snd (sync_op (Op_nack (exc_requeue e))))
      else if isinstance e [''RejectMessage''] then act_when pending_delivery (act_snd (sync_op (Op_reject (exc_requeue e))))
      else if is_exception e then handle_sync_exception ro e
      else act_raise e)"

definition except_clauses_async :: "('w, 'v) route \<Rightarrow> py_exc \<Rightarrow> ('w, 'v, unit) pact" where
  "except_clauses_async ro e =
     (if isinstance e [''AckMessage''] then act_when pending_delivery (ack_after_success_async ro None)
      else if isinstance e [''NackMessage''] then act_when pending_delivery
        (if exc_requeue e then act_snd (async_op (Op_nack True))
         else settle_failure_async ro SK_NACK False None ''handler_requested'')
      else if isinstance e [''RejectMessage''] then act_when pending_delivery
        (if exc_requeue e then act_snd (async_op (Op_reject True))
         else settle_failure_async ro SK_REJECT False None ''handler_requested'')
      else if is_exception e then handle_async_exception ro e
      else act_raise e)"

definition filtered_out :: "('w, 'v) route \<Rightarrow> 'w msg \<Rightarrow> py_exc + bool" where
  "filtered_out ro m = (case ro_filter_fn ro of
     None \<Rightarrow> Inr False | Some f \<Rightarrow> (case f m of Inl e \<Rightarrow> Inl e | Inr b \<Rightarrow> Inr (\<not> b)))"

definition process_sync :: "('w, 'v) route \<Rightarrow> 'w send option \<Rightarrow> ('w, 'v, unit) pact" where
  "process_sync ro publish_fn = act_get (\<lambda>(p, m, w).
     case oversized p m of
       Some e \<Rightarrow> dead_letter_oversized_sync ro
     | None \<Rightarrow> act_bind (act_of (filtered_out ro m)) (\<lambda>out.
         if out
         then act_bind (act_when pending_delivery (act_snd (sync_op (Op_nack False)))) (\<lambda>_. emit_settlement_metric ro)
         else act_ensure
           (act_bind (if acks_first (ro_ack_policy ro) then act_snd (sync_op Op_ack) else act_ret ()) (\<lambda>_.
            act_try
              (act_bind (consume_and_publish (\<lambda>p. run_consume_sync p ro) (\<lambda>r. publish_result_sync ro r publish_fn)) (\<lambda>ok.
               if ok then ack_after_success_sync ro (Some (ro_ack_policy ro))
               else act_when pending_delivery (act_snd (sync_op (Op_nack True)))))
              (except_clauses_sync ro)))
           (emit_settlement_metric ro)))"

definition consume_async :: "('w, 'v) route \<Rightarrow> ('w, 'v) pipeline \<Rightarrow> ('w, 'v py_result) mact" where
  "consume_async ro p = (case pl_processing_timeout p of
     None \<Rightarrow> run_consume_async p ro | Some seconds \<Rightarrow> run_consume_with_deadline p ro seconds)"

definition process_async :: "('w, 'v) route \<Rightarrow> 'w send option \<Rightarrow> ('w, 'v, unit) pact" where
  "process_async ro publish_fn = act_get (\<lambda>(p, m, w).
     case oversized p m of
       Some e \<Rightarrow> dead_letter_oversized_async ro e
     | None \<Rightarrow> act_bind (act_of (filtered_out ro m)) (\<lambda>out.
         if out
         then act_bind (act_when pending_delivery (act_snd (async_op (Op_nack False)))) (\<lambda>_. emit_settlement_metric ro)
         else act_ensure
           (act_bind (if acks_first (ro_ack_policy ro) then act_snd (async_op Op_ack) else act_ret ()) (\<lambda>_.
            act_try
              (act_bind (consume_and_publish (consume_async ro) (\<lambda>r. publish_result_async ro r publish_fn)) (\<lambda>ok.
               if ok then ack_after_success_async ro (Some (ro_ack_policy ro))
               else act_when pending_delivery (act_snd (async_op (Op_nack True)))))
              (except_clauses_async ro)))
           (emit_settlement_metric ro)))"

section \<open>What a settlement does to the disposition\<close>

declare async_op.simps [simp del] sync_op.simps [simp del]

abbreviation disp_of :: "('w, 'v) pstate \<Rightarrow> disposition" where
  "disp_of s \<equiv> m_disposition (fst (snd s))"

lemma async_op_cases:
  assumes "async_op x (m, w) = (r, (m', w'))"
  shows "m' = m \<and> w' = w \<or> m_disposition m = DP_PENDING \<and> m_disposition m' = op_disposition x"
  using assms
  by (cases "m_disposition m = DP_PENDING")
    (auto simp: async_op_settle settle_async_settled settle_async_pending split: option.splits if_splits)

lemma sync_op_cases:
  assumes "sync_op x (m, w) = (r, (m', w'))"
  shows "m' = m \<or> m_disposition m = DP_PENDING \<and> m_disposition m' = op_disposition x"
  using assms
  by (cases "m_disposition m = DP_PENDING")
    (auto simp: sync_op_settle settle_sync_settled settle_sync_pending split: option.splits if_splits)


lemma wp_settle_disp:
  assumes "\<And>r m' w'. m' = m \<and> w' = w \<or> m_disposition m = DP_PENDING \<and> m_disposition m' = op_disposition x
      \<Longrightarrow> Q r (m', w')"
  shows "wp (async_op x) (m, w) Q"
proof (rule wpI)
  fix r s assume "async_op x (m, w) = (r, s)"
  with async_op_cases [of x m w r "fst s" "snd s"] assms [of "fst s" "snd s" r] show "Q r s" by simp
qed

lemma wp_sync_disp:
  assumes "\<And>r m' w'. m' = m \<or> m_disposition m = DP_PENDING \<and> m_disposition m' = op_disposition x \<Longrightarrow> Q r (m', w')"
  shows "wp (sync_op x) (m, w) Q"
proof (rule wpI)
  fix r s assume "sync_op x (m, w) = (r, s)"
  with sync_op_cases [of x m w r "fst s" "snd s"] assms [of "fst s" r "snd s"] show "Q r s" by simp
qed

text \<open>Operations that leave the message alone, up to its metric token.\<close>

definition keeps_disp :: "('w, 'v, 'a) pact \<Rightarrow> bool" where
  "keeps_disp f \<longleftrightarrow> (\<forall>s. wp f s (\<lambda>_ s'. disp_of s' = disp_of s))"

lemma keeps_dispD: "keeps_disp f \<Longrightarrow> wp f s (\<lambda>_ s'. disp_of s' = disp_of s)"
  unfolding keeps_disp_def by blast

lemma keeps_disp_world: "keeps_disp (act_snd (act_snd f))"
  by (auto simp: keeps_disp_def wp_simps intro: wpI)

lemma keeps_disp_metric: "keeps_disp (emit_settlement_metric ro)"
  by (auto simp: keeps_disp_def emit_settlement_metric_def wp_def act_snd_def Let_def
      split: option.splits prod.splits)

lemma keeps_disp_unknown: "keeps_disp (record_ack_outcome_unknown ro)"
  by (auto simp: keeps_disp_def record_ack_outcome_unknown_def emit_outcome_unknown_metric_def wp_def act_simps
      act_snd_def split: option.splits prod.splits)

lemma keeps_disp_note: "keeps_disp (note_dead_lettered e)"
  by (auto simp: keeps_disp_def note_dead_lettered_def guarded_hook_def wp_def act_simps act_snd_def
      split: option.splits prod.splits sum.splits)

section \<open>Why a delivery is acked\<close>

text \<open>\<open>copy_confirmed p ro m w\<close>: the dead-letter copy of the message, taken in this state, was confirmed.\<close>

definition copy_confirmed :: "('w, 'v) pipeline \<Rightarrow> ('w, 'v) route \<Rightarrow> 'w msg \<Rightarrow> 'w \<Rightarrow> bool" where
  "copy_confirmed p ro m w \<longleftrightarrow>
     (\<exists>copy e reason w2. pl_dead_letter_copy p = Some copy \<and> copy (ro_queue ro) m e reason w = (Inr True, w2))"

lemma wp_conj: "wp f s P \<Longrightarrow> wp f s Q \<Longrightarrow> wp f s (\<lambda>r s'. P r s' \<and> Q r s')"
  by (simp add: wp_def split: prod.splits)

lemma wp_keeps:
  "keeps_disp f \<Longrightarrow> (disp_of s = DP_ACKED \<longrightarrow> J) \<Longrightarrow> wp f s (\<lambda>_ s'. disp_of s' = DP_ACKED \<longrightarrow> J)"
  by (rule wp_mono [OF keeps_dispD]) auto

lemma settle_plainly_acks:
  "m_disposition m \<noteq> DP_ACKED \<Longrightarrow> wp (settle_plainly kind requeue e) (p, m, w) (\<lambda>_ s'. disp_of s' = DP_ACKED \<longrightarrow> J)"
  unfolding settle_plainly_def wp_simps
  by (rule wp_settle_disp)
    (cases kind; auto simp: wp_simps split: sum.split option.split intro!: wp_keeps [OF keeps_disp_note])

lemma requeue_missing_dlq_acks:
  "m_disposition m \<noteq> DP_ACKED \<Longrightarrow> wp (requeue_missing_dlq ro) (p, m, w) (\<lambda>_ s'. disp_of s' = DP_ACKED \<longrightarrow> J)"
  unfolding requeue_missing_dlq_def
  by (auto simp: wp_simps Let_def apfst_def split: sum.split intro!: wpI [of "pl_sleep _ _"] wp_settle_disp)

lemma settle_checked_acks:
  assumes "m_disposition m \<noteq> DP_ACKED"
  shows "wp (settle_checked ro kind requeue e) (p, m, w) (\<lambda>_ s'. disp_of s' = DP_ACKED \<longrightarrow> J)"
proof (cases "pl_dead_letter_check p")
  case None
  then show ?thesis by (simp add: settle_checked_def wp_simps settle_plainly_acks assms)
next
  case (Some check)
  then show ?thesis
    by (auto simp: settle_checked_def wp_simps clear_streak_def apfst_def assms split: sum.split
        intro!: settle_plainly_acks requeue_missing_dlq_acks wpI [of "check (ro_queue ro)"])
qed

lemma settle_failure_acks:
  assumes "m_disposition m \<noteq> DP_ACKED"
  shows "wp (settle_failure_async ro kind requeue e reason) (p, m, w)
    (\<lambda>_ s'. disp_of s' = DP_ACKED \<longrightarrow> copy_confirmed p ro m w)"
proof -
  have copied: "wp (try_copy ro requeue e reason) (p, m, w)
     (\<lambda>r s'. fst s' = p \<and> fst (snd s') = m \<and> (r = Inr True \<longrightarrow> copy_confirmed p ro m w))"
    by (auto simp: try_copy_def wp_simps copy_confirmed_def split: option.split intro!: wpI [of "_ (ro_queue ro) _ _ _"])
  show ?thesis
    unfolding settle_failure_async_def wp_bind
    by (rule wp_mono [OF copied])
      (auto simp: wp_simps clear_streak_def apfst_def assms split: sum.split
        intro!: settle_checked_acks wp_settle_disp)
qed

lemma wp_unless_gone: "wp f s (\<lambda>_ s'. P s') \<Longrightarrow> wp (unless_channel_gone f) s (\<lambda>_ s'. P s')"
  unfolding unless_channel_gone_def wp_try
  by (erule wp_mono) (auto simp: wp_simps split: sum.split)

lemma handle_async_exception_runs:
  assumes "\<not> is_settled m" and "failure_decision p ro m e = Some (kind, requeue, reason)"
    and "settle_failure_async ro kind requeue (Some e) reason (p, m, w) = (Inr (), s')"
  shows "handle_async_exception ro e (p, m, w) = (Inr (), s')"
  using assms
  by (simp add: handle_async_exception_def handle_async_exception_inner_def unless_channel_gone_def act_try_def act_get_def)

lemma handle_async_exception_acks:
  assumes "m_disposition m \<noteq> DP_ACKED"
  shows "wp (handle_async_exception ro e) (p, m, w) (\<lambda>_ s'. disp_of s' = DP_ACKED \<longrightarrow> copy_confirmed p ro m w)"
  unfolding handle_async_exception_def handle_async_exception_inner_def
  by (rule wp_unless_gone)
    (auto simp: wp_simps assms split: option.split intro: settle_failure_acks [OF assms])

lemma handle_sync_exception_acks:
  assumes "m_disposition m \<noteq> DP_ACKED"
  shows "wp (handle_sync_exception ro e) (p, m, w) (\<lambda>_ s'. disp_of s' \<noteq> DP_ACKED)"
  unfolding handle_sync_exception_def
proof (rule wp_unless_gone)
  have settled: "wp (act_snd (sync_op (kind_op kind requeue))) (p, m, w) (\<lambda>_ s'. disp_of s' \<noteq> DP_ACKED)"
    for kind requeue
    unfolding wp_simps by (rule wp_sync_disp) (cases kind; auto simp: assms)
  have noted: "wp (note_dead_lettered e) s (\<lambda>_ s'. disp_of s' \<noteq> DP_ACKED)" if "disp_of s \<noteq> DP_ACKED" for s
    by (rule wp_mono [OF keeps_dispD [OF keeps_disp_note]]) (simp add: that)
  show "wp (handle_sync_exception_inner ro e) (p, m, w) (\<lambda>_ s'. disp_of s' \<noteq> DP_ACKED)"
  proof (cases "is_settled m \<or> failure_decision p ro m e = None")
    case True
    then show ?thesis by (auto simp: handle_sync_exception_inner_def wp_simps assms)
  next
    case False
    then obtain kind requeue reason where "failure_decision p ro m e = Some (kind, requeue, reason)" "\<not> is_settled m"
      by (cases "failure_decision p ro m e") auto
    then show ?thesis
      unfolding handle_sync_exception_inner_def wp_get
      by (auto simp: wp_bind intro!: wp_mono [OF settled] split: sum.split) (auto simp: wp_ret noted)
  qed
qed

lemma except_clauses_async_acks:
  assumes "m_disposition m \<noteq> DP_ACKED"
  shows "wp (except_clauses_async ro e) (p, m, w)
    (\<lambda>_ s'. disp_of s' = DP_ACKED \<longrightarrow> isinstance e [''AckMessage''] \<or> copy_confirmed p ro m w)"
proof (cases "isinstance e [''AckMessage'']")
  case True
  then show ?thesis by (auto intro: wpI)
next
  case False
  with assms show ?thesis
    by (auto simp: except_clauses_async_def wp_simps
        intro!: handle_async_exception_acks settle_failure_acks wp_settle_disp)
qed

lemma except_clauses_sync_acks:
  assumes "m_disposition m \<noteq> DP_ACKED" and "\<not> isinstance e [''AckMessage'']"
  shows "wp (except_clauses_sync ro e) (p, m, w) (\<lambda>_ s'. disp_of s' \<noteq> DP_ACKED)"
  using assms
  by (auto simp: except_clauses_sync_def wp_simps intro!: handle_sync_exception_acks wp_sync_disp)

lemma async_op_error:
  assumes "async_op x (m, w) = (Inl e, (m', w'))" and "m_disposition m' = DP_PENDING"
  shows "e = settlement_error (op_verb x) \<and> m' = m \<and> w' = w"
  using assms
  by (cases "m_disposition m = DP_PENDING")
    (auto simp: async_op_settle settle_async_settled settle_async_pending split: option.splits if_splits)

lemma publish_result_keeps:
  "wp (publish_result compose ro r publish_fn) (p, m, w) (\<lambda>_ s'. fst s' = p \<and> fst (snd s') = m)"
  by (auto simp: publish_result_def wp_simps split: option.split sum.split intro!: wpI [of "compose _ _ _"])

lemma consume_and_publish_keeps:
  assumes "consume_and_publish consume (\<lambda>r. publish_result compose ro r publish_fn) (p, m, w) = (ok, (p1, m1, w1))"
  shows "p1 = p"
proof -
  have "wp (consume_and_publish consume (\<lambda>r. publish_result compose ro r publish_fn)) (p, m, w) (\<lambda>_ s'. fst s' = p)"
    by (auto simp: consume_and_publish_def wp_simps split: sum.split intro!: wpI [of "consume p"])
      (rule wp_mono [OF publish_result_keeps], simp)
  from wpD [OF this assms] show ?thesis by simp
qed

lemma lost_result_async_acks:
  assumes "m_disposition m1 \<noteq> DP_ACKED"
  shows "wp (act_try (act_when pending_delivery (act_snd (async_op (Op_nack True)))) (except_clauses_async ro)) (p, m1, w1)
    (\<lambda>_ s'. disp_of s' = DP_ACKED \<longrightarrow> copy_confirmed p ro m1 w1)"
proof (cases "is_settled m1")
  case True
  then show ?thesis using assms by (simp add: wp_simps pending_delivery_def)
next
  case False
  have "wp (act_try (act_snd (async_op (Op_nack True))) (except_clauses_async ro)) (p, m1, w1)
    (\<lambda>_ s'. disp_of s' = DP_ACKED \<longrightarrow> copy_confirmed p ro m1 w1)"
    unfolding wp_try wp_snd
  proof (rule wpI)
    fix r s assume op: "async_op (Op_nack True) (m1, w1) = (r, s)"
    obtain m' w' where s: "s = (m', w')" by (cases s)
    show "case r of Inl e \<Rightarrow> wp (except_clauses_async ro e) (p, s)
          (\<lambda>_ s'. disp_of s' = DP_ACKED \<longrightarrow> copy_confirmed p ro m1 w1)
        | Inr a \<Rightarrow> disp_of (p, s) = DP_ACKED \<longrightarrow> copy_confirmed p ro m1 w1"
    proof (cases r)
      case (Inr a)
      then show ?thesis using async_op_cases [of "Op_nack True" m1 w1 r m' w'] op s assms by auto
    next
      case (Inl e)
      show ?thesis
      proof (cases "m_disposition m' = DP_PENDING")
        case True
        from async_op_error [OF op [unfolded Inl s] True] s
        have "e = settlement_error (op_verb (Op_nack True))" "s = (m1, w1)" by simp_all
        moreover from this have "\<not> isinstance e [''AckMessage'']" by (simp add: settlement_error_def)
        ultimately show ?thesis using Inl except_clauses_async_acks [OF assms, of ro e p w1] by simp
      next
        case False
        with async_op_cases [of "Op_nack True" m1 w1 r m' w'] op s \<open>\<not> is_settled m1\<close>
        have "m_disposition m' = DP_NACKED" by (auto simp: is_settled_def)
        then show ?thesis
          using Inl s except_clauses_async_acks [of m' ro e p w']
          by (auto simp: except_clauses_async_def wp_simps pending_delivery_def is_settled_def
              handle_async_exception_def handle_async_exception_inner_def unless_channel_gone_def)
      qed
    qed
  qed
  with False show ?thesis by (simp add: wp_simps pending_delivery_def)
qed

text \<open>\<open>justified_async\<close>: the reasons for which the asynchronous pipeline may ack.\<close>

definition justified_async ::
    "('w, 'v) pipeline \<Rightarrow> ('w, 'v) route \<Rightarrow> py_exc + bool \<Rightarrow> 'w msg \<Rightarrow> 'w \<Rightarrow> bool" where
  "justified_async p ro ok m1 w1 \<longleftrightarrow>
     m_disposition m1 = DP_ACKED \<or> ok = Inr True \<or> (\<exists>e. ok = Inl e \<and> isinstance e [''AckMessage''])
     \<or> copy_confirmed p ro m1 w1"

lemma try_block_async_acks:
  assumes run: "C (p, m, w) = (ok, (p, m1, w1))"
  shows "wp (act_try (act_bind C (\<lambda>ok. if ok then ack_after_success_async ro (Some (ro_ack_policy ro))
        else act_when pending_delivery (act_snd (async_op (Op_nack True))))) (except_clauses_async ro)) (p, m, w)
    (\<lambda>_ s'. disp_of s' = DP_ACKED \<longrightarrow> justified_async p ro ok m1 w1)"
proof (cases "m_disposition m1 = DP_ACKED \<or> ok = Inr True")
  case True
  then show ?thesis by (auto simp: justified_async_def intro: wpI)
next
  case False
  show ?thesis
  proof (cases ok)
    case (Inl e)
    with run False show ?thesis
      by (auto simp: wp_def act_try_def act_bind_def justified_async_def
          dest: except_clauses_async_acks [of m1 ro e p w1, unfolded wp_def] split: prod.split)
  next
    case (Inr b)
    with False have "\<not> b" by simp
    with run Inr False lost_result_async_acks [of m1 ro p w1] show ?thesis
      by (auto simp: wp_def act_try_def act_bind_def justified_async_def split: prod.splits sum.splits)
  qed
qed

section \<open>That a delivery is settled\<close>

text \<open>A message whose settlement calls all exist and return, and the hooks around the pipeline that
  return as well (the dead-letter hook of an exception may raise an \<^verbatim>\<open>Exception\<close>, which is swallowed).\<close>

definition settleable :: "'w msg \<Rightarrow> bool" where
  "settleable m \<longleftrightarrow> (\<forall>x w. \<exists>f. op_chosen_fn x m = Some f \<and> fst (f w) = Inr ())"

definition returns :: "('s, 'e, 'a) act \<Rightarrow> bool" where
  "returns f \<longleftrightarrow> (\<forall>s. \<exists>a. fst (f s) = Inr a)"

definition hooks_return :: "('w, 'v) pipeline \<Rightarrow> ('w, 'v) route \<Rightarrow> bool" where
  "hooks_return p ro \<longleftrightarrow>
     (\<forall>check. pl_dead_letter_check p = Some check \<longrightarrow> returns (check (ro_queue ro)))
   \<and> (\<forall>copy m e reason. pl_dead_letter_copy p = Some copy \<longrightarrow> returns (copy (ro_queue ro) m e reason))
   \<and> (\<forall>d. returns (pl_sleep p d))
   \<and> (\<forall>c w e. fst (pl_dead_lettered_hook p c w) = Inl e \<longrightarrow> is_exception e)
   \<and> (\<forall>sm m d. ro_metrics ro = Some sm \<longrightarrow> returns (sm_record_settlement sm m d) \<and> returns (sm_record_outcome_unknown sm m))"

abbreviation settles :: "('w, 'v, unit) pact \<Rightarrow> ('w, 'v) pstate \<Rightarrow> bool" where
  "settles f s \<equiv> wp f s (\<lambda>r s'. r = Inr () \<and> is_settled (fst (snd s')))"

lemma wp_returns:
  assumes "returns f" and "\<And>a s'. Q (Inr a) s'"
  shows "wp f s Q"
proof (rule wpI)
  fix r s' assume run: "f s = (r, s')"
  obtain a where "fst (f s) = Inr a" using assms(1) by (auto simp: returns_def)
  with run assms(2) show "Q r s'" by simp
qed

lemma wp_settles:
  assumes "settleable m" and "\<And>m' w'. is_settled m' \<Longrightarrow> Q (Inr ()) (m', w')"
  shows "wp (async_op x) (m, w) Q"
proof -
  obtain f where f: "op_chosen_fn x m = Some f" "fst (f w) = Inr ()"
    using assms(1) by (auto simp: settleable_def)
  then have "(case op_async_fn x m of None \<Rightarrow> op_sync_fn x m | Some f \<Rightarrow> Some f) = Some f"
    by (simp add: op_chosen_fn_def)
  then show ?thesis
    using assms(2) f(2)
    by (cases "m_disposition m = DP_PENDING")
      (auto simp: wp_def async_op_settle settle_async_pending settle_async_settled is_settled_def)
qed

lemma note_settles:
  assumes "\<And>c w e. fst (pl_dead_lettered_hook p c w) = Inl e \<Longrightarrow> is_exception e" and "is_settled m"
  shows "settles (note_dead_lettered e) (p, m, w)"
proof (cases "exc_on_dead_lettered e")
  case None
  with assms(2) show ?thesis by (simp add: note_dead_lettered_def wp_simps)
next
  case (Some c)
  obtain r w' where "pl_dead_lettered_hook p c w = (r, w')" by (cases "pl_dead_lettered_hook p c w")
  with assms(2) assms(1) [of c w] Some show ?thesis
    by (cases r) (auto simp: note_dead_lettered_def guarded_hook_def wp_def act_simps act_snd_def)
qed

lemma metric_settles:
  assumes "hooks_return p0 ro" and "is_settled m"
  shows "settles (emit_settlement_metric ro) (p, m, w)"
proof (cases "ro_metrics ro")
  case None
  with assms(2) show ?thesis by (auto simp: emit_settlement_metric_def wp_def Let_def is_settled_def)
next
  case (Some sm)
  then have "returns (sm_record_settlement sm m' d)" for m' d using assms(1) by (simp add: hooks_return_def)
  then have "\<exists>u. fst (sm_record_settlement sm m' d w) = Inr u" for m' d by (auto simp: returns_def)
  with assms(2) Some show ?thesis
    by (auto simp: emit_settlement_metric_def wp_def Let_def act_snd_def is_settled_def split: prod.split)
      (metis fst_conv)+
qed

lemma hooks_return_upd [simp]:
  "hooks_return (p\<lparr>pl_dlq_missing_streak := d\<rparr>) ro = hooks_return p ro"
  "hooks_return (p\<lparr>pl_dead_letter_blocked_total := n\<rparr>) ro = hooks_return p ro"
  "hooks_return (p\<lparr>pl_ack_outcome_unknown_total := n\<rparr>) ro = hooks_return p ro"
  by (simp_all add: hooks_return_def)

lemma settle_plainly_settles:
  assumes "hooks_return p ro" and "settleable m"
  shows "settles (settle_plainly kind requeue e) (p, m, w)"
proof -
  have noted: "settles (note_dead_lettered x) (p, m', w')" if "is_settled m'" for x m' w'
    by (rule note_settles [OF _ that]) (use assms(1) in \<open>auto simp: hooks_return_def\<close>)
  show ?thesis
    unfolding settle_plainly_def wp_bind wp_snd
    by (rule wp_settles [OF assms(2)]) (auto simp: wp_simps noted split: option.split)
qed

lemma settle_checked_settles:
  assumes "hooks_return p ro" and "settleable m"
  shows "settles (settle_checked ro kind requeue e) (p, m, w)"
proof (cases "pl_dead_letter_check p")
  case None
  with assms show ?thesis by (simp add: settle_checked_def wp_get settle_plainly_settles [of _ ro])
next
  case (Some check)
  have check: "returns (check (ro_queue ro))" and sleep: "\<And>d. returns (pl_sleep p d)"
    using assms(1) Some by (auto simp: hooks_return_def)
  have missing: "settles (requeue_missing_dlq ro) (p, m, w')" for w'
    by (auto simp: requeue_missing_dlq_def wp_simps Let_def apfst_def
        intro!: wp_returns [OF sleep] wp_settles [OF assms(2)])
  have "settles (act_bind (act_snd (act_snd (check (ro_queue ro)))) (\<lambda>found.
      if found then act_bind (clear_streak ro) (\<lambda>_. settle_plainly kind requeue e)
      else requeue_missing_dlq ro)) (p, m, w)"
    unfolding wp_bind wp_snd
    by (rule wp_returns [OF check])
      (auto simp: wp_simps clear_streak_def apfst_def missing assms intro!: settle_plainly_settles [of _ ro])
  with Some assms show ?thesis by (simp add: settle_checked_def wp_get settle_plainly_settles [of _ ro])
qed

lemma settle_failure_settles:
  assumes "hooks_return p ro" and "settleable m"
  shows "settles (settle_failure_async ro kind requeue e reason) (p, m, w)"
proof -
  have "wp (try_copy ro requeue e reason) (p, m, w)
      (\<lambda>r s'. (\<exists>b. r = Inr b) \<and> fst s' = p \<and> fst (snd s') = m)"
    using assms(1)
    by (auto simp: try_copy_def wp_simps hooks_return_def split: option.split intro!: wp_returns)
  then show ?thesis
    unfolding settle_failure_async_def wp_bind
    by (rule wp_mono)
      (auto simp: wp_simps clear_streak_def apfst_def settle_checked_settles assms intro!: wp_settles)
qed

lemma handle_async_exception_settles:
  assumes "hooks_return p ro" and "settleable m"
    and "ro_ack_policy ro = AP_MANUAL \<longrightarrow> pl_manual_settle_on_error p"
  shows "settles (handle_async_exception ro e) (p, m, w)"
proof -
  have "failure_decision p ro m e \<noteq> None" using assms(3) by (auto simp: failure_decision_def Let_def)
  then have "settles (handle_async_exception_inner ro e) (p, m, w)"
    using settle_failure_settles [OF assms(1,2)]
    by (auto simp: handle_async_exception_inner_def wp_get wp_ret)
  then show ?thesis
    unfolding handle_async_exception_def unless_channel_gone_def wp_try
    by (rule wp_mono) simp
qed

lemma ack_settles:
  assumes "settleable m" and "strategy \<noteq> Some AP_MANUAL"
  shows "settles (ack_after_success_async ro strategy) (p, m, w)"
proof -
  have "wp (case strategy of None \<Rightarrow> async_op Op_ack | Some policy \<Rightarrow> on_success async_op policy) (m, w)
      (\<lambda>r s'. r = Inr () \<and> is_settled (fst s'))"
    using assms(2)
    by (auto simp: on_success_def wp_simps split: option.split ack_policy.split intro!: wp_settles [OF assms(1)])
  then show ?thesis
    unfolding ack_after_success_async_def ack_after_success_def wp_try wp_snd
    by (rule wp_mono) simp
qed

lemma except_clauses_settles:
  assumes "hooks_return p ro" and "settleable m" and "ro_ack_policy ro \<noteq> AP_MANUAL" and "is_exception e"
  shows "settles (except_clauses_async ro e) (p, m, w)"
  using assms
  by (auto simp: except_clauses_async_def wp_when wp_snd pending_delivery_def
      intro!: ack_settles settle_failure_settles handle_async_exception_settles wp_settles)

section \<open>The two pipelines compared\<close>

text \<open>A message on which the synchronous and the asynchronous settlement do the same: the transport
  supplies one set of settlement functions, and they return.\<close>

definition same_calls :: "'w msg \<Rightarrow> bool" where
  "same_calls m \<longleftrightarrow> (\<forall>x w. sync_op x (m, w) = async_op x (m, w))"

lemma same_callsI:
  assumes "\<And>x. op_async_fn x m = None" and "\<And>x w. \<exists>f. op_sync_fn x m = Some f \<and> fst (f w) = Inr ()"
  shows "same_calls m"
  unfolding same_calls_def
proof (intro allI)
  fix x w
  obtain f where f: "op_sync_fn x m = Some f" "fst (f w) = Inr ()" using assms(2) by blast
  show "sync_op x (m, w) = async_op x (m, w)"
    by (cases "m_disposition m = DP_PENDING")
      (simp_all add: sync_op_settle async_op_settle settle_sync_pending settle_async_pending settle_sync_settled
        settle_async_settled assms(1) f)
qed

lemma same_calls_error:
  assumes "same_calls m" and "async_op x (m, w) = (Inl e, (m', w'))"
  shows "m' = m"
proof (cases "m_disposition m' = DP_PENDING")
  case True
  with async_op_error [OF assms(2)] show ?thesis by simp
next
  case False
  have sync: "sync_op x (m, w) = (Inl e, (m', w'))" using assms by (simp add: same_calls_def)
  with False show ?thesis
    by (cases "m_disposition m = DP_PENDING")
      (auto simp: sync_op_settle settle_sync_settled settle_sync_pending split: option.splits if_splits)
qed

lemma act_bind_cong: "m s = m' s \<Longrightarrow> act_bind m f s = act_bind m' f s"
  by (simp add: act_bind_def)

lemma act_snd_cong: "f s = g s \<Longrightarrow> act_snd f (p, s) = act_snd g (p, s)"
  by (simp add: act_snd_def)

lemma act_try_cong:
  "m s = m' s \<Longrightarrow> (\<And>e s'. m' s = (Inl e, s') \<Longrightarrow> h e s' = h' e s') \<Longrightarrow> act_try m h s = act_try m' h' s"
  by (auto simp: act_try_def split: prod.split sum.split)

lemma settle_failure_plain:
  assumes "pl_dead_letter_copy p = None" and "pl_dead_letter_check p = None"
  shows "settle_failure_async ro kind requeue e reason (p, m, w) = settle_plainly kind requeue e (p, m, w)"
  using assms
  by (auto simp: settle_failure_async_def settle_checked_def try_copy_def act_simps split: option.split)

lemma handle_exception_same:
  assumes "same_calls m" and "pl_dead_letter_copy p = None" and "pl_dead_letter_check p = None"
  shows "handle_sync_exception ro e (p, m, w) = handle_async_exception ro e (p, m, w)"
proof -
  have "act_bind (act_snd (sync_op (kind_op kind requeue)))
        (\<lambda>_. if \<not> requeue then note_dead_lettered e else act_ret ()) (p, m, w)
      = settle_plainly kind requeue (Some e) (p, m, w)" for kind requeue
    unfolding settle_plainly_def option.case
    by (rule act_bind_cong, rule act_snd_cong) (use assms(1) in \<open>simp add: same_calls_def\<close>)
  then have "handle_sync_exception_inner ro e (p, m, w) = handle_async_exception_inner ro e (p, m, w)"
    unfolding handle_sync_exception_inner_def handle_async_exception_inner_def act_get_def
    by (auto simp: settle_failure_plain assms split: option.split)
  then show ?thesis
    unfolding handle_sync_exception_def handle_async_exception_def unless_channel_gone_def
    by (rule act_try_cong) simp
qed

lemma ack_after_success_same:
  assumes "same_calls m"
  shows "ack_after_success_sync ro strategy (p, m, w) = ack_after_success_async ro strategy (p, m, w)"
  unfolding ack_after_success_sync_def ack_after_success_async_def ack_after_success_def
  by (rule act_try_cong, rule act_snd_cong)
    (use assms in \<open>auto simp: same_calls_def on_success_def act_when_def split: option.split ack_policy.split\<close>)

lemma except_clauses_same:
  assumes "same_calls m" and "pl_dead_letter_copy p = None" and "pl_dead_letter_check p = None"
  shows "except_clauses_sync ro e (p, m, w) = except_clauses_async ro e (p, m, w)"
proof -
  have op: "act_snd (sync_op x) (p, m, w) = act_snd (async_op x) (p, m, w)" for x
    by (rule act_snd_cong) (use assms(1) in \<open>simp add: same_calls_def\<close>)
  have "settle_plainly kind False None (p, m, w) = act_snd (async_op (kind_op kind False)) (p, m, w)" for kind
    by (auto simp: settle_plainly_def act_simps split: prod.split sum.split)
  then show ?thesis
    unfolding except_clauses_sync_def except_clauses_async_def
    using assms op by (auto simp: act_when_def handle_exception_same ack_after_success_same settle_failure_plain)
qed

text \<open>Where settling raises, the message and the hooks are what they were.\<close>

definition same_after_error ::
    "('w, 'v) pipeline \<Rightarrow> 'w msg \<Rightarrow> py_exc + 'a \<Rightarrow> ('w, 'v) pstate \<Rightarrow> bool" where
  "same_after_error p m r s' \<longleftrightarrow> isl r \<longrightarrow>
     fst (snd s') = m \<and> pl_dead_letter_copy (fst s') = pl_dead_letter_copy p
     \<and> pl_dead_letter_check (fst s') = pl_dead_letter_check p"

lemma ack_same_after_error:
  assumes "same_calls m"
  shows "wp (ack_after_success_async ro (Some policy)) (p, m, w) (same_after_error p m)"
proof -
  have "wp (on_success async_op policy) (m, w) (\<lambda>r s'. isl r \<longrightarrow> fst s' = m)"
    by (auto simp: on_success_def act_when_def wp_def act_ret_def isl_def split: ack_policy.split prod.split
        dest: same_calls_error [OF assms])
  then show ?thesis
    unfolding ack_after_success_async_def ack_after_success_def wp_try wp_snd option.case
    by (rule wp_mono)
      (auto simp: wp_simps same_after_error_def record_ack_outcome_unknown_def emit_outcome_unknown_metric_def wp_def
        act_simps act_snd_def apfst_def split: sum.split option.split prod.split)
qed

lemma settle_block_same:
  assumes "same_calls m1" and "pl_dead_letter_copy p = None" and "pl_dead_letter_check p = None"
  shows "act_try (if ok then ack_after_success_sync ro (Some policy)
            else act_when pending_delivery (act_snd (sync_op (Op_nack True)))) (except_clauses_sync ro) (p, m1, w1)
       = act_try (if ok then ack_after_success_async ro (Some policy)
            else act_when pending_delivery (act_snd (async_op (Op_nack True)))) (except_clauses_async ro) (p, m1, w1)"
proof (rule act_try_cong)
  have "sync_op x (m1, w) = async_op x (m1, w)" for x w using assms(1) by (simp add: same_calls_def)
  then show "(if ok then ack_after_success_sync ro (Some policy)
            else act_when pending_delivery (act_snd (sync_op (Op_nack True)))) (p, m1, w1)
     = (if ok then ack_after_success_async ro (Some policy)
            else act_when pending_delivery (act_snd (async_op (Op_nack True)))) (p, m1, w1)"
    by (simp add: ack_after_success_same [OF assms(1)] act_when_def act_snd_def)
next
  fix e s'
  assume run: "(if ok then ack_after_success_async ro (Some policy)
            else act_when pending_delivery (act_snd (async_op (Op_nack True)))) (p, m1, w1) = (Inl e, s')"
  have "wp (if ok then ack_after_success_async ro (Some policy)
      else act_when pending_delivery (act_snd (async_op (Op_nack True)))) (p, m1, w1) (same_after_error p m1)"
    by (simp add: ack_same_after_error [OF assms(1)])
      (auto simp: wp_def act_when_def act_snd_def same_after_error_def isl_def split: prod.splits dest: same_calls_error [OF assms(1)])
  from wpD [OF this run] show "except_clauses_sync ro e s' = except_clauses_async ro e s'"
    by (cases s') (auto simp: same_after_error_def intro!: except_clauses_same assms)
qed

lemma act_try_bind:
  "act_try (act_bind c k) h s = (case c s of (Inl e, s1) \<Rightarrow> h e s1 | (Inr a, s1) \<Rightarrow> act_try (k a) h s1)"
  by (simp add: act_try_def act_bind_def split: prod.split sum.split)

lemma wp_try_bind:
  assumes "c s = (r, s1)"
  shows "wp (act_try (act_bind c k) h) s Q \<longleftrightarrow>
    (case r of Inl e \<Rightarrow> wp (h e) s1 Q | Inr a \<Rightarrow> wp (act_try (k a) h) s1 Q)"
  using assms by (simp add: wp_def act_try_bind split: sum.split)

lemma act_bind_snd:
  "act_bind (act_snd f) k (p, s) =
     (case f s of (Inl e, s') \<Rightarrow> (Inl e, (p, s')) | (Inr a, s') \<Rightarrow> k a (p, s'))"
  by (simp add: act_bind_def act_snd_def split: prod.split sum.split)

lemma act_ensure_cong: "m s = m' s \<Longrightarrow> act_ensure m f s = act_ensure m' f s"
  by (simp add: act_ensure_def)

lemma wp_process_async:
  assumes "oversized p m = None" and "filtered_out ro m = Inr False" and "\<not> acks_first (ro_ack_policy ro)"
    and block: "\<And>k. wp (act_try (act_bind (consume_and_publish (consume_async ro)
      (\<lambda>x. publish_result_async ro x publish_fn)) k) (except_clauses_async ro)) (p, m, w) (\<lambda>_ s'. D (disp_of s'))"
  shows "wp (process_async ro publish_fn) (p, m, w) (\<lambda>_ s'. D (disp_of s'))"
proof -
  have metric: "wp (emit_settlement_metric ro) s (\<lambda>_ s'. D (disp_of s'))" if "D (disp_of s)" for s
    by (rule wp_mono [OF keeps_dispD [OF keeps_disp_metric]]) (use that in simp)
  show ?thesis
    using assms(1-3)
    by (simp add: process_async_def wp_get wp_ensure)
      (rule wp_mono [OF block], rule wp_mono [OF metric], auto split: sum.split)
qed

lemma oversized_same:
  assumes "oversized p m = Some e" and "same_calls m" and "pl_dead_letter_copy p = None" and "pl_dead_letter_check p = None"
  shows "dead_letter_oversized_sync ro (p, m, w) = dead_letter_oversized_async ro e (p, m, w)"
proof -
  have "exc_on_dead_lettered e = None"
    using assms(1) by (auto simp: oversized_def inbound_too_large_error_def mk_exc_def split: option.splits if_splits)
  then have "settle_failure_async ro SK_REJECT False (Some e) reason (p, m, w) = act_snd (sync_op (Op_reject False)) (p, m, w)"
    for reason
    using assms(2)
    by (simp add: settle_failure_plain assms(3,4) settle_plainly_def note_dead_lettered_def same_calls_def act_snd_def
        act_simps split: prod.split sum.split)
  then show ?thesis
    unfolding dead_letter_oversized_sync_def dead_letter_oversized_async_def unless_channel_gone_def
    by (intro act_ensure_cong act_try_cong) (simp_all add: act_when_def)
qed

lemma same_calls_settled: "is_settled m \<Longrightarrow> same_calls m"
  by (auto simp: same_calls_def is_settled_def sync_settler.settled_noop async_settler.settled_noop)

lemma receive_all_cong: "(\<And>x. x \<in> set mws \<Longrightarrow> f x = g x) \<Longrightarrow> receive_all f mws = receive_all g mws"
  by (induction mws) auto

definition same_middlewares :: "('w, 'v) route \<Rightarrow> bool" where
  "same_middlewares ro \<longleftrightarrow> (\<forall>mw \<in> set (ro_middlewares ro).
     mw_on_receive mw = mw_on_receive_async mw \<and> mw_consume_scope mw = mw_consume_scope_async mw
     \<and> mw_publish_scope mw = mw_publish_scope_async mw)"

lemma run_consume_same:
  assumes "same_middlewares ro"
  shows "run_consume_sync p ro = run_consume_async p ro"
proof -
  have "receive_all mw_on_receive (rev (ro_middlewares ro)) = receive_all mw_on_receive_async (rev (ro_middlewares ro))"
    using assms by (intro receive_all_cong) (simp add: same_middlewares_def)
  moreover have "foldr mw_consume_scope (ro_middlewares ro) c = foldr mw_consume_scope_async (ro_middlewares ro) c" for c
    using assms by (intro foldr_cong) (simp_all add: same_middlewares_def)
  ultimately show ?thesis by (simp add: run_consume_sync_def run_consume_async_def run_consume_def)
qed

lemma publish_result_same:
  assumes "same_middlewares ro"
  shows "publish_result_sync ro r fn = publish_result_async ro r fn"
proof -
  have "foldr mw_publish_scope (ro_middlewares ro) f = foldr mw_publish_scope_async (ro_middlewares ro) f" for f
    using assms by (intro foldr_cong) (simp_all add: same_middlewares_def)
  then have "compose_publish_sync (ro_middlewares ro) = compose_publish_async (ro_middlewares ro)"
    by (simp add: compose_publish_sync_def compose_publish_async_def compose_publish_def fun_eq_iff)
  then show ?thesis
    unfolding publish_result_sync_def publish_result_async_def publish_result_def by (simp only:)
qed

lemma try_block_same:
  assumes "pl_dead_letter_copy p = None" and "pl_dead_letter_check p = None"
    and "\<And>ok p1 m1 w1. C (p, m, w) = (ok, (p1, m1, w1)) \<Longrightarrow> p1 = p \<and> same_calls m1"
  shows "act_try (act_bind C (\<lambda>ok. if ok then ack_after_success_sync ro (Some policy)
            else act_when pending_delivery (act_snd (sync_op (Op_nack True))))) (except_clauses_sync ro) (p, m, w)
       = act_try (act_bind C (\<lambda>ok. if ok then ack_after_success_async ro (Some policy)
            else act_when pending_delivery (act_snd (async_op (Op_nack True))))) (except_clauses_async ro) (p, m, w)"
proof -
  obtain ok p1 m1 w1 where run: "C (p, m, w) = (ok, (p1, m1, w1))" by (metis prod_cases4)
  with assms(3) have "p1 = p" "same_calls m1" by auto
  with run show ?thesis
    unfolding act_try_bind
    by (auto simp: except_clauses_same settle_block_same assms(1,2) simp del: if_split split: sum.split split del: if_split)
qed

section \<open>Properties\<close>




text \<open>C26: a missing dead-letter queue never swallows a delivery.  When a settlement would dead-letter, no
  copy was confirmed and the check of the dead-letter target says that it is missing, the delivery
  is neither rejected nor dropped: after a pause between half a second and five seconds, which
  doubles with every miss in a row until the cap, it is handed back to the queue; the miss is
  counted, and the streak of the queue grows by one.\<close>

theorem missing_dlq_requeues:
  assumes "try_copy ro False e reason (p, m, w) = (Inr False, (p, m, w1))"
    and "pl_dead_letter_check p = Some check" and "check (ro_queue ro) w1 = (Inr False, w2)"
    and "streak = dict_get_or (pl_dlq_missing_streak p) (rq_name (ro_queue ro)) 0"
    and "pl_sleep p (dlq_missing_delay streak) w2 = (Inr (), w3)"
    and "settle_failure_async ro kind False e reason (p, m, w) = (r, (p', m', w'))"
  shows "async_op (Op_nack True) (m, w3) = (r, (m', w'))
    \<and> dlq_missing_delay streak = (if streak < 4 then 2 ^ streak / 2 else 5)
    \<and> pl_dead_letter_blocked_total p' = pl_dead_letter_blocked_total p + 1
    \<and> dict_get (pl_dlq_missing_streak p') (rq_name (ro_queue ro)) = Some (streak + 1)"
proof -
  have "dlq_missing_delay streak = (if streak < 4 then 2 ^ streak / 2 else 5)"
  proof (cases "streak < 4")
    case True
    then consider "streak = 0" | "streak = 1" | "streak = 2" | "streak = 3" by linarith
    then show ?thesis
      by cases (simp_all add: dlq_missing_delay_def DLQ_MISSING_BACKOFF_INITIAL_def DLQ_MISSING_BACKOFF_MAX_def)
  next
    case False
    then have "(2 :: real) ^ 4 \<le> 2 ^ min streak 16" by (intro power_increasing) auto
    with False show ?thesis
      by (simp add: dlq_missing_delay_def DLQ_MISSING_BACKOFF_INITIAL_def DLQ_MISSING_BACKOFF_MAX_def)
  qed
  with assms show ?thesis
    by (auto simp: settle_failure_async_def settle_checked_def requeue_missing_dlq_def act_simps act_snd_def Let_def
        split: prod.splits)
qed



text \<open>A delivery whose transport records what it is asked to do, a route whose handler fails, and a
  pipeline whose dead-letter copies are confirmed.\<close>

definition example_delivery :: "string list msg" where
  "example_delivery = blank_msg\<lparr>
     m_ack_fn := Some (\<lambda>w. (Inr (), w @ [''ack''])),
     m_nack_fn := Some (\<lambda>b w. (Inr (), w @ [if b then ''requeue'' else ''drop''])),
     m_reject_fn := Some (\<lambda>b w. (Inr (), w @ [''reject'']))\<rparr>"

definition example_route :: "py_exc + unit py_result \<Rightarrow> (string list, unit) route" where
  "example_route res = \<lparr>ro_queue = example_queue, ro_ack_policy = AP_AUTO, ro_filter_fn = None, ro_params = [],
     ro_handler = (\<lambda>_ (m, w). (res, (m, w @ [''handler'']))), ro_resolver = None, ro_middlewares = [],
     ro_metrics = None, ro_result_publisher = None, ro_serializer_override = None, ro_reply_to_allow = None\<rparr>"

definition example_pipeline :: "(string list, unit) pipeline" where
  "example_pipeline = \<lparr>pl_serializer = None, pl_reject_transient_on_redelivery = True,
     pl_manual_settle_on_error = True, pl_processing_timeout = None, pl_dead_letter_check = None,
     pl_max_body_bytes = Some 1000,
     pl_dead_letter_copy = Some (\<lambda>q m e reason w. (Inr True, w @ [''copy''])),
     pl_dlq_missing_streak = [], pl_ack_outcome_unknown_total = 0, pl_dead_letter_blocked_total = 0,
     pl_infrastructure = [], pl_json_dumps = (\<lambda>_. Inr ''null''), pl_uuid = ''u'',
     pl_sleep = (\<lambda>_ w. (Inr (), w @ [''sleep''])),
     pl_timeout = (\<lambda>_ f s. (False, f s)), pl_dead_lettered_hook = (\<lambda>_ w. (Inr (), w))\<rparr>"

definition plain_pipeline :: "(string list, unit) pipeline" where
  "plain_pipeline = example_pipeline\<lparr>pl_dead_letter_copy := None\<rparr>"

definition guarded_pipeline :: "(string list, unit) pipeline" where
  "guarded_pipeline = plain_pipeline\<lparr>pl_dead_letter_check := Some (\<lambda>q w. (Inr False, w @ [''probe'']))\<rparr>"

lemmas pipeline_examples = guarded_pipeline_def plain_pipeline_def example_pipeline_def

lemma example_pipeline_fields:
  "p \<in> {example_pipeline, plain_pipeline, guarded_pipeline} \<Longrightarrow> pl_processing_timeout p = None"
  "p \<in> {example_pipeline, plain_pipeline, guarded_pipeline} \<Longrightarrow> pl_serializer p = None"
  "p \<in> {example_pipeline, plain_pipeline, guarded_pipeline} \<Longrightarrow> oversized p example_delivery = None"
  "p \<in> {example_pipeline, plain_pipeline, guarded_pipeline} \<Longrightarrow> oversized p (example_delivery\<lparr>m_redelivered := b\<rparr>) = None"
  by (auto simp: pipeline_examples oversized_def example_delivery_def blank_msg_def)

lemma example_route_fields [simp]:
  "ro_ack_policy (example_route res) = AP_AUTO" "ro_middlewares (example_route res) = []"
  "ro_metrics (example_route res) = None" "filtered_out (example_route res) m = Inr False"
  "ro_queue (example_route res) = example_queue"
  by (simp_all add: example_route_def filtered_out_def)

lemma example_chain:
  assumes "p \<in> {example_pipeline, plain_pipeline, guarded_pipeline}"
  shows "run_consume_async p (example_route res) (m, w) = (res, (m, w @ [''handler'']))"
  by (simp add: example_pipeline_fields(2) [OF assms] run_consume_async_def run_consume_def example_route_def invoke_handler_def
      deserialize_body_def effective_serializer_def resolve_params_def execute_plan_def scope_cleanup_def
      act_simps map_filter_def split: sum.split)

lemma example_failure:
  assumes "p \<in> {example_pipeline, plain_pipeline, guarded_pipeline}"
  shows "consume_and_publish (consume_async (example_route (Inl e)))
     (\<lambda>x. publish_result_async (example_route (Inl e)) x None) (p, m, w)
   = (Inl e, (p, m, w @ [''handler'']))"
  by (simp add: consume_and_publish_def consume_async_def act_simps act_snd_def example_chain [OF assms]
      example_pipeline_fields(1) [OF assms])

lemma example_settleable: "settleable example_delivery" "same_calls example_delivery"
proof -
  have fn: "\<exists>f. op_sync_fn x example_delivery = Some f \<and> (\<forall>w. fst (f w) = Inr ())"
    "op_async_fn x example_delivery = None" for x
    by (cases x; simp add: example_delivery_def blank_msg_def)+
  then show "settleable example_delivery" by (fastforce simp: settleable_def op_chosen_fn_def)
  show "same_calls example_delivery"
  proof (rule same_callsI)
    show "op_async_fn x example_delivery = None" for x by (rule fn(2))
    show "\<exists>f. op_sync_fn x example_delivery = Some f \<and> fst (f w) = Inr ()" for x w using fn(1) by blast
  qed
qed

lemma example_hooks: "hooks_return example_pipeline (example_route res)"
  by (auto simp: hooks_return_def returns_def example_pipeline_def)

lemma example_process:
  assumes "p \<in> {example_pipeline, plain_pipeline, guarded_pipeline}" and "m \<in> {example_delivery, example_delivery\<lparr>m_redelivered := True\<rparr>}"
  shows "process_async (example_route (Inl e)) None (p, m, [])
    = act_ensure (except_clauses_async (example_route (Inl e)) e) (emit_settlement_metric (example_route (Inl e)))
        (p, m, [''handler''])"
proof -
  have "oversized p m = None" using assms example_pipeline_fields(3,4) by auto
  then show ?thesis
    by (simp add: process_async_def act_get_def acks_first_def act_ensure_def act_try_bind example_failure [OF assms(1)])
qed

lemma example_emit: "emit_settlement_metric (example_route res) (p, m, w)
    = (Inr (), (p, if is_settled m \<and> \<not> m_settle_unknown m \<and> m_metric_once m \<noteq> Some []
        then m\<lparr>m_metric_once := map_option butlast (m_metric_once m)\<rparr> else m, w))"
  by (simp add: emit_settlement_metric_def is_settled_def Let_def)

lemma example_runs:
  assumes "p \<in> {example_pipeline, plain_pipeline, guarded_pipeline}" and "m \<in> {example_delivery, example_delivery\<lparr>m_redelivered := True\<rparr>}"
    and "except_clauses_async (example_route (Inl e)) e (p, m, [''handler'']) = (Inr (), (p', m', w'))"
  shows "\<exists>m''. process_async (example_route (Inl e)) None (p, m, []) = (Inr (), (p', m'', w'))
    \<and> m_disposition m'' = m_disposition m'"
  by (simp add: example_process [OF assms(1,2)] act_ensure_def assms(3) example_emit)

lemma example_ops:
  "async_op Op_ack (example_delivery, w)
     = (Inr (), (example_delivery\<lparr>m_disposition := DP_ACKED\<rparr>, w @ [''ack'']))"
  "async_op (Op_nack True) (example_delivery, w)
     = (Inr (), (example_delivery\<lparr>m_disposition := DP_NACKED\<rparr>, w @ [''requeue'']))"
  "async_op (Op_reject False) (example_delivery, w)
     = (Inr (), (example_delivery\<lparr>m_disposition := DP_REJECTED\<rparr>, w @ [''reject'']))"
  by (simp_all add: async_op_settle settle_async_def settle_claim_def example_delivery_def blank_msg_def)

lemma example_copy:
  "try_copy (example_route res) False (Some e) ''permanent'' (example_pipeline, m, w)
     = (Inr True, (example_pipeline, m, w @ [''copy'']))"
  "try_copy (example_route res) False (Some e) reason (guarded_pipeline, m, w) = (Inr False, (guarded_pipeline, m, w))"
  by (simp_all add: try_copy_def act_get_def act_snd_def act_ret_def pipeline_examples)

lemma example_pending: "m_disposition example_delivery = DP_PENDING" "\<not> is_settled example_delivery"
  by (simp_all add: example_delivery_def blank_msg_def is_settled_def)




theorem missing_dlq_requeues_witness:
  "\<exists>p' m'. settle_failure_async (example_route (Inl (value_error ''bad''))) SK_REJECT False
       (Some (value_error ''bad'')) ''permanent'' (guarded_pipeline, example_delivery, [])
     = (Inr (), (p', m', [''probe'', ''sleep'', ''requeue''])) \<and> pl_dead_letter_blocked_total p' = 1"
proof -
  let ?e = "value_error ''bad''"
  let ?ro = "example_route (Inl ?e)"
  obtain r p' m' w' where run: "settle_failure_async ?ro SK_REJECT False (Some ?e) ''permanent''
      (guarded_pipeline, example_delivery, []) = (r, (p', m', w'))"
    by (metis prod_cases4)
  have check: "pl_dead_letter_check guarded_pipeline = Some (\<lambda>q w. (Inr False, w @ [''probe'']))"
    and sleep: "pl_sleep guarded_pipeline d w = (Inr (), w @ [''sleep''])"
    and zero: "dict_get_or (pl_dlq_missing_streak guarded_pipeline) (rq_name (ro_queue ?ro)) 0 = 0"
      "pl_dead_letter_blocked_total guarded_pipeline = 0" for d w
    by (simp_all add: pipeline_examples dict_get_or_def)
  from missing_dlq_requeues [OF example_copy(2) check refl zero(1) [symmetric] sleep run]
  show ?thesis using run zero by (auto simp: example_ops)
qed



end
