(* ===== verification/Rk_RateLimit.thy ===== *)
theory Rk_RateLimit
  imports Rk_FailureCopy
begin

text \<open>
  Rate limiting of consumers (\<^verbatim>\<open>middleware/rate_limit.py\<close>) and flow control of publishers
  (\<^verbatim>\<open>highload/backpressure.py\<close>).

  The readings of \<^verbatim>\<open>time.monotonic\<close> are arguments.  What a thread does while it holds a lock is one
  step; the flow controller is a step relation in which any number of publishers and the connection
  callbacks interleave between such steps.
\<close>

section \<open>Token buckets\<close>

record bucket =
  tb_rate :: real
  tb_capacity :: real
  tb_tokens :: real
  tb_last :: real

definition bucket_init :: "real \<Rightarrow> real \<Rightarrow> real \<Rightarrow> bucket" where
  "bucket_init now rate capacity = \<lparr>tb_rate = rate, tb_capacity = capacity, tb_tokens = capacity, tb_last = now\<rparr>"

definition refill :: "real \<Rightarrow> bucket \<Rightarrow> bucket" where
  "refill now b = b\<lparr>tb_tokens := min (tb_capacity b) (tb_tokens b + (now - tb_last b) * tb_rate b), tb_last := now\<rparr>"

definition try_acquire :: "real \<Rightarrow> bucket \<Rightarrow> bool \<times> bucket" where
  "try_acquire now b =
     (let b1 = refill now b
      in if tb_tokens b1 \<ge> 1 then (True, b1\<lparr>tb_tokens := tb_tokens b1 - 1\<rparr>) else (False, b1))"

definition wait_time :: "real \<Rightarrow> bucket \<Rightarrow> real \<times> bucket" where
  "wait_time now b =
     (let b1 = refill now b
      in if tb_tokens b1 \<ge> 1 then (0, b1) else ((1 - tb_tokens b1) / tb_rate b1, b1))"

text \<open>The publisher's bucket has as many tokens as its rate per second and holds at most as many.\<close>

record publish_bucket =
  pb_rate :: int
  pb_tokens :: real
  pb_max_tokens :: real
  pb_last :: real

definition publish_bucket_init :: "real \<Rightarrow> int \<Rightarrow> publish_bucket" where
  "publish_bucket_init now rate =
     \<lparr>pb_rate = rate, pb_tokens = real_of_int rate, pb_max_tokens = real_of_int rate, pb_last = now\<rparr>"

definition pb_refill :: "real \<Rightarrow> publish_bucket \<Rightarrow> publish_bucket" where
  "pb_refill now b = b\<lparr>
     pb_tokens := min (pb_max_tokens b) (pb_tokens b + (now - pb_last b) * real_of_int (pb_rate b)), pb_last := now\<rparr>"

definition pb_acquire :: "real \<Rightarrow> publish_bucket \<Rightarrow> bool \<times> publish_bucket" where
  "pb_acquire now b =
     (let b1 = pb_refill now b
      in if pb_tokens b1 \<ge> 1 then (True, b1\<lparr>pb_tokens := pb_tokens b1 - 1\<rparr>) else (False, b1))"

text \<open>Attempts at the given moments, in order, and how many of them were granted.\<close>

primrec attempts :: "(real \<Rightarrow> 's \<Rightarrow> bool \<times> 's) \<Rightarrow> real list \<Rightarrow> 's \<Rightarrow> nat \<times> 's" where
  "attempts take_one [] s = (0, s)"
| "attempts take_one (t # ts) s =
     (case take_one t s of (g, s1) \<Rightarrow>
        (case attempts take_one ts s1 of (n, s2) \<Rightarrow> ((if g then 1 else 0) + n, s2)))"

text \<open>
  What any limiter of this kind promises: its level never falls below zero nor rises above the
  capacity, and a grant is paid for by the level or by the time that has passed.
\<close>

locale limiter =
  fixes take_one :: "real \<Rightarrow> 's \<Rightarrow> bool \<times> 's"
    and level :: "'s \<Rightarrow> real" and clock :: "'s \<Rightarrow> real" and ok :: "'s \<Rightarrow> bool"
    and rate :: real and capacity :: real
  assumes ok_level: "ok s \<Longrightarrow> 0 \<le> level s \<and> level s \<le> capacity"
    and take_one: "ok s \<Longrightarrow> clock s \<le> now \<Longrightarrow> take_one now s = (g, s') \<Longrightarrow>
      ok s' \<and> clock s' = now \<and> level s' + (if g then 1 else 0) \<le> level s + rate * (now - clock s)"
begin

lemma attempts_paid:
  assumes "ok s" and "sorted (clock s # ts)" and "attempts take_one ts s = (n, s')"
  shows "ok s' \<and> clock s' = last (clock s # ts) \<and> level s' + real n \<le> level s + rate * (last (clock s # ts) - clock s)"
  using assms
proof (induction ts arbitrary: s n)
  case (Cons t ts)
  obtain g s1 where one: "take_one t s = (g, s1)" by (cases "take_one t s")
  obtain k where rest: "attempts take_one ts s1 = (k, s')" and n: "n = (if g then 1 else 0) + k"
    using Cons.prems(3) one by (auto split: prod.splits)
  have now: "clock s \<le> t" using Cons.prems(2) by simp
  note paid = take_one [OF Cons.prems(1) now one]
  have "sorted (clock s1 # ts)" using Cons.prems(2) paid by simp
  from Cons.IH [OF _ this rest] paid
  have IH: "ok s'" "clock s' = last (t # ts)" "level s' + real k \<le> level s1 + rate * (last (t # ts) - t)" by auto
  have "rate * (last (t # ts) - t) + rate * (t - clock s) = rate * (last (t # ts) - clock s)"
    by (simp add: algebra_simps)
  with IH paid n show ?case by auto
qed simp

lemma attempts_bounded:
  assumes "ok s" and "sorted (clock s # ts)" and "attempts take_one ts s = (n, s')"
  shows "real n \<le> capacity + rate * (last (clock s # ts) - clock s)"
  using attempts_paid [OF assms] ok_level [OF assms(1)] ok_level [of s'] by linarith

end

definition bucket_ok :: "real \<Rightarrow> real \<Rightarrow> bucket \<Rightarrow> bool" where
  "bucket_ok r c b \<longleftrightarrow> tb_rate b = r \<and> tb_capacity b = c \<and> 0 \<le> r \<and> 0 \<le> c \<and> 0 \<le> tb_tokens b \<and> tb_tokens b \<le> c"

definition publish_bucket_ok :: "int \<Rightarrow> publish_bucket \<Rightarrow> bool" where
  "publish_bucket_ok r b \<longleftrightarrow> pb_rate b = r \<and> pb_max_tokens b = real_of_int r \<and> 0 \<le> r
     \<and> 0 \<le> pb_tokens b \<and> pb_tokens b \<le> real_of_int r"

lemma bucket_step:
  assumes "bucket_ok r c b" and "tb_last b \<le> now"
  shows "bucket_ok r c (refill now b) \<and> tb_last (refill now b) = now
    \<and> tb_tokens (refill now b) = min c (tb_tokens b + r * (now - tb_last b))"
  using assms by (auto simp: refill_def bucket_ok_def mult.commute)

interpretation consume_bucket: limiter try_acquire tb_tokens tb_last "bucket_ok r c" r c
  for r c :: real
proof
  fix s now g s'
  assume ok: "bucket_ok r c s" and now: "tb_last s \<le> now" and step: "try_acquire now s = (g, s')"
  from bucket_step [OF ok now] step
  show "bucket_ok r c s' \<and> tb_last s' = now \<and>
      tb_tokens s' + (if g then 1 else 0) \<le> tb_tokens s + r * (now - tb_last s)"
    by (auto simp: try_acquire_def bucket_ok_def Let_def split: if_splits)
qed (auto simp: bucket_ok_def)

lemma publish_bucket_step:
  assumes "publish_bucket_ok r b" and "pb_last b \<le> now"
  shows "publish_bucket_ok r (pb_refill now b) \<and> pb_last (pb_refill now b) = now
    \<and> pb_tokens (pb_refill now b) = min (real_of_int r) (pb_tokens b + real_of_int r * (now - pb_last b))"
  using assms by (auto simp: pb_refill_def publish_bucket_ok_def mult.commute)

interpretation publish_bucket: limiter pb_acquire pb_tokens pb_last "publish_bucket_ok r" "real_of_int r" "real_of_int r"
  for r :: int
proof
  fix s now g s'
  assume ok: "publish_bucket_ok r s" and now: "pb_last s \<le> now" and step: "pb_acquire now s = (g, s')"
  from publish_bucket_step [OF ok now] step
  show "publish_bucket_ok r s' \<and> pb_last s' = now \<and>
      pb_tokens s' + (if g then 1 else 0) \<le> pb_tokens s + real_of_int r * (now - pb_last s)"
    by (auto simp: pb_acquire_def publish_bucket_ok_def Let_def split: if_splits)
qed (auto simp: publish_bucket_ok_def)

section \<open>Configuration and middleware\<close>

record rate_limit_config =
  rlc_max_rate :: real
  rlc_burst :: int
  rlc_on_limited :: string

definition rate_limit_config_init :: "rate_limit_config \<Rightarrow> py_exc + rate_limit_config" where
  "rate_limit_config_init c =
     (if rlc_max_rate c \<le> 0 then Inl (value_error ''max_rate must be positive'')
      else if rlc_burst c < 1 then Inl (value_error ''burst must be >= 1'')
      else if rlc_on_limited c \<notin> {''wait'', ''nack'', ''drop''}
        then Inl (value_error (''on_limited must be 'wait', 'nack', or 'drop', got '' @ [CHR 0x27] @ rlc_on_limited c @ [CHR 0x27]))
      else Inr c)"

text \<open>
  The collaborators of the middleware: \<open>rl_monotonic\<close> reads the clock, \<open>rl_sleep\<close> sleeps and
  \<open>rl_inc_counter\<close> is the metrics collector, when both it and its configuration were given.
\<close>

record 'w rate_limiter =
  rl_config :: rate_limit_config
  rl_wait_deadline :: real
  rl_monotonic :: "'w \<Rightarrow> real \<times> 'w"
  rl_sleep :: "real \<Rightarrow> 'w settle_fn"
  rl_inc_counter :: "(string \<Rightarrow> 'w settle_fn) option"

definition rl_bucket_init :: "'w rate_limiter \<Rightarrow> real \<Rightarrow> bucket" where
  "rl_bucket_init rl now = bucket_init now (rlc_max_rate (rl_config rl)) (real_of_int (rlc_burst (rl_config rl)))"

type_synonym 'w rl_state = "bucket \<times> 'w msg \<times> 'w"

definition record_drop :: "'w rate_limiter \<Rightarrow> string \<Rightarrow> 'w settle_fn" where
  "record_drop rl reason = (case rl_inc_counter rl of Some f \<Rightarrow> f reason | None \<Rightarrow> act_ret ())"

text \<open>The clock is read inside each operation on the bucket.\<close>

definition rl_now :: "'w rate_limiter \<Rightarrow> ('w rl_state, py_exc, real) act" where
  "rl_now rl = (\<lambda>(b, m, w). case rl_monotonic rl w of (t, w') \<Rightarrow> (Inr t, (b, m, w')))"

definition on_bucket :: "'w rate_limiter \<Rightarrow> (real \<Rightarrow> bucket \<Rightarrow> 'a \<times> bucket) \<Rightarrow> ('w rl_state, py_exc, 'a) act" where
  "on_bucket rl f = (\<lambda>(b, m, w). case rl_monotonic rl w of (t, w') \<Rightarrow> case f t b of (r, b') \<Rightarrow> (Inr r, (b', m, w')))"

definition rl_drop :: "'w rate_limiter \<Rightarrow> (bool \<Rightarrow> ('w msg \<times> 'w, py_exc, unit) act) \<Rightarrow> string \<Rightarrow> bool
    \<Rightarrow> ('w rl_state, py_exc, 'r option) act" where
  "rl_drop rl nack reason requeue =
     act_bind (act_snd (act_snd (record_drop rl reason))) (\<lambda>_.
     act_bind (act_snd (\<lambda>(m, w). if is_settled m then (Inr (), (m, w)) else nack requeue (m, w))) (\<lambda>_.
     act_ret None))"

text \<open>The \<^verbatim>\<open>while\<close> loop of the \<open>wait\<close> policy; \<^const>\<open>None\<close> when the fuel is used up.  The bucket is not part of
  the world that \<open>rl_sleep\<close> changes: this is one worker that has the bucket for itself.\<close>

fun wait_loop :: "nat \<Rightarrow> 'w rate_limiter \<Rightarrow> (bool \<Rightarrow> ('w msg \<times> 'w, py_exc, unit) act) \<Rightarrow> real
    \<Rightarrow> ('w rl_state, py_exc, 'r option) act \<Rightarrow> 'w rl_state \<Rightarrow> ((py_exc + 'r option) \<times> 'w rl_state) option" where
  "wait_loop 0 rl nack deadline call_next s = None"
| "wait_loop (Suc n) rl nack deadline call_next s =
     (case on_bucket rl try_acquire s of
        (Inl e, s1) \<Rightarrow> Some (Inl e, s1)
      | (Inr True, s1) \<Rightarrow> Some (call_next s1)
      | (Inr False, s1) \<Rightarrow>
        (case rl_now rl s1 of
           (Inl e, s2) \<Rightarrow> Some (Inl e, s2)
         | (Inr now, s2) \<Rightarrow>
           (if deadline - now \<le> 0 then Some (rl_drop rl nack ''wait_deadline_exceeded'' False s2)
            else case act_bind (on_bucket rl wait_time) (\<lambda>d. act_snd (act_snd (rl_sleep rl (min d (deadline - now))))) s2 of
              (Inl e, s3) \<Rightarrow> Some (Inl e, s3)
            | (Inr _, s3) \<Rightarrow> wait_loop n rl nack deadline call_next s3)))"

definition rl_scope :: "nat \<Rightarrow> 'w rate_limiter \<Rightarrow> (bool \<Rightarrow> ('w msg \<times> 'w, py_exc, unit) act)
    \<Rightarrow> ('w rl_state, py_exc, 'r option) act \<Rightarrow> 'w rl_state \<Rightarrow> ((py_exc + 'r option) \<times> 'w rl_state) option" where
  "rl_scope fuel rl nack call_next s =
     (case on_bucket rl try_acquire s of
        (Inl e, s1) \<Rightarrow> Some (Inl e, s1)
      | (Inr True, s1) \<Rightarrow> Some (call_next s1)
      | (Inr False, s1) \<Rightarrow>
        (if rlc_on_limited (rl_config rl) = ''nack'' then Some (rl_drop rl nack ''nack'' True s1)
         else if rlc_on_limited (rl_config rl) = ''drop'' then Some (rl_drop rl nack ''drop'' False s1)
         else case rl_now rl s1 of
           (Inl e, s2) \<Rightarrow> Some (Inl e, s2)
         | (Inr now, s2) \<Rightarrow> wait_loop fuel rl nack (now + rl_wait_deadline rl) call_next s2))"

definition rl_consume_scope where "rl_consume_scope fuel rl = rl_scope fuel rl msg_nack"

definition rl_consume_scope_async where "rl_consume_scope_async fuel rl = rl_scope fuel rl msg_nack_async"

text \<open>
  What is relied on of \<^verbatim>\<open>time\<close>: the readings of the monotonic clock do not go back, and a sleep
  returns, no earlier than asked.  \<open>clk\<close> is the time of a world.
\<close>

definition keeps_time :: "'w rate_limiter \<Rightarrow> ('w \<Rightarrow> real) \<Rightarrow> bool" where
  "keeps_time rl clk \<longleftrightarrow>
     (\<forall>w. clk w \<le> fst (rl_monotonic rl w) \<and> fst (rl_monotonic rl w) \<le> clk (snd (rl_monotonic rl w)))
     \<and> (\<forall>d w. fst (rl_sleep rl d w) = Inr () \<and> clk w + d \<le> clk (snd (rl_sleep rl d w)))"

lemma try_acquire_simps [simp]:
  "fst (try_acquire now b) \<longleftrightarrow> tb_tokens (refill now b) \<ge> 1"
  "\<not> 1 \<le> tb_tokens (refill now b) \<Longrightarrow> snd (try_acquire now b) = refill now b"
  "snd (wait_time now b) = refill now b"
  by (auto simp: try_acquire_def wait_time_def Let_def)

lemma on_bucket_run:
  "on_bucket rl f (b, m, w) =
     (Inr (fst (f (fst (rl_monotonic rl w)) b)), (snd (f (fst (rl_monotonic rl w)) b), m, snd (rl_monotonic rl w)))"
  by (simp add: on_bucket_def split: prod.splits)

lemma rl_now_run: "rl_now rl (b, m, w) = (Inr (fst (rl_monotonic rl w)), (b, m, snd (rl_monotonic rl w)))"
  by (simp add: rl_now_def split: prod.splits)

lemma act_bind_run: "f s = (Inr x, s') \<Longrightarrow> act_bind f g s = g x s'"
  by (simp add: act_bind_def)

lemmas rl_runs = on_bucket_run rl_now_run act_snd_run act_bind_run

text \<open>The ways the scope ends: the rest of the pipeline runs on a token just taken, or the message is dropped.\<close>

definition served :: "('w rl_state, py_exc, 'r option) act \<Rightarrow> 'w msg \<Rightarrow> (py_exc + 'r option) \<times> 'w rl_state \<Rightarrow> bool" where
  "served call_next m out \<longleftrightarrow>
     (\<exists>t b w. fst (try_acquire t b) \<and> out = call_next (snd (try_acquire t b), m, w))"

definition dropped :: "'w rate_limiter \<Rightarrow> (bool \<Rightarrow> ('w msg \<times> 'w, py_exc, unit) act) \<Rightarrow> 'w msg
    \<Rightarrow> (py_exc + 'r option) \<times> 'w rl_state \<Rightarrow> bool" where
  "dropped rl nack m out \<longleftrightarrow> (\<exists>reason requeue b w. out = rl_drop rl nack reason requeue (b, m, w))"

lemma dropped_rl_drop [simp]: "dropped rl nack m (rl_drop rl nack reason requeue (b, m, w))"
  by (auto simp: dropped_def)

lemma attempt_cases:
  obtains (granted) t w' where "on_bucket rl try_acquire (b, m, w) = (Inr True, (snd (try_acquire t b), m, w'))"
      "fst (try_acquire t b)"
  | (refused) t where "on_bucket rl try_acquire (b, m, w) = (Inr False, (refill t b, m, snd (rl_monotonic rl w)))"
      "t = fst (rl_monotonic rl w)" "tb_tokens (refill t b) < 1"
  by (cases "fst (try_acquire (fst (rl_monotonic rl w)) b)")
    (auto simp: on_bucket_run intro: that)

text \<open>A sleep of the time the bucket asked for makes a token available.\<close>

lemma slept_enough:
  assumes ok: "bucket_ok r c b" and r: "0 < r" and c: "1 \<le> c"
    and now: "tb_last b \<le> now" and later: "now + fst (wait_time now b) \<le> t"
  shows "fst (try_acquire t (refill now b))"
proof -
  note b1 = bucket_step [OF ok now]
  let ?x = "tb_tokens (refill now b)"
  have rate: "tb_rate (refill now b) = r" using b1 by (simp add: bucket_ok_def)
  then have "0 \<le> fst (wait_time now b)" using r by (simp add: wait_time_def Let_def)
  then have "now \<le> t" using later by simp
  then have level: "tb_tokens (refill t (refill now b)) = min c (?x + r * (t - now))"
    using bucket_step [of r c "refill now b" t] b1 by simp
  have "1 \<le> ?x + r * (t - now)"
  proof (cases "1 \<le> ?x")
    case True
    then show ?thesis using r \<open>now \<le> t\<close> by (smt (verit) mult_nonneg_nonneg)
  next
    case False
    then have "(1 - ?x) / r \<le> t - now"
      using later rate by (simp add: wait_time_def Let_def)
    then show ?thesis using r by (simp add: pos_divide_le_eq mult.commute)
  qed
  then show ?thesis using c level by simp
qed

lemma wait_loop_ends:
  assumes time: "keeps_time rl clk" and ok: "bucket_ok r c b" and r: "0 < r" and c: "1 \<le> c" and now: "tb_last b \<le> clk w"
  shows "\<exists>out. wait_loop (Suc (Suc n)) rl nack deadline call_next (b, m, w) = Some out
    \<and> (served call_next m out \<or> dropped rl nack m out)"
proof (rule attempt_cases [of rl b m w], goal_cases granted refused)
  case (granted t w')
  then show ?thesis by (auto simp: served_def)
next
  case (refused t1)
  define w1 where "w1 = snd (rl_monotonic rl w)"
  define t2 w2 where "t2 = fst (rl_monotonic rl w1)" and "w2 = snd (rl_monotonic rl w1)"
  define t3 w3 where "t3 = fst (rl_monotonic rl w2)" and "w3 = snd (rl_monotonic rl w2)"
  define d where "d = min (fst (wait_time t3 (refill t1 b))) (deadline - t2)"
  define w4 where "w4 = snd (rl_sleep rl d w3)"
  have mono: "clk x \<le> fst (rl_monotonic rl x)" "fst (rl_monotonic rl x) \<le> clk (snd (rl_monotonic rl x))" for x
    using time by (auto simp: keeps_time_def)
  have order: "t1 \<le> clk w1" "clk w1 \<le> t2" "t2 \<le> clk w2" "clk w2 \<le> t3" "t3 \<le> clk w3" "clk w3 + d \<le> clk w4"
      "clk w \<le> t1"
    using mono refused time by (auto simp: w1_def t2_def w2_def t3_def w3_def w4_def keeps_time_def)
  have slept: "rl_sleep rl d w3 = (Inr (), w4)"
    using time by (simp add: keeps_time_def w4_def prod_eq_iff)
  note b1 = bucket_step [OF ok, of t1]
  have step: "wait_loop (Suc k) rl nack deadline call_next (b, m, w) =
      (if deadline - t2 \<le> 0 then Some (rl_drop rl nack ''wait_deadline_exceeded'' False (refill t1 b, m, w2))
       else wait_loop k rl nack deadline call_next (refill t3 (refill t1 b), m, w4))" for k
    unfolding wait_loop.simps refused(1)
    by (simp add: rl_runs act_bind_def slept flip: w1_def t2_def w2_def t3_def w3_def d_def)
  show ?thesis
  proof (cases "deadline \<le> t2")
    case True
    then show ?thesis unfolding step by (auto simp: dropped_def)
  next
    case False
    show ?thesis
    proof (rule attempt_cases [of rl "refill t3 (refill t1 b)" m w4], goal_cases granted refused)
      case (granted t w')
      then show ?thesis unfolding step using False by (auto simp: served_def)
    next
      case late: (refused t4)
      have "\<not> fst (try_acquire t4 (refill t3 (refill t1 b)))" using late by simp
      then have "d = deadline - t2"
        using slept_enough [of r c "refill t1 b" t3 t4] b1 r c order now late mono [of w4] by (auto simp: d_def min_def)
      then have "deadline \<le> clk w4" using order by linarith
      then have "deadline \<le> fst (rl_monotonic rl (snd (rl_monotonic rl w4)))"
        using mono [of w4] mono [of "snd (rl_monotonic rl w4)"] by linarith
      then show ?thesis unfolding step using False late by (auto simp: rl_now_run dropped_def)
    qed
  qed
qed


text \<open>When reading the clock takes no time, the deadline is only met if no token could have come.\<close>

lemma wait_loop_serves:
  assumes time: "keeps_time rl clk" and instant: "\<And>w. rl_monotonic rl w = (clk w, w)"
    and ok: "bucket_ok r c b" and r: "0 < r" and c: "1 \<le> c" and now: "tb_last b \<le> clk w"
    and far: "1 \<le> r * (deadline - tb_last b)"
  shows "\<exists>out. wait_loop (Suc (Suc n)) rl nack deadline call_next (b, m, w) = Some out \<and> served call_next m out"
proof -
  have due: "fst (try_acquire t b')"
    if "bucket_ok r c b'" and "tb_last b' \<le> t" and "1 \<le> tb_tokens b' + r * (t - tb_last b')" for b' t
    using bucket_step [OF that(1,2)] that(3) c by simp
  show ?thesis
  proof (rule attempt_cases [of rl b m w], goal_cases granted refused)
    case (granted t w')
    then show ?case by (auto simp: served_def)
  next
    case (refused t1)
    then have t1: "t1 = clk w" and low: "\<not> fst (try_acquire (clk w) b)" by (simp_all add: instant)
    let ?b1 = "refill (clk w) b"
    note b1 = bucket_step [OF ok now]
    have before: "clk w < deadline"
    proof (rule ccontr)
      assume "\<not> clk w < deadline"
      then have "r * (deadline - tb_last b) \<le> r * (clk w - tb_last b)" using r by simp
      then have "1 \<le> tb_tokens b + r * (clk w - tb_last b)" using far ok by (simp add: bucket_ok_def)
      then show False using due [OF ok now] low by simp
    qed
    define d where "d = min (fst (wait_time (clk w) ?b1)) (deadline - clk w)"
    define w4 where "w4 = snd (rl_sleep rl d w)"
    have slept: "rl_sleep rl d w = (Inr (), w4)" and later: "clk w + d \<le> clk w4"
      using time by (simp_all add: keeps_time_def w4_def prod_eq_iff)
    have step: "wait_loop (Suc k) rl nack deadline call_next (b, m, w) =
        wait_loop k rl nack deadline call_next (refill (clk w) ?b1, m, w4)" for k
      unfolding wait_loop.simps refused(1) t1
      using before by (simp add: rl_runs act_bind_def slept instant flip: d_def)
    have twice: "refill (clk w) ?b1 = ?b1" using b1 by (simp add: refill_def bucket_ok_def)
    have "fst (try_acquire (clk w4) ?b1)"
    proof (cases "d = deadline - clk w")
      case True
      then have "deadline \<le> clk w4" using later by simp
      then have "r * (deadline - tb_last b) \<le> r * (clk w4 - tb_last b)" using r by simp
      then have "1 \<le> tb_tokens b + r * (clk w - tb_last b) + r * (clk w4 - clk w)"
        using far ok by (simp add: bucket_ok_def algebra_simps)
      moreover have "tb_tokens ?b1 = tb_tokens b + r * (clk w - tb_last b)" using b1 low c by (auto simp: min_def)
      ultimately show ?thesis using due [of ?b1 "clk w4"] b1 before True later by simp
    next
      case False
      then show ?thesis using slept_enough [of r c ?b1 "clk w" "clk w4"] b1 r c later twice
        by (auto simp: d_def min_def split: if_splits)
    qed
    then show ?case unfolding step twice
      by (auto simp: on_bucket_run instant served_def split: bool.splits)
  qed
qed


lemma config_ok:
  assumes "rate_limit_config_init c = Inr c'"
  shows "c' = c \<and> 0 < rlc_max_rate c \<and> 1 \<le> rlc_burst c"
  using assms by (auto simp: rate_limit_config_init_def split: if_splits)

lemma new_bucket_ok:
  assumes "rate_limit_config_init (rl_config rl) = Inr c"
  shows "bucket_ok (rlc_max_rate c) (real_of_int (rlc_burst c)) (rl_bucket_init rl now)"
  using config_ok [OF assms] by (simp add: bucket_ok_def rl_bucket_init_def bucket_init_def)

definition example_limiter :: "string \<Rightarrow> real rate_limiter" where
  "example_limiter policy =
     \<lparr>rl_config = \<lparr>rlc_max_rate = 2, rlc_burst = 1, rlc_on_limited = policy\<rparr>, rl_wait_deadline = 30,
      rl_monotonic = (\<lambda>w. (w, w)), rl_sleep = (\<lambda>d w. (Inr (), w + max 0 d)), rl_inc_counter = None\<rparr>"

lemma example_limiter_config: "rate_limit_config_init (rl_config (example_limiter ''wait'')) = Inr (rl_config (example_limiter ''wait''))"
  by (simp add: rate_limit_config_init_def example_limiter_def)

lemma example_limiter_time: "keeps_time (example_limiter policy) (\<lambda>w. w)"
  by (simp add: keeps_time_def example_limiter_def)

text \<open>C24: a rate limiter with an accepted configuration never grants more than its burst plus the
  configured rate times the time that has passed: for every sequence of attempts at non-decreasing
  moments from the creation of the bucket at \<open>t0\<close>, the number of tokens granted is at most
  \<open>burst + max_rate * (t - t0)\<close>, with \<open>t\<close> the moment of the last attempt.
\<close>

theorem rate_limit_bound:
  assumes "rate_limit_config_init (rl_config rl) = Inr c"
    and "sorted (t0 # ts)"
    and "attempts try_acquire ts (rl_bucket_init rl t0) = (n, b)"
  shows "real n \<le> real_of_int (rlc_burst c) + rlc_max_rate c * (last (t0 # ts) - t0)"
proof -
  have "tb_last (rl_bucket_init rl t0) = t0" by (simp add: rl_bucket_init_def bucket_init_def)
  then show ?thesis
    using consume_bucket.attempts_bounded [OF new_bucket_ok [OF assms(1)] _ assms(3)] assms(2) by simp
qed

theorem rate_limit_bound_witness:
  "real 2 \<le> real_of_int 1 + 2 * (last [0, 0, 1/4, 1/2 :: real] - 0)
   \<and> fst (attempts try_acquire [0, 1/4, 1/2] (rl_bucket_init (example_limiter ''wait'') 0)) = 2"
proof -
  let ?run = "attempts try_acquire [0, 1/4, 1/2] (rl_bucket_init (example_limiter ''wait'') 0)"
  have two: "fst ?run = 2"
    unfolding attempts.simps rl_bucket_init_def bucket_init_def example_limiter_def try_acquire_def refill_def Let_def
    by simp
  have "real (fst ?run) \<le> real_of_int (rlc_burst (rl_config (example_limiter ''wait'')))
      + rlc_max_rate (rl_config (example_limiter ''wait'')) * (last [0, 0, 1/4, 1/2] - 0)"
    by (rule rate_limit_bound [OF example_limiter_config _ surjective_pairing]) simp
  then show ?thesis unfolding two by (simp add: example_limiter_def two)
qed

text \<open>C22: the consume scope of the rate limiter returns, and the handler is never invoked without a token.
  With two rounds of fuel for the waiting loop, whatever the policy, the scope ends either with the
  result of the rest of the pipeline run on a token just taken, or by dropping the message.  It is
  assumed that the clock does not go back, that a sleep lasts at least as long as asked, and that no
  other worker takes tokens from the bucket while this one sleeps.
\<close>

theorem rate_limit_scope_ends:
  assumes "rate_limit_config_init (rl_config rl) = Inr c" and "keeps_time rl clk"
    and "bucket_ok (rlc_max_rate c) (real_of_int (rlc_burst c)) b" and "tb_last b \<le> clk w"
  shows "\<exists>out. rl_scope (Suc (Suc n)) rl nack call_next (b, m, w) = Some out
    \<and> (served call_next m out \<or> dropped rl nack m out)"
proof (rule attempt_cases [of rl b m w], goal_cases granted refused)
  case (granted t w')
  then show ?case by (auto simp: rl_scope_def served_def)
next
  case (refused t)
  have mono: "clk x \<le> fst (rl_monotonic rl x)" "fst (rl_monotonic rl x) \<le> clk (snd (rl_monotonic rl x))" for x
    using assms(2) by (auto simp: keeps_time_def)
  have "tb_last b \<le> t" using refused mono [of w] assms(4) by simp
  note b1 = bucket_step [OF assms(3) this]
  have "tb_last (refill t b) \<le> clk (snd (rl_monotonic rl (snd (rl_monotonic rl w))))"
    using b1 refused mono [of w] mono [of "snd (rl_monotonic rl w)"] by simp
  then have "\<exists>out. wait_loop (Suc (Suc n)) rl nack deadline call_next
        (refill t b, m, snd (rl_monotonic rl (snd (rl_monotonic rl w)))) = Some out
      \<and> (served call_next m out \<or> dropped rl nack m out)" for deadline
    using b1 config_ok [OF assms(1)] by (intro wait_loop_ends [OF assms(2)]) auto
  then show ?case unfolding rl_scope_def refused(1)
    by (simp add: rl_now_run del: wait_loop.simps split_paired_Ex)
qed

theorem rate_limit_scope_ends_witness:
  "\<exists>out. rl_scope (Suc (Suc 0)) (example_limiter ''wait'') msg_nack (act_ret None)
        (rl_bucket_init (example_limiter ''wait'') 0, example_msg, 0) = Some out
    \<and> (served (act_ret (None :: unit option)) (example_msg) out
       \<or> dropped (example_limiter ''wait'') msg_nack (example_msg) out)"
  by (rule rate_limit_scope_ends [OF example_limiter_config example_limiter_time new_bucket_ok [OF example_limiter_config]])
    (simp add: rl_bucket_init_def bucket_init_def)



end
