(* ===== verification/Rk_Flow.thy ===== *)
theory Rk_Flow
  imports Rk_RateLimit
begin

text \<open>
  Publisher-side flow control (\<^verbatim>\<open>highload/backpressure.py\<close>): the \<^verbatim>\<open>FlowController\<close> with its
  in-flight limit, its rate limiter, its \<^verbatim>\<open>on_blocked\<close> policies and its two events, as a
  step relation over any number of publisher threads.  A section of the code that holds
  \<^verbatim>\<open>self._lock\<close> is one step.
\<close>

section \<open>State and locked sections\<close>

record backpressure_config =
  bp_max_in_flight :: int
  bp_rate_limit :: "int option"
  bp_blocked_timeout :: real
  bp_on_blocked :: string
  bp_poll_interval_ms :: int

datatype blocked_policy = WaitPolicy | RaisePolicy | DropPolicy

datatype pressure = REASON_BLOCKED | REASON_RATE | REASON_SLOT

record flow =
  fc_config :: backpressure_config
  fc_blocked :: bool
  fc_in_flight :: int
  fc_unblock_event :: bool
  fc_slot_event :: bool
  fc_rate_limiter :: "publish_bucket option"
  fc_policy :: blocked_policy

definition strategies :: "(string, blocked_policy) dict" where
  "strategies = [(''wait'', WaitPolicy), (''raise'', RaisePolicy), (''drop'', DropPolicy)]"

definition key_error :: "string \<Rightarrow> py_exc" where
  "key_error s = mk_exc [''KeyError'', ''LookupError'', ''Exception'', ''BaseException''] s"

definition flow_init :: "real \<Rightarrow> backpressure_config \<Rightarrow> py_exc + flow" where
  "flow_init now c =
     (case dict_get strategies (bp_on_blocked c) of
        None \<Rightarrow> Inl (key_error (bp_on_blocked c))
      | Some policy \<Rightarrow> Inr \<lparr>fc_config = c, fc_blocked = False, fc_in_flight = 0, fc_unblock_event = True,
          fc_slot_event = True, fc_rate_limiter = map_option (publish_bucket_init now) (bp_rate_limit c),
          fc_policy = policy\<rparr>)"

definition on_blocked :: "flow \<Rightarrow> flow" where
  "on_blocked fc = fc\<lparr>fc_blocked := True, fc_unblock_event := False\<rparr>"

definition on_unblocked :: "flow \<Rightarrow> flow" where
  "on_unblocked fc = fc\<lparr>fc_blocked := False, fc_unblock_event := True\<rparr>"

text \<open>The in-flight slot is taken, and the slot event cleared when it was the last one.\<close>

definition claim_slot :: "flow \<Rightarrow> flow" where
  "claim_slot fc =
     (let fc1 = fc\<lparr>fc_in_flight := fc_in_flight fc + 1\<rparr>
      in if fc_in_flight fc1 \<ge> bp_max_in_flight (fc_config fc1) then fc1\<lparr>fc_slot_event := False\<rparr> else fc1)"

datatype acquire_result = GRANTED | RATE_NEEDED | AT_LIMIT

text \<open>The first locked section of \<^verbatim>\<open>acquire\<close>, at the moment \<open>now\<close> of its clock reading.\<close>

definition acquire_locked :: "real \<Rightarrow> flow \<Rightarrow> acquire_result \<times> flow" where
  "acquire_locked now fc =
     (if fc_in_flight fc < bp_max_in_flight (fc_config fc) then
        (case fc_rate_limiter fc of
           None \<Rightarrow> (GRANTED, claim_slot fc)
         | Some rl \<Rightarrow> (case pb_acquire now rl of
             (False, rl') \<Rightarrow> (RATE_NEEDED, fc\<lparr>fc_rate_limiter := Some rl'\<rparr>)
           | (True, rl') \<Rightarrow> (GRANTED, claim_slot (fc\<lparr>fc_rate_limiter := Some rl'\<rparr>))))
      else (AT_LIMIT, fc\<lparr>fc_slot_event := False\<rparr>))"

text \<open>The second one, after the rate limiter has given a token.\<close>

definition claim_locked :: "flow \<Rightarrow> bool \<times> flow" where
  "claim_locked fc =
     (if fc_in_flight fc < bp_max_in_flight (fc_config fc) then (True, claim_slot fc) else (False, fc))"

definition flow_release :: "flow \<Rightarrow> flow" where
  "flow_release fc =
     (let fc1 = (if fc_in_flight fc > 0 then fc\<lparr>fc_in_flight := fc_in_flight fc - 1\<rparr> else fc)
      in fc1\<lparr>fc_slot_event := True\<rparr>)"

definition raise_message :: "pressure \<Rightarrow> flow \<Rightarrow> string" where
  "raise_message reason fc =
     (case reason of
        REASON_BLOCKED \<Rightarrow> ''Connection is blocked by RabbitMQ''
      | REASON_SLOT \<Rightarrow> ''In-flight limit reached ('' @ str_int (bp_max_in_flight (fc_config fc)) @ '')''
      | REASON_RATE \<Rightarrow> ''Rate limit exceeded'')"

definition backpressure_error :: "string \<Rightarrow> py_exc" where
  "backpressure_error s = mk_exc [''BackpressureError'', ''Exception'', ''BaseException''] s"

section \<open>Publishers\<close>

text \<open>
  Where a publisher thread is: outside \<^verbatim>\<open>acquire\<close>; before its loop; in the policy's \<^verbatim>\<open>handle\<close> for one of
  the three reasons; after the rate limiter's wait; waiting for a slot with a token spent; with the slot
  in hand (\<^verbatim>\<open>acquire\<close> returned \<^verbatim>\<open>True\<close>); after \<^verbatim>\<open>False\<close>; after an exception.  One publisher stands for one
  \<^verbatim>\<open>acquire\<close> at a time and releases what it acquired; a thread that holds several slots is several
  publishers.
\<close>

datatype publisher =
    OUTSIDE | ENTER | LOOP | HANDLE pressure | CLAIM | RECLAIM_WAIT | HOLDING | DROPPED | RAISED py_exc

text \<open>
  What \<^verbatim>\<open>handle\<close> can return.  The wait policy returns \<^verbatim>\<open>True\<close> once the event is set, or the
  limiter has a token, and \<^verbatim>\<open>False\<close> when its time is over, which can be at any moment.  The limiter's
  \<^verbatim>\<open>wait\<close> polls the bucket any number of times in between (\<open>poll\<close> below).
\<close>

inductive handle :: "pressure \<Rightarrow> flow \<Rightarrow> py_exc + bool \<Rightarrow> flow \<Rightarrow> bool" where
  wait_unblocked: "fc_policy fc = WaitPolicy \<Longrightarrow> fc_unblock_event fc \<Longrightarrow> handle REASON_BLOCKED fc (Inr True) fc"
| wait_token: "fc_policy fc = WaitPolicy \<Longrightarrow> fc_rate_limiter fc = Some rl \<Longrightarrow> pb_acquire now rl = (True, rl') \<Longrightarrow>
    handle REASON_RATE fc (Inr True) (fc\<lparr>fc_rate_limiter := Some rl'\<rparr>)"
| wait_no_token: "fc_policy fc = WaitPolicy \<Longrightarrow> fc_rate_limiter fc = Some rl \<Longrightarrow> pb_acquire now rl = (False, rl') \<Longrightarrow>
    handle REASON_RATE fc (Inr False) (fc\<lparr>fc_rate_limiter := Some rl'\<rparr>)"
| wait_no_limiter: "fc_policy fc = WaitPolicy \<Longrightarrow> fc_rate_limiter fc = None \<Longrightarrow> handle REASON_RATE fc (Inr False) fc"
| wait_slot: "fc_policy fc = WaitPolicy \<Longrightarrow> fc_slot_event fc \<Longrightarrow> handle REASON_SLOT fc (Inr True) fc"
| wait_timeout: "fc_policy fc = WaitPolicy \<Longrightarrow> reason \<noteq> REASON_RATE \<Longrightarrow> handle reason fc (Inr False) fc"
| raises: "fc_policy fc = RaisePolicy \<Longrightarrow> handle reason fc (Inl (backpressure_error (raise_message reason fc))) fc"
| drops: "fc_policy fc = DropPolicy \<Longrightarrow> handle reason fc (Inr False) fc"

definition after_handle :: "pressure \<Rightarrow> py_exc + bool \<Rightarrow> publisher" where
  "after_handle reason r =
     (case r of
        Inl e \<Rightarrow> RAISED e
      | Inr False \<Rightarrow> DROPPED
      | Inr True \<Rightarrow> (case reason of REASON_RATE \<Rightarrow> CLAIM | _ \<Rightarrow> LOOP))"

definition after_locked :: "acquire_result \<Rightarrow> publisher" where
  "after_locked r = (case r of GRANTED \<Rightarrow> HOLDING | RATE_NEEDED \<Rightarrow> HANDLE REASON_RATE | AT_LIMIT \<Rightarrow> HANDLE REASON_SLOT)"

inductive flow_step :: "flow \<times> publisher list \<Rightarrow> flow \<times> publisher list \<Rightarrow> bool" where
  call: "i < length ps \<Longrightarrow> ps ! i \<in> {OUTSIDE, DROPPED} \<or> (\<exists>e. ps ! i = RAISED e) \<Longrightarrow> flow_step (fc, ps) (fc, ps[i := ENTER])"
| enter_blocked: "i < length ps \<Longrightarrow> ps ! i = ENTER \<Longrightarrow> fc_blocked fc \<Longrightarrow>
    flow_step (fc, ps) (fc, ps[i := HANDLE REASON_BLOCKED])"
| enter: "i < length ps \<Longrightarrow> ps ! i = ENTER \<Longrightarrow> \<not> fc_blocked fc \<Longrightarrow> flow_step (fc, ps) (fc, ps[i := LOOP])"
| loop: "i < length ps \<Longrightarrow> ps ! i = LOOP \<Longrightarrow> acquire_locked now fc = (r, fc') \<Longrightarrow>
    flow_step (fc, ps) (fc', ps[i := after_locked r])"
| policy: "i < length ps \<Longrightarrow> ps ! i = HANDLE reason \<Longrightarrow> handle reason fc r fc' \<Longrightarrow>
    flow_step (fc, ps) (fc', ps[i := after_handle reason r])"
| poll: "i < length ps \<Longrightarrow> ps ! i = HANDLE REASON_RATE \<Longrightarrow> fc_policy fc = WaitPolicy \<Longrightarrow> fc_rate_limiter fc = Some rl \<Longrightarrow>
    pb_acquire now rl = (False, rl') \<Longrightarrow> flow_step (fc, ps) (fc\<lparr>fc_rate_limiter := Some rl'\<rparr>, ps)"
| claim: "i < length ps \<Longrightarrow> ps ! i = CLAIM \<Longrightarrow> claim_locked fc = (got, fc') \<Longrightarrow>
    flow_step (fc, ps) (fc', ps[i := (if got then HOLDING else RECLAIM_WAIT)])"
| reclaim: "i < length ps \<Longrightarrow> ps ! i = RECLAIM_WAIT \<Longrightarrow> fc_slot_event fc \<Longrightarrow> flow_step (fc, ps) (fc, ps[i := LOOP])"
| reclaim_timeout: "i < length ps \<Longrightarrow> ps ! i = RECLAIM_WAIT \<Longrightarrow> flow_step (fc, ps) (fc, ps[i := DROPPED])"
| released: "i < length ps \<Longrightarrow> ps ! i = HOLDING \<Longrightarrow> flow_step (fc, ps) (flow_release fc, ps[i := OUTSIDE])"
| blocked: "flow_step (fc, ps) (on_blocked fc, ps)"
| unblocked: "flow_step (fc, ps) (on_unblocked fc, ps)"

inductive flow_reachable :: "flow \<Rightarrow> flow \<times> publisher list \<Rightarrow> bool" for fc0 where
  start: "flow_reachable fc0 (fc0, replicate n OUTSIDE)"
| step: "flow_reachable fc0 s \<Longrightarrow> flow_step s s' \<Longrightarrow> flow_reachable fc0 s'"

definition holders :: "publisher list \<Rightarrow> nat" where
  "holders ps = length (filter (\<lambda>p. p = HOLDING) ps)"

text \<open>
  The slots in flight are those in hand, never more than the limit; the slot event is set exactly
  while there may be a free slot, so no publisher waits for a slot that is free; and the unblock
  event mirrors the blocked flag.
\<close>

definition flow_inv :: "flow \<times> publisher list \<Rightarrow> bool" where
  "flow_inv s = (case s of (fc, ps) \<Rightarrow>
     fc_in_flight fc = int (holders ps)
     \<and> fc_in_flight fc \<le> max 0 (bp_max_in_flight (fc_config fc))
     \<and> (fc_slot_event fc \<or> bp_max_in_flight (fc_config fc) \<le> fc_in_flight fc)
     \<and> fc_unblock_event fc = (\<not> fc_blocked fc))"

lemma holders_update:
  assumes "i < length ps"
  shows "holders (ps[i := p]) + (if ps ! i = HOLDING then 1 else 0) = holders ps + (if p = HOLDING then 1 else 0)"
proof -
  have split: "holders (take i ps @ q # drop (Suc i) ps) =
      holders (take i ps) + holders (drop (Suc i) ps) + (if q = HOLDING then 1 else 0)" for q
    by (simp add: holders_def)
  have "holders ps = holders (take i ps @ ps ! i # drop (Suc i) ps)"
    using id_take_nth_drop [OF assms] by simp
  then show ?thesis unfolding upd_conv_take_nth_drop [OF assms] split by simp
qed

lemma int_holders_update:
  "i < length ps \<Longrightarrow> int (holders (ps[i := p])) =
     int (holders ps) + (if p = HOLDING then 1 else 0) - (if ps ! i = HOLDING then 1 else 0)"
  using holders_update [of i ps p] by (simp split: if_splits)

lemma holders_replicate [simp]: "holders (replicate n OUTSIDE) = 0"
  by (simp add: holders_def)

text \<open>What the locked sections and the policies keep of the controller.\<close>

definition slots_ok :: "int \<Rightarrow> flow \<Rightarrow> bool" where
  "slots_ok n fc \<longleftrightarrow> fc_in_flight fc = n \<and> n \<le> max 0 (bp_max_in_flight (fc_config fc))
     \<and> (fc_slot_event fc \<or> bp_max_in_flight (fc_config fc) \<le> n) \<and> fc_unblock_event fc = (\<not> fc_blocked fc)"

lemma claim_slot_ok:
  "slots_ok n fc \<Longrightarrow> n < bp_max_in_flight (fc_config fc) \<Longrightarrow> slots_ok (n + 1) (claim_slot fc)"
  by (auto simp: slots_ok_def claim_slot_def Let_def)

lemma acquire_locked_ok:
  assumes "slots_ok n fc" and "acquire_locked now fc = (r, fc')"
  shows "slots_ok (n + (if after_locked r = HOLDING then 1 else 0)) fc'"
proof (cases "n < bp_max_in_flight (fc_config fc)")
  case True
  have "slots_ok n (fc\<lparr>fc_rate_limiter := rl\<rparr>)" for rl using assms(1) by (simp add: slots_ok_def)
  with True have "slots_ok (n + 1) (claim_slot (fc\<lparr>fc_rate_limiter := rl\<rparr>))" "slots_ok n (fc\<lparr>fc_rate_limiter := rl\<rparr>)" for rl
    using claim_slot_ok [of n "fc\<lparr>fc_rate_limiter := rl\<rparr>"] by auto
  moreover have "slots_ok (n + 1) (claim_slot fc)" using claim_slot_ok [OF assms(1) True] .
  moreover have "fc_in_flight fc = n" using assms(1) by (simp add: slots_ok_def)
  ultimately show ?thesis using assms(2) True
    by (auto simp: acquire_locked_def after_locked_def split: option.splits prod.splits bool.splits)
next
  case False
  then show ?thesis using assms by (auto simp: acquire_locked_def after_locked_def slots_ok_def)
qed

lemma claim_locked_ok:
  "slots_ok n fc \<Longrightarrow> claim_locked fc = (got, fc') \<Longrightarrow> slots_ok (n + (if got then 1 else 0)) fc'"
  using claim_slot_ok [of n fc] by (auto simp: claim_locked_def slots_ok_def split: if_splits)

lemma handle_ok: "handle reason fc r fc' \<Longrightarrow> slots_ok n fc \<Longrightarrow> slots_ok n fc' \<and> after_handle reason r \<noteq> HOLDING"
  by (induction rule: handle.induct) (auto simp: slots_ok_def after_handle_def split: pressure.splits)

lemma flow_release_ok: "slots_ok n fc \<Longrightarrow> 0 < n \<Longrightarrow> slots_ok (n - 1) (flow_release fc)"
  by (auto simp: slots_ok_def flow_release_def Let_def)

lemma flow_inv_slots: "flow_inv (fc, ps) \<longleftrightarrow> slots_ok (int (holders ps)) fc"
  by (auto simp: flow_inv_def slots_ok_def)

lemma flow_step_inv:
  assumes "flow_step s s'" and "flow_inv s"
  shows "flow_inv s'"
  using assms
proof (cases rule: flow_step.cases)
  case (loop i ps now fc r fc')
  then show ?thesis using acquire_locked_ok [of "int (holders ps)" fc now r fc'] assms(2)
    by (simp add: flow_inv_slots int_holders_update)
next
  case (policy i ps reason fc r fc')
  then show ?thesis using handle_ok [of reason fc r fc' "int (holders ps)"] assms(2)
    by (simp add: flow_inv_slots int_holders_update)
next
  case (poll i ps fc rl now rl')
  then show ?thesis using assms(2) by (simp add: flow_inv_slots slots_ok_def)
next
  case (claim i ps fc got fc')
  then show ?thesis using claim_locked_ok [of "int (holders ps)" fc got fc'] assms(2)
    by (simp add: flow_inv_slots int_holders_update split: if_splits)
next
  case (released i ps fc)
  have "0 < holders ps" using released holders_update [of i ps OUTSIDE] by simp
  then show ?thesis using released flow_release_ok [of "int (holders ps)" fc] assms(2)
    by (simp add: flow_inv_slots int_holders_update)
next
  case (call i ps fc)
  then show ?thesis using assms(2) by (auto simp: flow_inv_slots int_holders_update)
next
  case (enter_blocked i ps fc)
  then show ?thesis using assms(2) by (simp add: flow_inv_slots int_holders_update)
next
  case (enter i ps fc)
  then show ?thesis using assms(2) by (simp add: flow_inv_slots int_holders_update)
next
  case (reclaim i ps fc)
  then show ?thesis using assms(2) by (simp add: flow_inv_slots int_holders_update)
next
  case (reclaim_timeout i ps fc)
  then show ?thesis using assms(2) by (simp add: flow_inv_slots int_holders_update)
next
  case (blocked fc ps)
  then show ?thesis using assms(2) by (auto simp: flow_inv_slots slots_ok_def on_blocked_def)
next
  case (unblocked fc ps)
  then show ?thesis using assms(2) by (auto simp: flow_inv_slots slots_ok_def on_unblocked_def)
qed

lemma flow_init_inv: "flow_init now c = Inr fc \<Longrightarrow> flow_inv (fc, replicate n OUTSIDE)"
  by (auto simp: flow_init_def flow_inv_slots slots_ok_def split: option.splits)

text \<open>C13: the flow controller's limit holds under every interleaving of publishers, releases and
  connection callbacks: whatever the policy and the rate limiter do, the number of slots in flight is
  the number of publishers whose \<^verbatim>\<open>acquire\<close> returned \<^verbatim>\<open>True\<close> and that have not released, it never exceeds
  \<^verbatim>\<open>max_in_flight\<close>, and the slot event is never left cleared while a slot is free, so that no
  waiting publisher misses a wake-up.
\<close>

theorem flow_controller_invariant:
  assumes "flow_init now c = Inr fc0" and "flow_reachable fc0 s"
  shows "flow_inv s"
  using assms(2) by (induction rule: flow_reachable.induct) (auto intro: flow_step_inv flow_init_inv [OF assms(1)])

definition example_flow :: flow where
  "example_flow = \<lparr>fc_config = \<lparr>bp_max_in_flight = 1, bp_rate_limit = None, bp_blocked_timeout = 60,
       bp_on_blocked = ''wait'', bp_poll_interval_ms = 10\<rparr>, fc_blocked = False, fc_in_flight = 0,
     fc_unblock_event = True, fc_slot_event = True, fc_rate_limiter = None, fc_policy = WaitPolicy\<rparr>"

lemma example_flow_init: "flow_init 0 (fc_config example_flow) = Inr example_flow"
  by (simp add: flow_init_def example_flow_def strategies_def)

theorem flow_controller_invariant_witness:
  "flow_inv (claim_slot example_flow, [HOLDING, ENTER])"
proof (rule flow_controller_invariant [OF example_flow_init])
  note runs = flow_step.call flow_step.enter flow_step.loop
  have "flow_reachable example_flow (example_flow, [OUTSIDE, OUTSIDE])"
    using flow_reachable.start [of example_flow 2] by (simp add: numeral_2_eq_2)
  then have "flow_reachable example_flow (example_flow, [ENTER, OUTSIDE])"
    by (rule flow_reachable.step) (use runs(1) [of 0 "[OUTSIDE, OUTSIDE]" example_flow] in simp)
  then have "flow_reachable example_flow (example_flow, [ENTER, ENTER])"
    by (rule flow_reachable.step) (use runs(1) [of 1 "[ENTER, OUTSIDE]" example_flow] in simp)
  then have "flow_reachable example_flow (example_flow, [LOOP, ENTER])"
    by (rule flow_reachable.step) (use runs(2) [of 0 "[ENTER, ENTER]" example_flow] in \<open>simp add: example_flow_def\<close>)
  then show "flow_reachable example_flow (claim_slot example_flow, [HOLDING, ENTER])"
    by (rule flow_reachable.step)
      (use runs(3) [of 0 "[LOOP, ENTER]" 0 example_flow GRANTED "claim_slot example_flow"] in
        \<open>simp add: example_flow_def acquire_locked_def after_locked_def\<close>)
qed

end
