(* ===== verification/Rk_Dedup.thy ===== *)
theory Rk_Dedup
  imports Rk_Pipeline Rk_Retry
begin

text \<open>
  The deduplication middleware (\<^verbatim>\<open>middleware/deduplication.py\<close>) with its three mark policies.

  The world is the local cache of the middleware, beside the rest \<open>'x\<close>, which holds Redis and the
  channel: the settlement functions that the middleware wraps write the mark from inside the ack.
  The Redis client, the metrics collector, JSON of values, SHA-256 and the sleeps are functions of
  the record \<open>dedup\<close>.  The lock of the local cache protects single operations on it.  A \<^verbatim>\<open>mark_policy\<close>
  that is none of the three names behaves as \<open>on_success\<close> and has no value of its own.
\<close>

section \<open>Configuration and collaborators\<close>

record dedup_config =
  dc_key_prefix :: string
  dc_ttl :: int
  dc_fallback_on_redis_error :: bool
  dc_key_source :: string
  dc_mark_policy :: dedup_mark_policy
  dc_local_cache_size :: int
  dc_processing_timeout :: int
  dc_store_results :: bool
  dc_max_result_bytes :: int
  dc_on_in_flight :: string
  dc_in_flight_requeue_delay :: real
  dc_namespace_by_queue :: bool

type_synonym 'x dworld = "string list \<times> 'x"
type_synonym ('x, 'a) dact = "('x dworld, py_exc, 'a) act"

record ('x, 'v) dedup =
  dd_config :: dedup_config
  dd_rt :: runtime
  dd_key_fn :: "('x dworld msg \<Rightarrow> py_exc + string) option"
  dd_set :: "string \<Rightarrow> string \<Rightarrow> bool \<Rightarrow> int \<Rightarrow> ('x, py_exc, bool) act"
  dd_exists :: "string \<Rightarrow> ('x, py_exc, bool) act"
  dd_get :: "string \<Rightarrow> ('x, py_exc, pyval) act"
  dd_delete :: "string \<Rightarrow> ('x, py_exc, unit) act"
  dd_inc_counter :: "(string \<Rightarrow> ('x, py_exc, unit) act) option"
  dd_sha256_hex :: "string \<Rightarrow> string"
  dd_json_text :: "'v py_result \<Rightarrow> py_exc + string"
  dd_json_loads :: "string \<Rightarrow> py_exc + pyval"
  dd_json_obj :: "pyval \<Rightarrow> 'v"
  dd_decode :: "string \<Rightarrow> py_exc + string"
  dd_sleep :: "real \<Rightarrow> ('x, py_exc, unit) act"
  dd_timeout :: "real \<Rightarrow> ('x, unit) dact \<Rightarrow> ('x, unit) dact"

definition IN_FLIGHT :: string where "IN_FLIGHT = ''in-flight''"
definition COMPLETED :: string where "COMPLETED = ''completed''"
definition RESULT_SCHEMA_VERSION :: int where "RESULT_SCHEMA_VERSION = 1"
definition CANCEL_RELEASE_TIMEOUT :: real where "CANCEL_RELEASE_TIMEOUT = 1"

text \<open>\<^verbatim>\<open>try: m except Exception: h\<close>.\<close>

definition except_exception :: "('s, py_exc, 'a) act \<Rightarrow> (py_exc \<Rightarrow> ('s, py_exc, 'a) act) \<Rightarrow> ('s, py_exc, 'a) act" where
  "except_exception m h = act_try m (\<lambda>e. if is_exception e then h e else act_raise e)"

section \<open>Stored results\<close>

text \<open>The envelope as \<^verbatim>\<open>json.dumps\<close> prints it with the compact separators; \<open>dd_json_text\<close> prints the result.\<close>

definition encode_completed_with_result :: "('x, 'v) dedup \<Rightarrow> 'v py_result \<Rightarrow> int \<Rightarrow> py_exc + string option" where
  "encode_completed_with_result dd result max_bytes =
     (case dd_json_text dd result of
        Inl e \<Rightarrow> (if isinstance e [''TypeError'', ''ValueError''] then Inr None else Inl e)
      | Inr t \<Rightarrow>
        (let q = [CHR 0x22];
             encoded = ''{'' @ q @ ''s'' @ q @ '':'' @ q @ COMPLETED @ q @ '','' @ q @ ''v'' @ q @ '':''
               @ str_int RESULT_SCHEMA_VERSION @ '','' @ q @ ''r'' @ q @ '':'' @ t @ ''}''
         in if int (length (utf8_encode encoded)) > max_bytes then Inr None else Inr (Some encoded)))"

text \<open>\<^verbatim>\<open>bytes.decode\<close> is the identity on ASCII.\<close>

definition bytes_decode :: "('x, 'v) dedup \<Rightarrow> string \<Rightarrow> py_exc + string" where
  "bytes_decode dd b = (if list_all (\<lambda>c. (of_char c :: nat) < 128) b then Inr b else dd_decode dd b)"

definition json_eq_int :: "pyval option \<Rightarrow> int \<Rightarrow> bool" where
  "json_eq_int v n = (case v of
      Some (PyInt i) \<Rightarrow> i = n
    | Some (PyFloat r) \<Rightarrow> r = real_of_int n
    | Some (PyBool b) \<Rightarrow> (if b then 1 else 0) = n
    | _ \<Rightarrow> False)"

definition loaded_result :: "('x, 'v) dedup \<Rightarrow> pyval \<Rightarrow> 'v py_result" where
  "loaded_result dd v = (case v of PyNone \<Rightarrow> R_NONE | PyStr s \<Rightarrow> R_STR s | _ \<Rightarrow> R_OBJ (dd_json_obj dd v))"

definition decode_text :: "('x, 'v) dedup \<Rightarrow> string \<Rightarrow> py_exc + 'v py_result option" where
  "decode_text dd raw =
     (if \<not> startswith raw ''{'' then Inr None
      else case dd_json_loads dd raw of
        Inl e \<Rightarrow> (if isinstance e [''ValueError''] then Inr None else Inl e)
      | Inr (PyDict envelope) \<Rightarrow>
         (if \<not> json_eq_int (dict_get envelope ''v'') RESULT_SCHEMA_VERSION then Inr None
          else if dict_get envelope ''s'' \<noteq> Some (PyStr COMPLETED) then Inr None
          else Inr (map_option (loaded_result dd) (dict_get envelope ''r'')))
      | Inr _ \<Rightarrow> Inr None)"

text \<open>\<^const>\<open>None\<close> stands for \<^verbatim>\<open>(False, None)\<close>.\<close>

definition decode_stored_result :: "('x, 'v) dedup \<Rightarrow> pyval \<Rightarrow> py_exc + 'v py_result option" where
  "decode_stored_result dd raw =
     (case raw of
        PyBytes b \<Rightarrow>
          (case bytes_decode dd b of
             Inl e \<Rightarrow> (if isinstance e [''UnicodeDecodeError''] then Inr None else Inl e)
           | Inr s \<Rightarrow> decode_text dd s)
      | PyStr s \<Rightarrow> decode_text dd s
      | _ \<Rightarrow> Inr None)"

definition completed_value :: "('x, 'v) dedup \<Rightarrow> 'v py_result \<Rightarrow> py_exc + string" where
  "completed_value dd result =
     (if dc_store_results (dd_config dd) \<and> result \<noteq> R_NONE
      then (case encode_completed_with_result dd result (dc_max_result_bytes (dd_config dd)) of
              Inl e \<Rightarrow> Inl e
            | Inr (Some encoded) \<Rightarrow> Inr encoded
            | Inr None \<Rightarrow> Inr COMPLETED)
      else Inr COMPLETED)"

section \<open>Keys\<close>

definition consuming_queue :: "('x, 'v) dedup \<Rightarrow> 'x dworld msg \<Rightarrow> string" where
  "consuming_queue dd m =
     (let v = hget (m_headers m) ''x-rabbitkit-original-queue''
      in if truthy v then py_str (dd_rt dd) v
         else if m_routing_key m \<noteq> '''' then m_routing_key m else ''unknown'')"

definition raw_key :: "('x, 'v) dedup \<Rightarrow> 'x dworld msg \<Rightarrow> py_exc + string" where
  "raw_key dd m =
     (case dd_key_fn dd of
        Some f \<Rightarrow> f m
      | None \<Rightarrow>
         Inr (if dc_key_source (dd_config dd) = ''message_id'' then (case m_message_id m of Some s \<Rightarrow> s | None \<Rightarrow> '''')
              else if dc_key_source (dd_config dd) = ''correlation_id'' then (case m_correlation_id m of Some s \<Rightarrow> s | None \<Rightarrow> '''')
              else if dc_key_source (dd_config dd) = ''body_hash'' then dd_sha256_hex dd (m_body m)
              else (case m_message_id m of Some s \<Rightarrow> s | None \<Rightarrow> '''')))"

definition extract_key :: "('x, 'v) dedup \<Rightarrow> 'x dworld msg \<Rightarrow> py_exc + string" where
  "extract_key dd m =
     (case raw_key dd m of
        Inl e \<Rightarrow> Inl e
      | Inr raw0 \<Rightarrow>
        (let raw = (if raw0 = '''' then dd_sha256_hex dd (m_body m) else raw0)
         in if \<not> dc_namespace_by_queue (dd_config dd) then Inr (dc_key_prefix (dd_config dd) @ '':'' @ raw)
            else Inr (dc_key_prefix (dd_config dd) @ '':'' @ consuming_queue dd m @ '':'' @ raw)))"

section \<open>Local cache, marks and claims\<close>

definition local_is_dup :: "('x, 'v) dedup \<Rightarrow> string \<Rightarrow> 'x dworld \<Rightarrow> bool" where
  "local_is_dup dd key w \<longleftrightarrow> dc_local_cache_size (dd_config dd) > 0 \<and> key \<in> set (fst w)"

definition local_mark :: "('x, 'v) dedup \<Rightarrow> string \<Rightarrow> 'x dworld \<Rightarrow> 'x dworld" where
  "local_mark dd key w =
     (if dc_local_cache_size (dd_config dd) \<le> 0 then w
      else let cache = filter (\<lambda>k. k \<noteq> key) (fst w) @ [key]
           in (if int (length cache) > dc_local_cache_size (dd_config dd) then tl cache else cache, snd w))"

definition local_remove :: "('x, 'v) dedup \<Rightarrow> string \<Rightarrow> 'x dworld \<Rightarrow> 'x dworld" where
  "local_remove dd key w =
     (if dc_local_cache_size (dd_config dd) \<le> 0 then w else (filter (\<lambda>k. k \<noteq> key) (fst w), snd w))"

definition record_fallback :: "('x, 'v) dedup \<Rightarrow> 'x dworld msg \<Rightarrow> ('x, unit) dact" where
  "record_fallback dd m =
     (case dd_inc_counter dd of None \<Rightarrow> act_ret () | Some f \<Rightarrow> act_snd (f (consuming_queue dd m)))"

definition cleanup_key_after_non_success :: "('x, 'v) dedup \<Rightarrow> string \<Rightarrow> ('x, unit) dact" where
  "cleanup_key_after_non_success dd key =
     act_bind (except_exception (act_snd (dd_delete dd key)) (\<lambda>_. act_ret ()))
       (\<lambda>_. act_upd (local_remove dd key))"

definition write_mark :: "('x, 'v) dedup \<Rightarrow> string \<Rightarrow> string \<Rightarrow> 'x dworld msg \<Rightarrow> bool \<Rightarrow> ('x, unit) dact" where
  "write_mark dd key value m nx =
     act_bind (except_exception (act_bind (act_snd (dd_set dd key value nx (dc_ttl (dd_config dd)))) (\<lambda>_. act_ret True))
         (\<lambda>_. act_bind (record_fallback dd m) (\<lambda>_. act_ret False)))
       (\<lambda>written. if written then act_upd (local_mark dd key) else act_ret ())"

definition release_after :: "('x, 'v) dedup \<Rightarrow> string \<Rightarrow> (bool \<Rightarrow> 'x dworld settle_fn) \<Rightarrow> bool \<Rightarrow> 'x dworld settle_fn" where
  "release_after dd key settle requeue = act_ensure (settle requeue) (cleanup_key_after_non_success dd key)"

definition release_claim_on_failure_sync :: "('x, 'v) dedup \<Rightarrow> string \<Rightarrow> 'x dworld msg \<Rightarrow> 'x dworld msg" where
  "release_claim_on_failure_sync dd key m =
     m\<lparr>m_nack_fn := map_option (release_after dd key) (m_nack_fn m),
       m_reject_fn := map_option (release_after dd key) (m_reject_fn m)\<rparr>"

definition release_claim_on_failure_async :: "('x, 'v) dedup \<Rightarrow> string \<Rightarrow> 'x dworld msg \<Rightarrow> 'x dworld msg" where
  "release_claim_on_failure_async dd key m =
     m\<lparr>m_nack_async_fn := map_option (release_after dd key) (m_nack_async_fn m),
       m_reject_async_fn := map_option (release_after dd key) (m_reject_async_fn m)\<rparr>"

definition ack_after_mark :: "('x, unit) dact \<Rightarrow> 'x dworld settle_fn \<Rightarrow> 'x dworld settle_fn" where
  "ack_after_mark mark ack = act_bind mark (\<lambda>_. ack)"

definition mark_on_ack_sync ::
    "('x, 'v) dedup \<Rightarrow> string \<Rightarrow> string \<Rightarrow> bool \<Rightarrow> bool \<Rightarrow> ('x dworld, unit) mact" where
  "mark_on_ack_sync dd key value nx claim = (\<lambda>(m, w).
     case m_ack_fn m of
       None \<Rightarrow> act_snd (write_mark dd key value m nx) (m, w)
     | Some ack \<Rightarrow>
        if is_settled m then act_snd (write_mark dd key value m nx) (m, w)
        else let m1 = m\<lparr>m_ack_fn := Some (ack_after_mark (write_mark dd key value m nx) ack)\<rparr>
             in (Inr (), (if claim then release_claim_on_failure_sync dd key m1 else m1, w)))"

definition mark_on_ack_async ::
    "('x, 'v) dedup \<Rightarrow> string \<Rightarrow> string \<Rightarrow> bool \<Rightarrow> bool \<Rightarrow> ('x dworld, unit) mact" where
  "mark_on_ack_async dd key value nx claim = (\<lambda>(m, w).
     case m_ack_async_fn m of
       None \<Rightarrow> act_snd (write_mark dd key value m nx) (m, w)
     | Some ack \<Rightarrow>
        if is_settled m then act_snd (write_mark dd key value m nx) (m, w)
        else let m1 = m\<lparr>m_ack_async_fn := Some (ack_after_mark (write_mark dd key value m nx) ack)\<rparr>
             in (Inr (), (if claim then release_claim_on_failure_async dd key m1 else m1, w)))"

section \<open>The consume scopes\<close>

text \<open>A duplicate is acked and skipped.\<close>

definition skip_duplicate :: "(settle_op \<Rightarrow> ('x dworld, unit) mact) \<Rightarrow> ('x dworld, 'v py_result) mact" where
  "skip_duplicate settle =
     act_bind (act_when (\<lambda>(m, w). \<not> is_settled m) (settle Op_ack)) (\<lambda>_. act_ret R_NONE)"

text \<open>
  A Redis call whose failure is either raised or, with \<^verbatim>\<open>fallback_on_redis_error\<close>, recorded and
  answered with the fallback.
\<close>

definition with_fallback :: "('x, 'v) dedup \<Rightarrow> ('x, 'a) dact \<Rightarrow> ('x dworld, 'b) mact \<Rightarrow> ('a \<Rightarrow> ('x dworld, 'b) mact)
    \<Rightarrow> ('x dworld, 'b) mact" where
  "with_fallback dd call fallback continue =
     act_bind (except_exception (act_bind (act_snd call) (\<lambda>a. act_ret (Some a)))
         (\<lambda>e. if dc_fallback_on_redis_error (dd_config dd)
              then act_get (\<lambda>(m, w). act_bind (act_snd (record_fallback dd m)) (\<lambda>_. act_ret None))
              else act_raise e))
       (\<lambda>r. case r of Some a \<Rightarrow> continue a | None \<Rightarrow> fallback)"

text \<open>\<^verbatim>\<open>_mark_key\<close>; the asynchronous variant awaits the same calls.\<close>

definition mark_key :: "('x, 'v) dedup \<Rightarrow> string \<Rightarrow> ('x dworld, bool) mact" where
  "mark_key dd key = act_get (\<lambda>(m, w).
     if local_is_dup dd key w then act_ret False
     else with_fallback dd (act_snd (dd_set dd key ''1'' True (dc_ttl (dd_config dd)))) (act_ret True)
       (\<lambda>result. act_bind (if result then act_snd (act_upd (local_mark dd key)) else act_ret ())
          (\<lambda>_. act_ret result)))"

definition is_in_flight :: "('x, 'v) dedup \<Rightarrow> pyval \<Rightarrow> py_exc + bool" where
  "is_in_flight dd raw =
     (case raw of
        PyNone \<Rightarrow> Inr True
      | PyBytes b \<Rightarrow> (case bytes_decode dd b of Inl e \<Rightarrow> Inl e | Inr s \<Rightarrow> Inr (s = IN_FLIGHT))
      | v \<Rightarrow> Inr (v = PyStr IN_FLIGHT))"

definition handle_in_flight_duplicate ::
    "(settle_op \<Rightarrow> ('x dworld, unit) mact) \<Rightarrow> ('x, 'v) dedup \<Rightarrow> ('x dworld, unit) mact" where
  "handle_in_flight_duplicate settle dd =
     (if dc_on_in_flight (dd_config dd) = ''ack_skip''
      then act_when (\<lambda>(m, w). \<not> is_settled m) (settle Op_ack)
      else act_bind (if dc_in_flight_requeue_delay (dd_config dd) > 0
                     then act_snd (act_snd (dd_sleep dd (dc_in_flight_requeue_delay (dd_config dd)))) else act_ret ())
        (\<lambda>_. act_when (\<lambda>(m, w). \<not> is_settled m) (settle (Op_nack True))))"

definition handle_in_flight_duplicate_sync where "handle_in_flight_duplicate_sync = handle_in_flight_duplicate sync_op"
definition handle_in_flight_duplicate_async where "handle_in_flight_duplicate_async = handle_in_flight_duplicate async_op"

text \<open>What a key that is taken means: a live claim, a stored result to replay, or a duplicate.\<close>

definition taken_key ::
    "(settle_op \<Rightarrow> ('x dworld, unit) mact) \<Rightarrow> ('x, 'v) dedup \<Rightarrow> pyval \<Rightarrow> ('x dworld, 'v py_result) mact" where
  "taken_key settle dd raw =
     act_bind (act_of (is_in_flight dd raw)) (\<lambda>live.
       if live then act_bind (handle_in_flight_duplicate settle dd) (\<lambda>_. act_ret R_NONE)
       else if dc_store_results (dd_config dd)
       then act_bind (act_of (decode_stored_result dd raw))
         (\<lambda>stored. case stored of Some r \<Rightarrow> act_ret r | None \<Rightarrow> skip_duplicate settle)
       else skip_duplicate settle)"

text \<open>After the handler returned under a claim.\<close>

definition complete_claim ::
    "(string \<Rightarrow> string \<Rightarrow> bool \<Rightarrow> bool \<Rightarrow> ('x dworld, unit) mact) \<Rightarrow> ('x, 'v) dedup \<Rightarrow> string \<Rightarrow> 'v py_result
       \<Rightarrow> ('x dworld, 'v py_result) mact" where
  "complete_claim mark_on_ack dd key result =
     act_bind (act_of (completed_value dd result)) (\<lambda>value.
     act_bind (if value \<noteq> COMPLETED
               then act_get (\<lambda>(m, w). act_snd (write_mark dd key value m False))
               else mark_on_ack key value False True)
       (\<lambda>_. act_ret result))"

definition consume_claim ::
    "(settle_op \<Rightarrow> ('x dworld, unit) mact) \<Rightarrow> (string \<Rightarrow> string \<Rightarrow> bool \<Rightarrow> bool \<Rightarrow> ('x dworld, unit) mact)
       \<Rightarrow> (py_exc \<Rightarrow> ('x, unit) dact) \<Rightarrow> ('x, 'v) dedup \<Rightarrow> ('x dworld, 'v py_result) mact \<Rightarrow> string
       \<Rightarrow> ('x dworld, 'v py_result) mact" where
  "consume_claim settle mark_on_ack on_error dd call_next key = act_get (\<lambda>(m, w).
     if local_is_dup dd key w then skip_duplicate settle
     else with_fallback dd (act_snd (dd_set dd key IN_FLIGHT True (dc_processing_timeout (dd_config dd)))) call_next
       (\<lambda>claimed.
          if \<not> claimed then with_fallback dd (act_snd (dd_get dd key)) call_next (taken_key settle dd)
          else act_bind (act_try call_next (\<lambda>e. act_bind (act_snd (on_error e)) (\<lambda>_. act_raise e)))
            (\<lambda>result. if result = R_REQUEUED_FOR_RETRY
               then act_bind (act_snd (cleanup_key_after_non_success dd key)) (\<lambda>_. act_ret result)
               else complete_claim mark_on_ack dd key result)))"

definition claim_error_sync :: "('x, 'v) dedup \<Rightarrow> string \<Rightarrow> py_exc \<Rightarrow> ('x, unit) dact" where
  "claim_error_sync dd key e = (if is_exception e then cleanup_key_after_non_success dd key else act_ret ())"

definition release_claim_after_cancel :: "('x, 'v) dedup \<Rightarrow> string \<Rightarrow> ('x, unit) dact" where
  "release_claim_after_cancel dd key =
     act_try (dd_timeout dd CANCEL_RELEASE_TIMEOUT (cleanup_key_after_non_success dd key))
       (\<lambda>e. if isinstance e [''TimeoutError''] then act_ret () else act_raise e)"

definition claim_error_async :: "('x, 'v) dedup \<Rightarrow> string \<Rightarrow> py_exc \<Rightarrow> ('x, unit) dact" where
  "claim_error_async dd key e =
     (if isinstance e [''CancelledError''] then release_claim_after_cancel dd key else claim_error_sync dd key e)"

definition consume_claim_sync where
  "consume_claim_sync dd call_next key =
     consume_claim sync_op (mark_on_ack_sync dd) (claim_error_sync dd key) dd call_next key"

definition consume_claim_async where
  "consume_claim_async dd call_next key =
     consume_claim async_op (mark_on_ack_async dd) (claim_error_async dd key) dd call_next key"

definition consume_on_start ::
    "(settle_op \<Rightarrow> ('x dworld, unit) mact) \<Rightarrow> ('x, 'v) dedup \<Rightarrow> ('x dworld, 'v py_result) mact \<Rightarrow> string
       \<Rightarrow> ('x dworld, 'v py_result) mact" where
  "consume_on_start settle dd call_next key =
     act_bind (mark_key dd key) (\<lambda>is_new.
       if \<not> is_new then skip_duplicate settle
       else act_bind call_next (\<lambda>result.
         act_bind (if result = R_REQUEUED_FOR_RETRY then act_snd (cleanup_key_after_non_success dd key) else act_ret ())
           (\<lambda>_. act_ret result)))"

definition consume_on_success ::
    "(settle_op \<Rightarrow> ('x dworld, unit) mact) \<Rightarrow> (string \<Rightarrow> string \<Rightarrow> bool \<Rightarrow> bool \<Rightarrow> ('x dworld, unit) mact)
       \<Rightarrow> ('x, 'v) dedup \<Rightarrow> ('x dworld, 'v py_result) mact \<Rightarrow> string \<Rightarrow> ('x dworld, 'v py_result) mact" where
  "consume_on_success settle mark_on_ack dd call_next key = act_get (\<lambda>(m, w).
     if local_is_dup dd key w then skip_duplicate settle
     else with_fallback dd (act_snd (dd_exists dd key)) call_next
       (\<lambda>already_seen.
          if already_seen then skip_duplicate settle
          else act_bind call_next (\<lambda>result.
            if result = R_REQUEUED_FOR_RETRY then act_ret result
            else act_bind (mark_on_ack key ''1'' True False) (\<lambda>_. act_ret result))))"

definition dedup_consume_scope :: "('x, 'v) dedup \<Rightarrow> ('x dworld, 'v py_result) mact \<Rightarrow> ('x dworld, 'v py_result) mact" where
  "dedup_consume_scope dd call_next = act_get (\<lambda>(m, w).
     act_bind (act_of (extract_key dd m)) (\<lambda>key.
       case dc_mark_policy (dd_config dd) of
         DM_CLAIM \<Rightarrow> consume_claim_sync dd call_next key
       | DM_ON_START \<Rightarrow> consume_on_start sync_op dd call_next key
       | DM_ON_SUCCESS \<Rightarrow> consume_on_success sync_op (mark_on_ack_sync dd) dd call_next key))"

definition dedup_consume_scope_async :: "('x, 'v) dedup \<Rightarrow> ('x dworld, 'v py_result) mact \<Rightarrow> ('x dworld, 'v py_result) mact" where
  "dedup_consume_scope_async dd call_next = act_get (\<lambda>(m, w).
     act_bind (act_of (extract_key dd m)) (\<lambda>key.
       case dc_mark_policy (dd_config dd) of
         DM_CLAIM \<Rightarrow> consume_claim_async dd call_next key
       | DM_ON_START \<Rightarrow> consume_on_start async_op dd call_next key
       | DM_ON_SUCCESS \<Rightarrow> consume_on_success async_op (mark_on_ack_async dd) dd call_next key))"

text \<open>The middleware as the pipeline calls it; it adds no other hook.\<close>

definition dedup_middleware :: "('x, 'v) dedup \<Rightarrow> ('x dworld, 'v) middleware" where
  "dedup_middleware dd =
     \<lparr>mw_on_receive = act_ret (), mw_on_receive_async = act_ret (),
      mw_consume_scope = dedup_consume_scope dd, mw_consume_scope_async = dedup_consume_scope_async dd,
      mw_publish_scope = (\<lambda>send. send), mw_publish_scope_async = (\<lambda>send. send)\<rparr>"

section \<open>What Redis promises\<close>

text \<open>
  \<open>store x\<close> is what Redis holds in the world \<open>x\<close>: \<^verbatim>\<open>SET\<close> writes, with \<^verbatim>\<open>NX\<close> only a free key, and tells
  whether it wrote; \<^verbatim>\<open>EXISTS\<close> and \<^verbatim>\<open>GET\<close> read; \<^verbatim>\<open>DEL\<close> frees the key.  Expiry is not considered: the
  moments compared lie within the time-to-live.
\<close>

definition redis_ok :: "('x, 'v) dedup \<Rightarrow> ('x \<Rightarrow> string \<Rightarrow> string option) \<Rightarrow> bool" where
  "redis_ok dd store \<longleftrightarrow>
     (\<forall>k v nx ttl x. fst (dd_set dd k v nx ttl x) = Inr (\<not> nx \<or> store x k = None)
        \<and> store (snd (dd_set dd k v nx ttl x)) = (if nx \<and> store x k \<noteq> None then store x else (store x)(k \<mapsto> v)))
     \<and> (\<forall>k x. fst (dd_exists dd k x) = Inr (store x k \<noteq> None) \<and> store (snd (dd_exists dd k x)) = store x)
     \<and> (\<forall>k x. fst (dd_get dd k x) = Inr (case store x k of None \<Rightarrow> PyNone | Some v \<Rightarrow> PyBytes v)
        \<and> store (snd (dd_get dd k x)) = store x)
     \<and> (\<forall>k x. fst (dd_delete dd k x) = Inr () \<and> store (snd (dd_delete dd k x)) = (store x)(k := None))"

lemma redis_calls:
  assumes "redis_ok dd store"
  shows redis_set: "\<exists>x'. dd_set dd k v nx ttl x = (Inr (\<not> nx \<or> store x k = None), x')
        \<and> store x' = (if nx \<and> store x k \<noteq> None then store x else (store x)(k \<mapsto> v))"
    and redis_exists: "\<exists>x'. dd_exists dd k x = (Inr (store x k \<noteq> None), x') \<and> store x' = store x"
    and redis_get: "\<exists>x'. dd_get dd k x = (Inr (case store x k of None \<Rightarrow> PyNone | Some v \<Rightarrow> PyBytes v), x') \<and> store x' = store x"
    and redis_delete: "\<exists>x'. dd_delete dd k x = (Inr (), x') \<and> store x' = (store x)(k := None)"
  using assms unfolding redis_ok_def by (metis prod.collapse)+

text \<open>The state of a key: free, or held by a completed mark, in the cache or in Redis.\<close>

definition unmarked :: "('x, 'v) dedup \<Rightarrow> ('x \<Rightarrow> string \<Rightarrow> string option) \<Rightarrow> string \<Rightarrow> 'x dworld \<Rightarrow> bool" where
  "unmarked dd store k w \<longleftrightarrow> \<not> local_is_dup dd k w \<and> store (snd w) k = None"

definition completed :: "('x, 'v) dedup \<Rightarrow> ('x \<Rightarrow> string \<Rightarrow> string option) \<Rightarrow> string \<Rightarrow> 'x dworld \<Rightarrow> bool" where
  "completed dd store k w \<longleftrightarrow> local_is_dup dd k w \<or> store (snd w) k \<in> {Some ''1'', Some COMPLETED}"

text \<open>A scope skips the handler when what it does is the same whatever the handler; it enters it when
  an exception of the handler, run in some state, comes out of the scope.\<close>

definition skips_handler :: "(('w, 'r) mact \<Rightarrow> ('w, 'r) mact) \<Rightarrow> 'w msg \<times> 'w \<Rightarrow> bool" where
  "skips_handler scope s \<longleftrightarrow> (\<exists>out. \<forall>h. scope h s = out)"

definition enters_handler :: "(('w, 'r) mact \<Rightarrow> ('w, 'r) mact) \<Rightarrow> 'w msg \<times> 'w \<Rightarrow> bool" where
  "enters_handler scope s \<longleftrightarrow>
     (\<exists>s'. \<forall>h e t. \<not> isinstance e [''CancelledError''] \<longrightarrow> h s' = (Inl e, t) \<longrightarrow> fst (scope h s) = Inl e)"

lemma with_fallback_snd:
  "with_fallback dd (act_snd f) fb cont (m, (c, x)) =
     (case f x of (Inr a, x') \<Rightarrow> cont a (m, (c, x'))
      | (Inl e, x') \<Rightarrow> with_fallback dd (\<lambda>_. (Inl e, (c, x'))) fb cont (m, (c, x)))"
  by (simp add: with_fallback_def except_exception_def act_simps act_defs act_snd_def split: prod.split sum.split)

lemma cleanup_run:
  assumes "redis_ok dd store"
  obtains w' where "cleanup_key_after_non_success dd k w = (Inr (), w')" "store (snd w') = (store (snd w))(k := None)"
    "\<not> local_is_dup dd k w'"
proof -
  obtain x' where "dd_delete dd k (snd w) = (Inr (), x')" "store x' = (store (snd w))(k := None)"
    using redis_delete [OF assms] by blast
  then show ?thesis
    by (intro that [of "local_remove dd k (fst w, x')"])
      (cases w, auto simp: cleanup_key_after_non_success_def except_exception_def act_defs act_snd_def local_remove_def local_is_dup_def)
qed

lemma local_mark_dup: "dc_local_cache_size (dd_config dd) > 0 \<Longrightarrow> local_is_dup dd k (local_mark dd k w)"
  by (cases "filter (\<lambda>x. x \<noteq> k) (fst w)") (auto simp: local_mark_def local_is_dup_def Let_def)

lemma write_mark_run:
  assumes "redis_ok dd store" and "nx \<longrightarrow> store (snd w) k = None" and "v \<in> {''1'', COMPLETED}"
  obtains w' where "write_mark dd k v m nx w = (Inr (), w')" "completed dd store k w'"
proof -
  obtain x' where x': "dd_set dd k v nx (dc_ttl (dd_config dd)) (snd w) = (Inr (\<not> nx \<or> store (snd w) k = None), x')"
      "store x' = (store (snd w))(k \<mapsto> v)"
    using redis_set [OF assms(1), where k = k and v = v and nx = nx and ttl = "dc_ttl (dd_config dd)" and x = "snd w"] assms(2) by auto
  have "snd (local_mark dd k (fst w, x')) = x'" by (simp add: local_mark_def Let_def)
  with x' assms(3) show ?thesis
    by (intro that [of "local_mark dd k (fst w, x')"])
      (cases w, auto simp: write_mark_def except_exception_def act_defs act_snd_def completed_def)
qed

lemma plain_marks:
  "bytes_decode dd ''1'' = Inr ''1''" "bytes_decode dd COMPLETED = Inr COMPLETED" "bytes_decode dd IN_FLIGHT = Inr IN_FLIGHT"
  "''1'' \<noteq> IN_FLIGHT" "COMPLETED \<noteq> IN_FLIGHT" "\<not> startswith ''1'' ''{''" "\<not> startswith COMPLETED ''{''"
  by (simp_all add: bytes_decode_def COMPLETED_def IN_FLIGHT_def startswith_def)

lemma plain_marks_skip:
  assumes "v \<in> {''1'', COMPLETED}"
  shows "taken_key settle dd (PyBytes v) = skip_duplicate settle"
proof -
  have "decode_stored_result dd (PyBytes v) = Inr None" "is_in_flight dd (PyBytes v) = Inr False"
    using assms by (auto simp: decode_stored_result_def is_in_flight_def decode_text_def plain_marks)
  then show ?thesis by (simp add: taken_key_def)
qed

section \<open>Duplicates are skipped, new messages reach the handler\<close>

lemma get_run: "act_get f s = f s s"
  by (simp add: act_get_def)

lemma claim_skips:
  assumes "redis_ok dd store" and "completed dd store k w"
  shows "\<exists>w'. \<forall>h. consume_claim settle moa oe dd h k (m, w) = skip_duplicate settle (m, w')"
proof (cases "local_is_dup dd k w")
  case False
  with assms(2) obtain v where v: "store (snd w) k = Some v" "v \<in> {''1'', COMPLETED}" by (auto simp: completed_def)
  obtain x1 where x1: "dd_set dd k IN_FLIGHT True (dc_processing_timeout (dd_config dd)) (snd w) = (Inr False, x1)" "store x1 = store (snd w)"
    using redis_set [OF assms(1), where k = k and v = IN_FLIGHT and nx = True and x = "snd w"] v by auto
  obtain x2 where x2: "dd_get dd k x1 = (Inr (PyBytes v), x2)"
    using redis_get [OF assms(1), where k = k and x = x1] v x1 by auto
  have "consume_claim settle moa oe dd h k (m, w) = skip_duplicate settle (m, (fst w, x2))" for h
    using False x1 x2 by (cases w) (simp add: consume_claim_def get_run with_fallback_snd plain_marks_skip [OF v(2)])
  then show ?thesis by blast
qed (cases w, auto simp: consume_claim_def get_run)

lemma on_success_skips:
  assumes "redis_ok dd store" and "completed dd store k w"
  shows "\<exists>w'. \<forall>h. consume_on_success settle moa dd h k (m, w) = skip_duplicate settle (m, w')"
proof (cases "local_is_dup dd k w")
  case False
  with assms(2) have "store (snd w) k \<noteq> None" by (auto simp: completed_def)
  then obtain x1 where x1: "dd_exists dd k (snd w) = (Inr True, x1)"
    using redis_exists [OF assms(1), where k = k and x = "snd w"] by auto
  have "consume_on_success settle moa dd h k (m, w) = skip_duplicate settle (m, (fst w, x1))" for h
    using False x1 by (cases w) (simp add: consume_on_success_def get_run with_fallback_snd)
  then show ?thesis by blast
qed (cases w, auto simp: consume_on_success_def get_run)

lemma mark_key_run:
  assumes "redis_ok dd store"
  shows "\<exists>w'. mark_key dd k (m, w) = (Inr (\<not> local_is_dup dd k w \<and> store (snd w) k = None), (m, w'))"
proof (cases "local_is_dup dd k w")
  case False
  obtain x1 where x1: "dd_set dd k ''1'' True (dc_ttl (dd_config dd)) (snd w) = (Inr (store (snd w) k = None), x1)"
    using redis_set [OF assms(1), where k = k and v = "''1''" and nx = True and x = "snd w"] by auto
  show ?thesis using False x1
    by (cases w) (simp add: mark_key_def get_run with_fallback_snd act_defs act_snd_run)
qed (cases w, auto simp: mark_key_def get_run act_defs)

lemma on_start_skips:
  assumes "redis_ok dd store" and "completed dd store k w"
  shows "\<exists>w'. \<forall>h. consume_on_start settle dd h k (m, w) = skip_duplicate settle (m, w')"
proof -
  have taken: "(\<not> local_is_dup dd k w \<and> store (snd w) k = None) = False" using assms(2) by (auto simp: completed_def)
  obtain w' where "mark_key dd k (m, w) = (Inr False, (m, w'))"
    using mark_key_run [OF assms(1), of k m w] unfolding taken by blast
  then have "consume_on_start settle dd h k (m, w) = skip_duplicate settle (m, w')" for h
    by (simp add: consume_on_start_def act_bind_def)
  then show ?thesis by blast
qed

lemma scope_async_run:
  assumes "extract_key dd m = Inr k"
  shows "dedup_consume_scope_async dd h (m, w) =
    (case dc_mark_policy (dd_config dd) of
       DM_CLAIM \<Rightarrow> consume_claim async_op (mark_on_ack_async dd) (claim_error_async dd k) dd h k (m, w)
     | DM_ON_START \<Rightarrow> consume_on_start async_op dd h k (m, w)
     | DM_ON_SUCCESS \<Rightarrow> consume_on_success async_op (mark_on_ack_async dd) dd h k (m, w))"
  by (simp add: dedup_consume_scope_async_def consume_claim_async_def get_run assms split: dedup_mark_policy.split)

lemma scope_sync_run:
  assumes "extract_key dd m = Inr k"
  shows "dedup_consume_scope dd h (m, w) =
    (case dc_mark_policy (dd_config dd) of
       DM_CLAIM \<Rightarrow> consume_claim sync_op (mark_on_ack_sync dd) (claim_error_sync dd k) dd h k (m, w)
     | DM_ON_START \<Rightarrow> consume_on_start sync_op dd h k (m, w)
     | DM_ON_SUCCESS \<Rightarrow> consume_on_success sync_op (mark_on_ack_sync dd) dd h k (m, w))"
  by (simp add: dedup_consume_scope_def consume_claim_sync_def get_run assms split: dedup_mark_policy.split)

lemma scope_skips:
  assumes "redis_ok dd store" and "extract_key dd m = Inr k" and "completed dd store k w"
  shows "\<exists>w'. \<forall>h. dedup_consume_scope_async dd h (m, w) = skip_duplicate async_op (m, w')"
    and "\<exists>w'. \<forall>h. dedup_consume_scope dd h (m, w) = skip_duplicate sync_op (m, w')"
  unfolding scope_async_run [OF assms(2)] scope_sync_run [OF assms(2)]
  using claim_skips [OF assms(1,3)] on_success_skips [OF assms(1,3)] on_start_skips [OF assms(1,3)]
  by (cases "dc_mark_policy (dd_config dd)"; simp only: dedup_mark_policy.case)+

lemma claim_enters:
  assumes "redis_ok dd store" and "unmarked dd store k w"
  shows "\<exists>x'. store x' = (store (snd w))(k \<mapsto> IN_FLIGHT) \<and>
    (\<forall>h. consume_claim settle moa oe dd h k (m, w) =
       act_bind (act_try h (\<lambda>e. act_bind (act_snd (oe e)) (\<lambda>_. act_raise e)))
         (\<lambda>result. if result = R_REQUEUED_FOR_RETRY
            then act_bind (act_snd (cleanup_key_after_non_success dd k)) (\<lambda>_. act_ret result)
            else complete_claim moa dd k result) (m, (fst w, x')))"
proof -
  obtain x1 where x1: "dd_set dd k IN_FLIGHT True (dc_processing_timeout (dd_config dd)) (snd w) = (Inr True, x1)"
      "store x1 = (store (snd w))(k \<mapsto> IN_FLIGHT)"
    using redis_set [OF assms(1), where k = k and v = IN_FLIGHT and nx = True and x = "snd w"] assms(2) by (auto simp: unmarked_def)
  show ?thesis
    by (rule exI [of _ x1])
      (use assms(2) x1 in \<open>cases w, simp add: consume_claim_def get_run with_fallback_snd unmarked_def\<close>)
qed

lemma on_success_enters:
  assumes "redis_ok dd store" and "unmarked dd store k w"
  shows "\<exists>x'. store x' = store (snd w) \<and>
    (\<forall>h. consume_on_success settle moa dd h k (m, w) =
       act_bind h (\<lambda>result. if result = R_REQUEUED_FOR_RETRY then act_ret result
         else act_bind (moa k ''1'' True False) (\<lambda>_. act_ret result)) (m, (fst w, x')))"
proof -
  obtain x1 where x1: "dd_exists dd k (snd w) = (Inr False, x1)" "store x1 = store (snd w)"
    using redis_exists [OF assms(1), where k = k and x = "snd w"] assms(2) by (auto simp: unmarked_def)
  show ?thesis
    by (rule exI [of _ x1])
      (use assms(2) x1 in \<open>cases w, simp add: consume_on_success_def get_run with_fallback_snd unmarked_def\<close>)
qed

lemma on_start_enters:
  assumes "redis_ok dd store" and "unmarked dd store k w"
  shows "\<exists>w'. \<forall>h. consume_on_start settle dd h k (m, w) =
       act_bind h (\<lambda>result.
         act_bind (if result = R_REQUEUED_FOR_RETRY then act_snd (cleanup_key_after_non_success dd k) else act_ret ())
           (\<lambda>_. act_ret result)) (m, w')"
proof -
  have free: "(\<not> local_is_dup dd k w \<and> store (snd w) k = None) = True" using assms(2) by (simp add: unmarked_def)
  obtain w' where "mark_key dd k (m, w) = (Inr True, (m, w'))"
    using mark_key_run [OF assms(1), of k m w] unfolding free by blast
  then show ?thesis by (intro exI [of _ w']) (simp add: consume_on_start_def act_bind_def)
qed

lemma claim_error_run:
  assumes "redis_ok dd store" and "\<not> isinstance e [''CancelledError'']"
  shows "fst (claim_error_async dd k e w) = Inr () \<and> fst (claim_error_sync dd k e w) = Inr ()"
proof -
  obtain w' where "cleanup_key_after_non_success dd k w = (Inr (), w')" by (rule cleanup_run [OF assms(1)])
  then show ?thesis using assms(2) by (simp add: claim_error_async_def claim_error_sync_def act_ret_def)
qed

lemma bind_raises: "h s = (Inl e, t) \<Longrightarrow> fst (act_bind h f s) = Inl e"
  by (simp add: act_bind_def)

lemma try_raises:
  "h s = (Inl e, (m, w)) \<Longrightarrow> fst (g e w) = Inr () \<Longrightarrow>
   fst (act_bind (act_try h (\<lambda>e. act_bind (act_snd (g e)) (\<lambda>_. act_raise e))) f s) = Inl e"
  by (cases "g e w") (simp add: act_defs act_snd_def)

lemma enters_handlerI:
  "(\<And>h e t. \<not> isinstance e [''CancelledError''] \<Longrightarrow> h s' = (Inl e, t) \<Longrightarrow> fst (scope h s) = Inl e) \<Longrightarrow>
   enters_handler scope s"
  unfolding enters_handler_def by blast

lemma scope_enters:
  fixes dd :: "('x, 'v) dedup"
  assumes "redis_ok dd store" and "extract_key dd m = Inr k" and "unmarked dd store k w"
  shows "enters_handler (dedup_consume_scope_async dd) (m, w)"
proof (cases "dc_mark_policy (dd_config dd)")
  case DM_ON_SUCCESS
  from on_success_enters [OF assms(1,3), of async_op "mark_on_ack_async dd" m] show ?thesis
  proof (elim exE conjE, goal_cases)
    case (1 x')
    show ?case
      by (rule enters_handlerI)
        (simp only: scope_async_run [OF assms(2)] DM_ON_SUCCESS dedup_mark_policy.case 1(2), rule bind_raises)
  qed
next
  case DM_ON_START
  from on_start_enters [OF assms(1,3), of async_op m] show ?thesis
  proof (elim exE, goal_cases)
    case (1 w')
    show ?case
      by (rule enters_handlerI)
        (simp only: scope_async_run [OF assms(2)] DM_ON_START dedup_mark_policy.case 1, rule bind_raises)
  qed
next
  case DM_CLAIM
  from claim_enters [OF assms(1,3), of async_op "mark_on_ack_async dd" "claim_error_async dd k" m] show ?thesis
  proof (elim exE conjE, goal_cases)
    case (1 x')
    show ?case
    proof (rule enters_handlerI)
      fix h :: "('x dworld, 'v py_result) mact" and e t
      assume e: "\<not> isinstance e [''CancelledError'']" and "h (m, (fst w, x')) = (Inl e, t)"
      then have "h (m, (fst w, x')) = (Inl e, (fst t, snd t))" by simp
      then show "fst (dedup_consume_scope_async dd h (m, w)) = Inl e"
        unfolding scope_async_run [OF assms(2)] DM_CLAIM dedup_mark_policy.case 1(2) [rule_format]
        by (rule try_raises) (use claim_error_run [OF assms(1) e] in blast)
    qed
  qed
qed

section \<open>Marks follow the settlement\<close>

definition keeps_marks :: "('x \<Rightarrow> string \<Rightarrow> string option) \<Rightarrow> ('x, 'a) dact \<Rightarrow> bool" where
  "keeps_marks store f \<longleftrightarrow> (\<forall>w. fst (snd (f w)) = fst w \<and> store (snd (snd (f w))) = store (snd w))"

text \<open>A delivery whose three settlement calls do not touch the marks, and a handler that returns without
  settling the message or touching the marks.\<close>

definition plain_channel :: "('x \<Rightarrow> string \<Rightarrow> string option) \<Rightarrow> 'x dworld msg \<Rightarrow> bool" where
  "plain_channel store m \<longleftrightarrow>
     (\<exists>ack nack reject. m_ack_async_fn m = Some ack \<and> m_nack_async_fn m = Some nack \<and> m_reject_async_fn m = Some reject
        \<and> keeps_marks store ack \<and> (\<forall>b. keeps_marks store (nack b) \<and> keeps_marks store (reject b)))"

definition plain_handler :: "('x \<Rightarrow> string \<Rightarrow> string option) \<Rightarrow> ('x dworld, 'v py_result) mact \<Rightarrow> 'x dworld msg \<Rightarrow> bool" where
  "plain_handler store h m \<longleftrightarrow>
     (\<forall>w. \<exists>r m' w'. h (m, w) = (Inr r, (m', w')) \<and> r \<noteq> R_REQUEUED_FOR_RETRY \<and> m_disposition m' = m_disposition m
        \<and> m_ack_async_fn m' = m_ack_async_fn m \<and> m_nack_async_fn m' = m_nack_async_fn m
        \<and> m_reject_async_fn m' = m_reject_async_fn m \<and> fst w' = fst w \<and> store (snd w') = store (snd w))"

fun settle_call :: "settle_op \<Rightarrow> 'w msg \<Rightarrow> 'w settle_fn option" where
  "settle_call Op_ack m = m_ack_async_fn m"
| "settle_call (Op_nack b) m = map_option (\<lambda>f. f b) (m_nack_async_fn m)"
| "settle_call (Op_reject b) m = map_option (\<lambda>f. f b) (m_reject_async_fn m)"

lemma async_op_run:
  assumes "m_disposition m = DP_PENDING" and "settle_call op m = Some f" and "async_op op (m, w) = (Inr (), (m1, w1))"
  shows "f w = (Inr (), w1)"
  using assms
  by (cases op; cases "f w")
    (auto simp: async_op.simps msg_ack_async_def msg_nack_async_def msg_reject_async_def settle_async_def settle_claim_def
      split: sum.splits)

lemma unmarked_cong: "fst w' = fst w \<Longrightarrow> store (snd w') = store (snd w) \<Longrightarrow> unmarked dd store k w' = unmarked dd store k w"
  by (simp add: unmarked_def local_is_dup_def)

lemma plain_call:
  assumes "plain_channel store m" and "settle_call op m = Some f"
  shows "keeps_marks store f"
  using assms by (cases op) (auto simp: plain_channel_def)

lemma keeps_marks_run: "keeps_marks store f \<Longrightarrow> f w = (r, w') \<Longrightarrow> fst w' = fst w \<and> store (snd w') = store (snd w)"
  unfolding keeps_marks_def by (metis snd_conv)

lemma completed_cong: "fst w' = fst w \<Longrightarrow> store (snd w') = store (snd w) \<Longrightarrow> completed dd store k w' = completed dd store k w"
  by (simp add: completed_def local_is_dup_def)

lemma acked_after_mark:
  assumes "redis_ok dd store" and "keeps_marks store ack" and "nx \<longrightarrow> store (snd w) k = None" and "v \<in> {''1'', COMPLETED}"
    and "ack_after_mark (write_mark dd k v m nx) ack w = (Inr (), w1)"
  shows "completed dd store k w1"
proof -
  obtain w' where w': "write_mark dd k v m nx w = (Inr (), w')" "completed dd store k w'"
    by (rule write_mark_run [OF assms(1,3,4)])
  then have "ack w' = (Inr (), w1)" using assms(5) by (simp add: ack_after_mark_def act_bind_def)
  then show ?thesis using keeps_marks_run [OF assms(2)] completed_cong w'(2) by metis
qed

lemma released_after:
  assumes "redis_ok dd store" and "release_after dd k settle b w = (Inr (), w1)"
  shows "unmarked dd store k w1"
proof -
  obtain r w2 where "settle b w = (r, w2)" by (cases "settle b w")
  moreover obtain w3 where "cleanup_key_after_non_success dd k w2 = (Inr (), w3)" "store (snd w3) = (store (snd w2))(k := None)"
      "\<not> local_is_dup dd k w3"
    by (rule cleanup_run [OF assms(1)])
  ultimately show ?thesis using assms(2) by (auto simp: release_after_def act_ensure_def unmarked_def)
qed

text \<open>The message after the handler, with its settlement calls wrapped.\<close>

definition wrapped :: "('x, 'v) dedup \<Rightarrow> string \<Rightarrow> 'x dworld msg \<Rightarrow> 'x dworld msg" where
  "wrapped dd k m =
     (let claim = (dc_mark_policy (dd_config dd) = DM_CLAIM);
          mark = write_mark dd k (if claim then COMPLETED else ''1'') m (\<not> claim);
          m1 = m\<lparr>m_ack_async_fn := map_option (ack_after_mark mark) (m_ack_async_fn m)\<rparr>
      in if claim then release_claim_on_failure_async dd k m1 else m1)"

lemma scope_wraps:
  assumes "redis_ok dd store" and "dc_mark_policy (dd_config dd) \<noteq> DM_ON_START" and "\<not> dc_store_results (dd_config dd)"
    and "extract_key dd m = Inr k" and "m_disposition m = DP_PENDING" and "plain_channel store m" and "plain_handler store h m"
    and "unmarked dd store k w"
  shows "\<exists>r m2 w2. dedup_consume_scope_async dd h (m, w) = (Inr r, (wrapped dd k m2, w2)) \<and> m_disposition m2 = DP_PENDING
    \<and> plain_channel store m2 \<and> \<not> local_is_dup dd k w2
    \<and> (dc_mark_policy (dd_config dd) = DM_CLAIM \<or> store (snd w2) k = None)"
proof (cases "dc_mark_policy (dd_config dd)")
  case DM_ON_SUCCESS
  from on_success_enters [OF assms(1,8), of async_op "mark_on_ack_async dd" m] show ?thesis
  proof (elim exE conjE, goal_cases)
    case (1 x')
    obtain r m2 w2 where h: "h (m, (fst w, x')) = (Inr r, (m2, w2))" "r \<noteq> R_REQUEUED_FOR_RETRY"
        "m_disposition m2 = m_disposition m" "m_ack_async_fn m2 = m_ack_async_fn m" "m_nack_async_fn m2 = m_nack_async_fn m"
        "m_reject_async_fn m2 = m_reject_async_fn m" "fst w2 = fst w" "store (snd w2) = store x'"
      using assms(7) unfolding plain_handler_def by (metis fst_conv snd_conv)
    obtain ack where ack: "m_ack_async_fn m = Some ack" using assms(6) by (auto simp: plain_channel_def)
    have "dedup_consume_scope_async dd h (m, w) = (Inr r, (wrapped dd k m2, w2))"
      unfolding scope_async_run [OF assms(4)] DM_ON_SUCCESS dedup_mark_policy.case 1(2) [rule_format]
      using h ack assms(5) DM_ON_SUCCESS
      by (simp add: act_bind_def mark_on_ack_async_def is_settled_def wrapped_def act_ret_def)
    moreover have "plain_channel store m2" using assms(6) h by (simp add: plain_channel_def)
    moreover have "unmarked dd store k w2" using assms(8) h 1(1) by (simp add: unmarked_cong [of w2 w])
    ultimately show ?case using h assms(5) by (auto simp: unmarked_def)
  qed
next
  case DM_CLAIM
  from claim_enters [OF assms(1,8), of async_op "mark_on_ack_async dd" "claim_error_async dd k" m] show ?thesis
  proof (elim exE conjE, goal_cases)
    case (1 x')
    obtain r m2 w2 where h: "h (m, (fst w, x')) = (Inr r, (m2, w2))" "r \<noteq> R_REQUEUED_FOR_RETRY"
        "m_disposition m2 = m_disposition m" "m_ack_async_fn m2 = m_ack_async_fn m" "m_nack_async_fn m2 = m_nack_async_fn m"
        "m_reject_async_fn m2 = m_reject_async_fn m" "fst w2 = fst w" "store (snd w2) = store x'"
      using assms(7) unfolding plain_handler_def by (metis fst_conv snd_conv)
    obtain ack where ack: "m_ack_async_fn m = Some ack" using assms(6) by (auto simp: plain_channel_def)
    have "dedup_consume_scope_async dd h (m, w) = (Inr r, (wrapped dd k m2, w2))"
      unfolding scope_async_run [OF assms(4)] DM_CLAIM dedup_mark_policy.case 1(2) [rule_format]
      using h ack assms(5,3) DM_CLAIM
      by (simp add: act_bind_def act_try_def mark_on_ack_async_def is_settled_def wrapped_def act_ret_def complete_claim_def
        completed_value_def act_of_def)
    moreover have "plain_channel store m2" using assms(6) h by (simp add: plain_channel_def)
    moreover have "\<not> local_is_dup dd k w2" using assms(8) h by (simp add: unmarked_def local_is_dup_def)
    ultimately show ?case using h assms(5) DM_CLAIM by auto
  qed
qed (use assms(2) in simp)

lemma settled_marks:
  assumes "redis_ok dd store" and "dc_mark_policy (dd_config dd) \<noteq> DM_ON_START"
    and "m_disposition m2 = DP_PENDING" and "plain_channel store m2" and "\<not> local_is_dup dd k w2"
    and "dc_mark_policy (dd_config dd) = DM_CLAIM \<or> store (snd w2) k = None"
    and "async_op op (wrapped dd k m2, w2) = (Inr (), (m1, w1))"
  shows "if op = Op_ack then completed dd store k w1 else unmarked dd store k w1"
proof -
  let ?claim = "dc_mark_policy (dd_config dd) = DM_CLAIM"
  let ?mark = "write_mark dd k (if ?claim then COMPLETED else ''1'') m2 (\<not> ?claim)"
  obtain ack nack reject where fns: "m_ack_async_fn m2 = Some ack" "m_nack_async_fn m2 = Some nack" "m_reject_async_fn m2 = Some reject"
      "keeps_marks store ack" "\<And>b. keeps_marks store (nack b)" "\<And>b. keeps_marks store (reject b)"
    using assms(4) by (auto simp: plain_channel_def)
  have pending: "m_disposition (wrapped dd k m2) = DP_PENDING"
    using assms(3) by (simp add: wrapped_def release_claim_on_failure_async_def Let_def)
  have calls: "settle_call Op_ack (wrapped dd k m2) = Some (ack_after_mark ?mark ack)"
    "settle_call (Op_nack b) (wrapped dd k m2) = Some (if ?claim then release_after dd k nack b else nack b)"
    "settle_call (Op_reject b) (wrapped dd k m2) = Some (if ?claim then release_after dd k reject b else reject b)" for b
    using fns by (simp_all add: wrapped_def release_claim_on_failure_async_def Let_def)
  have plain: "unmarked dd store k w1" if "keeps_marks store f" and "f w2 = (Inr (), w1)" and "\<not> ?claim" for f
    using keeps_marks_run [OF that(1,2)] assms(5,6) that(3) by (simp add: unmarked_def local_is_dup_def)
  show ?thesis
  proof (cases op)
    case Op_ack
    then have "ack_after_mark ?mark ack w2 = (Inr (), w1)" using async_op_run [OF pending calls(1)] assms(7) by simp
    from acked_after_mark [OF assms(1) fns(4) _ _ this] assms(6) Op_ack show ?thesis by auto
  next
    case (Op_nack b)
    then have "(if ?claim then release_after dd k nack b else nack b) w2 = (Inr (), w1)"
      using async_op_run [OF pending calls(2)] assms(7) by simp
    then show ?thesis using Op_nack released_after [OF assms(1), of k nack b w2 w1] plain [OF fns(5), of b]
      by (simp split: if_splits)
  next
    case (Op_reject b)
    then have "(if ?claim then release_after dd k reject b else reject b) w2 = (Inr (), w1)"
      using async_op_run [OF pending calls(3)] assms(7) by simp
    then show ?thesis using Op_reject released_after [OF assms(1), of k reject b w2 w1] plain [OF fns(6), of b]
      by (simp split: if_splits)
  qed
qed


section \<open>Concurrent duplicates and Redis outages\<close>

lemma in_flight_taken: "taken_key settle dd (PyBytes IN_FLIGHT) = act_bind (handle_in_flight_duplicate settle dd) (\<lambda>_. act_ret R_NONE)"
  by (simp add: taken_key_def is_in_flight_def plain_marks)

lemma claimed_key_run:
  assumes "redis_ok dd store" and "store (snd w) k = Some IN_FLIGHT" and "\<not> local_is_dup dd k w"
  shows "\<exists>x'. store x' = store (snd w) \<and> (\<forall>h. consume_claim settle moa oe dd h k (m, w) =
    act_bind (handle_in_flight_duplicate settle dd) (\<lambda>_. act_ret R_NONE) (m, (fst w, x')))"
proof -
  obtain x1 where x1: "dd_set dd k IN_FLIGHT True (dc_processing_timeout (dd_config dd)) (snd w) = (Inr False, x1)" "store x1 = store (snd w)"
    using redis_set [OF assms(1), where k = k and v = IN_FLIGHT and nx = True and x = "snd w"] assms(2) by auto
  obtain x2 where x2: "dd_get dd k x1 = (Inr (PyBytes IN_FLIGHT), x2)" "store x2 = store (snd w)"
    using redis_get [OF assms(1), where k = k and x = x1] assms(2) x1 by auto
  show ?thesis
    by (rule exI [of _ x2])
      (use assms(3) x1 x2 in \<open>cases w, simp add: consume_claim_def get_run with_fallback_snd in_flight_taken\<close>)
qed

lemma requeue_run:
  assumes "dc_on_in_flight (dd_config dd) \<noteq> ''ack_skip''" and "m_disposition m = DP_PENDING"
    and "\<And>d x. fst (dd_sleep dd d x) = Inr ()"
  shows "\<exists>w'. act_bind (handle_in_flight_duplicate settle dd) (\<lambda>_. act_ret R_NONE) (m, w) =
    act_bind (settle (Op_nack True)) (\<lambda>_. act_ret R_NONE) (m, w')"
proof (cases "dc_in_flight_requeue_delay (dd_config dd) > 0")
  case True
  define x' where "x' = snd (dd_sleep dd (dc_in_flight_requeue_delay (dd_config dd)) (snd w))"
  have "dd_sleep dd (dc_in_flight_requeue_delay (dd_config dd)) (snd w) = (Inr (), x')"
    using assms(3) by (simp add: x'_def prod_eq_iff)
  then show ?thesis using True assms(1,2)
    by (intro exI [of _ "(fst w, x')"])
      (cases w, simp add: handle_in_flight_duplicate_def act_bind_def act_snd_run act_when_def is_settled_def)
next
  case False
  then show ?thesis using assms(1,2)
    by (intro exI [of _ w]) (cases w, simp add: handle_in_flight_duplicate_def act_bind_def act_ret_def act_when_def is_settled_def)
qed

text \<open>Redis is down: every call raises an \<^verbatim>\<open>Exception\<close> and changes nothing.\<close>

definition redis_down :: "('x, 'v) dedup \<Rightarrow> py_exc \<Rightarrow> bool" where
  "redis_down dd e \<longleftrightarrow> is_exception e
     \<and> (\<forall>k v nx ttl x. dd_set dd k v nx ttl x = (Inl e, x)) \<and> (\<forall>k x. dd_exists dd k x = (Inl e, x))
     \<and> (\<forall>k x. dd_get dd k x = (Inl e, x)) \<and> (\<forall>k x. dd_delete dd k x = (Inl e, x))"

lemma with_fallback_down:
  assumes "f x = (Inl e, x)" and "is_exception e"
  shows "with_fallback dd (act_snd f) fb cont (m, (c, x)) =
    (if dc_fallback_on_redis_error (dd_config dd)
     then act_bind (act_snd (record_fallback dd m)) (\<lambda>_. fb) (m, (c, x)) else (Inl e, (m, (c, x))))"
  using assms
  by (simp add: with_fallback_def except_exception_def act_defs act_simps act_snd_run split: prod.split sum.split)

lemma with_fallback_outage:
  assumes "f x = (Inl e, x)" and "is_exception e" and "dd_inc_counter dd = None"
  shows "with_fallback dd (act_snd f) fb cont (m, (c, x)) =
    (if dc_fallback_on_redis_error (dd_config dd) then fb (m, (c, x)) else (Inl e, (m, (c, x))))"
  using with_fallback_down [of f x e dd fb cont m c] assms by (simp add: record_fallback_def act_bind_def act_snd_run act_ret_def)

lemma outage_claim:
  assumes "redis_down dd e" and "\<not> local_is_dup dd k w" and "dd_inc_counter dd = None"
  shows "consume_claim settle moa oe dd h k (m, w) =
    (if dc_fallback_on_redis_error (dd_config dd) then h (m, w) else (Inl e, (m, w)))"
  using assms by (cases w) (simp add: consume_claim_def get_run with_fallback_outage redis_down_def)

lemma outage_on_success:
  assumes "redis_down dd e" and "\<not> local_is_dup dd k w" and "dd_inc_counter dd = None"
  shows "consume_on_success settle moa dd h k (m, w) =
    (if dc_fallback_on_redis_error (dd_config dd) then h (m, w) else (Inl e, (m, w)))"
  using assms by (cases w) (simp add: consume_on_success_def get_run with_fallback_outage redis_down_def)

lemma outage_on_start:
  assumes "redis_down dd e" and "\<not> local_is_dup dd k w" and "dd_inc_counter dd = None"
    and "\<And>s. fst (h s) \<noteq> Inr R_REQUEUED_FOR_RETRY"
  shows "consume_on_start settle dd h k (m, w) =
    (if dc_fallback_on_redis_error (dd_config dd) then h (m, w) else (Inl e, (m, w)))"
proof -
  have mark: "mark_key dd k (m, w) = (if dc_fallback_on_redis_error (dd_config dd) then (Inr True, (m, w)) else (Inl e, (m, w)))"
    using assms(1-3) by (cases w) (simp add: mark_key_def get_run with_fallback_outage redis_down_def act_ret_def)
  obtain r s where h: "h (m, w) = (r, s)" by (cases "h (m, w)")
  then have "r \<noteq> Inr R_REQUEUED_FOR_RETRY" using assms(4) [of "(m, w)"] by simp
  then show ?thesis using mark h by (cases r) (simp_all add: consume_on_start_def act_bind_def act_ret_def)
qed

section \<open>Properties\<close>


text \<open>C25: the \<open>claim\<close> policy keeps a concurrent duplicate away from the handler without losing it: while the
  key of a message is claimed by another consumer, both scopes skip the handler, and with the default
  \<open>on_in_flight\<close> they do nothing but requeue the duplicate, after the configured pause.
\<close>

theorem claim_requeues_concurrent_duplicate:
  assumes "redis_ok dd store" and "dc_mark_policy (dd_config dd) = DM_CLAIM" and "dc_on_in_flight (dd_config dd) = ''nack_requeue''"
    and "extract_key dd m = Inr k" and "m_disposition m = DP_PENDING"
    and "store (snd w) k = Some IN_FLIGHT" and "\<not> local_is_dup dd k w" and "\<And>d x. fst (dd_sleep dd d x) = Inr ()"
  shows "(\<exists>w'. \<forall>h. dedup_consume_scope dd h (m, w) = act_bind (msg_nack True) (\<lambda>_. act_ret R_NONE) (m, w'))
    \<and> (\<exists>w'. \<forall>h. dedup_consume_scope_async dd h (m, w) = act_bind (msg_nack_async True) (\<lambda>_. act_ret R_NONE) (m, w'))"
proof -
  have other: "dc_on_in_flight (dd_config dd) \<noteq> ''ack_skip''" using assms(3) by simp
  have "\<exists>w'. \<forall>h. consume_claim settle moa oe dd h k (m, w) = act_bind (settle (Op_nack True)) (\<lambda>_. act_ret R_NONE) (m, w')"
    for settle moa oe
    using claimed_key_run [OF assms(1,6,7), of settle moa oe m] requeue_run [OF other assms(5,8), of settle] by metis
  then show ?thesis
    unfolding scope_async_run [OF assms(4)] scope_sync_run [OF assms(4)] assms(2) dedup_mark_policy.case
    by (metis async_op.simps(2) sync_op.simps(2))
qed

text \<open>C30: a Redis outage is handled as configured, under every policy, for a key that is not in the local
  cache.  With \<^verbatim>\<open>fallback_on_redis_error\<close> and no metrics collector the scope does exactly what the
  handler does (one that is not itself requeued for retry); without the fallback the Redis error is
  raised, the handler does not run and neither the message nor the world is touched.
\<close>

theorem dedup_redis_outage:
  assumes "redis_down dd e" and "extract_key dd m = Inr k" and "\<not> local_is_dup dd k w" and "dd_inc_counter dd = None"
    and "\<And>s. fst (h s) \<noteq> Inr R_REQUEUED_FOR_RETRY"
  shows "dedup_consume_scope dd h (m, w) = (if dc_fallback_on_redis_error (dd_config dd) then h (m, w) else (Inl e, (m, w)))
    \<and> dedup_consume_scope_async dd h (m, w) = (if dc_fallback_on_redis_error (dd_config dd) then h (m, w) else (Inl e, (m, w)))"
  unfolding scope_async_run [OF assms(2)] scope_sync_run [OF assms(2)]
  using outage_claim [OF assms(1,3,4)] outage_on_success [OF assms(1,3,4)] outage_on_start [OF assms(1,3,4,5)]
  by (cases "dc_mark_policy (dd_config dd)") (simp_all only: dedup_mark_policy.case)

section \<open>Examples\<close>

text \<open>A Redis that is a map, and a delivery whose settlement calls succeed.\<close>

definition example_dedup :: "dedup_mark_policy \<Rightarrow> (string \<Rightarrow> string option, unit) dedup" where
  "example_dedup policy =
     \<lparr>dd_config = \<lparr>dc_key_prefix = ''dedup'', dc_ttl = 86400, dc_fallback_on_redis_error = True, dc_key_source = ''message_id'',
        dc_mark_policy = policy, dc_local_cache_size = 0, dc_processing_timeout = 300, dc_store_results = False,
        dc_max_result_bytes = 65536, dc_on_in_flight = ''nack_requeue'', dc_in_flight_requeue_delay = 1 / 2,
        dc_namespace_by_queue = True\<rparr>,
      dd_rt = example_runtime, dd_key_fn = None,
      dd_set = (\<lambda>k v nx ttl x. if nx \<and> x k \<noteq> None then (Inr False, x) else (Inr True, x(k \<mapsto> v))),
      dd_exists = (\<lambda>k x. (Inr (x k \<noteq> None), x)),
      dd_get = (\<lambda>k x. (Inr (case x k of None \<Rightarrow> PyNone | Some v \<Rightarrow> PyBytes v), x)),
      dd_delete = (\<lambda>k x. (Inr (), x(k := None))),
      dd_inc_counter = None, dd_sha256_hex = (\<lambda>b. b), dd_json_text = (\<lambda>_. Inr ''null''), dd_json_loads = (\<lambda>_. Inr PyNone),
      dd_json_obj = (\<lambda>_. ()), dd_decode = Inr, dd_sleep = (\<lambda>_ x. (Inr (), x)), dd_timeout = (\<lambda>_ f. f)\<rparr>"

definition dedup_delivery :: "(string \<Rightarrow> string option) dworld msg" where
  "dedup_delivery = example_msg\<lparr>m_ack_async_fn := Some (\<lambda>w. (Inr (), w)),
     m_nack_async_fn := Some (\<lambda>_ w. (Inr (), w)), m_reject_async_fn := Some (\<lambda>_ w. (Inr (), w))\<rparr>"

lemma example_redis: "redis_ok (example_dedup policy) (\<lambda>x. x)"
  by (simp add: redis_ok_def example_dedup_def)

lemma example_key: "extract_key (example_dedup policy) dedup_delivery = Inr ''dedup:q:id''"
  by (simp add: extract_key_def raw_key_def consuming_queue_def example_dedup_def dedup_delivery_def example_msg_def
    hget_def py_str_def Let_def dict_get_or_def)

lemma example_fields:
  "dc_mark_policy (dd_config (example_dedup policy)) = policy" "\<not> dc_store_results (dd_config (example_dedup policy))"
  "dc_on_in_flight (dd_config (example_dedup policy)) = ''nack_requeue''"
  "\<not> local_is_dup (example_dedup policy) k w"
  "dd_set (example_dedup policy) k v nx ttl x = (if nx \<and> x k \<noteq> None then (Inr False, x) else (Inr True, x(k \<mapsto> v)))"
  "dd_delete (example_dedup policy) k x = (Inr (), x(k := None))"
  "local_remove (example_dedup policy) k w = w"
  by (simp_all add: example_dedup_def local_is_dup_def local_remove_def)

lemma example_channel: "plain_channel (\<lambda>x. x) dedup_delivery" "plain_handler (\<lambda>x. x) (act_ret R_NONE) dedup_delivery"
  by (simp_all add: plain_channel_def keeps_marks_def dedup_delivery_def plain_handler_def act_ret_def)

lemma example_delivery_pending: "m_disposition dedup_delivery = DP_PENDING"
  by (simp add: dedup_delivery_def example_msg_def)

lemma example_free: "unmarked (example_dedup policy) (\<lambda>x. x) k ([], Map.empty)"
  by (simp add: unmarked_def local_is_dup_def example_dedup_def)


theorem claim_requeues_concurrent_duplicate_witness:
  "\<exists>w'. \<forall>h. dedup_consume_scope (example_dedup DM_CLAIM) h (dedup_delivery, ([], [''dedup:q:id'' \<mapsto> IN_FLIGHT]))
      = act_bind (msg_nack True) (\<lambda>_. act_ret R_NONE) (dedup_delivery, w')"
proof (rule conjunct1 [OF claim_requeues_concurrent_duplicate [OF example_redis _ _ example_key example_delivery_pending]])
  show "dc_mark_policy (dd_config (example_dedup DM_CLAIM)) = DM_CLAIM"
    "dc_on_in_flight (dd_config (example_dedup DM_CLAIM)) = ''nack_requeue''"
    "snd ([], [''dedup:q:id'' \<mapsto> IN_FLIGHT]) ''dedup:q:id'' = Some IN_FLIGHT"
    "\<not> local_is_dup (example_dedup DM_CLAIM) ''dedup:q:id'' ([], [''dedup:q:id'' \<mapsto> IN_FLIGHT])"
    "\<And>d x. fst (dd_sleep (example_dedup DM_CLAIM) d x) = Inr ()"
    by (simp_all add: example_dedup_def local_is_dup_def)
qed

definition broken_dedup :: "(string \<Rightarrow> string option, unit) dedup" where
  "broken_dedup = (example_dedup DM_CLAIM)\<lparr>
     dd_config := (dd_config (example_dedup DM_CLAIM))\<lparr>dc_fallback_on_redis_error := False\<rparr>,
     dd_set := (\<lambda>k v nx ttl x. (Inl (value_error ''down''), x)), dd_exists := (\<lambda>k x. (Inl (value_error ''down''), x)),
     dd_get := (\<lambda>k x. (Inl (value_error ''down''), x)), dd_delete := (\<lambda>k x. (Inl (value_error ''down''), x))\<rparr>"

theorem dedup_redis_outage_witness:
  "dedup_consume_scope broken_dedup (act_ret R_NONE) (dedup_delivery, ([], Map.empty))
     = (Inl (value_error ''down''), (dedup_delivery, ([], Map.empty)))"
proof -
  have down: "redis_down broken_dedup (value_error ''down'')"
    by (simp add: redis_down_def broken_dedup_def value_error_def is_exception_def)
  have key: "extract_key broken_dedup dedup_delivery = Inr ''dedup:q:id''"
    by (simp add: extract_key_def raw_key_def consuming_queue_def broken_dedup_def example_dedup_def dedup_delivery_def
      example_msg_def hget_def py_str_def Let_def dict_get_or_def)
  have "\<not> local_is_dup broken_dedup ''dedup:q:id'' ([], Map.empty)" "dd_inc_counter broken_dedup = None"
    "\<not> dc_fallback_on_redis_error (dd_config broken_dedup)"
    by (simp_all add: local_is_dup_def broken_dedup_def example_dedup_def)
  with dedup_redis_outage [OF down key, of "([], Map.empty)" "act_ret R_NONE"] show ?thesis
    by (simp add: act_ret_def)
qed

end
