(* ===== verification/Rk_Streams.thy ===== *)
theory Rk_Streams
  imports Rk_FailureCopy
begin

text \<open>
  RabbitMQ streams (\<^verbatim>\<open>core/streams.py\<close>): start positions, the consumer configuration and the tracker of
  processed offsets.

  The tracker's critical sections are functions on its record; the readings of the clocks are
  arguments.  The wrapped settlement functions and \<^verbatim>\<open>commit\<close> act on the tracker and the world.  A step
  relation then interleaves the broker, any number of handlers and the commit, which releases the
  tracker's lock while the store saves, with reconnects and crashes.
\<close>

section \<open>Start positions and configuration\<close>

datatype stream_offset_type = SO_FIRST | SO_LAST | SO_NEXT | SO_OFFSET | SO_TIMESTAMP

fun so_value :: "stream_offset_type \<Rightarrow> string" where
  "so_value SO_FIRST = ''first''"
| "so_value SO_LAST = ''last''"
| "so_value SO_NEXT = ''next''"
| "so_value SO_OFFSET = ''offset''"
| "so_value SO_TIMESTAMP = ''timestamp''"

definition STREAM_OFFSET_ARG :: string where "STREAM_OFFSET_ARG = ''x-stream-offset''"
definition STREAM_CONSUMER_NAME_ARG :: string where "STREAM_CONSUMER_NAME_ARG = ''x-stream-consumer-name''"
definition RESUBSCRIBE_CLOCK_MARGIN :: real where "RESUBSCRIBE_CLOCK_MARGIN = 5"

record start_position =
  sp_type :: stream_offset_type
  sp_value :: pyval

text \<open>A time is in seconds of UTC, so a naive and an aware \<^verbatim>\<open>datetime\<close> are the same value.\<close>

definition start_position_init :: "stream_offset_type \<Rightarrow> pyval \<Rightarrow> py_exc + start_position" where
  "start_position_init t v =
     (case t of
        SO_OFFSET \<Rightarrow> (case v of
            PyInt i \<Rightarrow> (if i < 0 then Inl (value_error ''Stream offset must be non-negative'') else Inr \<lparr>sp_type = t, sp_value = v\<rparr>)
          | _ \<Rightarrow> Inl (type_error ''An OFFSET stream offset needs an int value''))
      | SO_TIMESTAMP \<Rightarrow> (case v of
            PyTime s \<Rightarrow> Inr \<lparr>sp_type = t, sp_value = v\<rparr>
          | _ \<Rightarrow> Inl (type_error ''A TIMESTAMP stream offset needs a datetime value''))
      | _ \<Rightarrow> (if v \<noteq> PyNone then Inl (value_error ''stream offset takes no value'') else Inr \<lparr>sp_type = t, sp_value = v\<rparr>))"

text \<open>\<^verbatim>\<open>StreamOffset.parse\<close> of a value that is not a \<^verbatim>\<open>StreamOffset\<close> yet.\<close>

definition parse_start :: "pyval \<Rightarrow> py_exc + start_position" where
  "parse_start v =
     (case v of
        PyInt i \<Rightarrow> start_position_init SO_OFFSET v
      | PyTime s \<Rightarrow> start_position_init SO_TIMESTAMP v
      | PyStr s \<Rightarrow>
          (if s = ''first'' then start_position_init SO_FIRST PyNone
           else if s = ''last'' then start_position_init SO_LAST PyNone
           else if s = ''next'' then start_position_init SO_NEXT PyNone
           else Inl (value_error ''Unknown stream offset''))
      | _ \<Rightarrow> Inl (type_error ''Not a stream offset''))"

definition start_arguments :: "start_position \<Rightarrow> headers" where
  "start_arguments sp =
     (if sp_type sp = SO_OFFSET \<or> sp_type sp = SO_TIMESTAMP then [(STREAM_OFFSET_ARG, sp_value sp)]
      else [(STREAM_OFFSET_ARG, PyStr (so_value (sp_type sp)))])"

record stream_config =
  st_offset :: start_position
  st_consumer_name :: "string option"
  st_commit_every :: int
  st_commit_interval :: "real option"

definition stream_config_init :: "stream_config \<Rightarrow> py_exc + stream_config" where
  "stream_config_init c =
     (if st_commit_every c < 1 then Inl (value_error ''commit_every'')
      else if (case st_commit_interval c of Some i \<Rightarrow> \<not> i > 0 | None \<Rightarrow> False) then Inl (value_error ''commit_interval'')
      else case st_consumer_name c of
        None \<Rightarrow> Inr c
      | Some n \<Rightarrow> (if n = '''' then Inl (value_error ''consumer_name must not be empty'')
                   else case validate_amqp_shortstr ''StreamConsumerConfig.consumer_name'' n of Inl e \<Rightarrow> Inl e | Inr _ \<Rightarrow> Inr c))"

definition consume_arguments :: "stream_config \<Rightarrow> headers" where
  "consume_arguments c =
     (case st_consumer_name c of
        None \<Rightarrow> start_arguments (st_offset c)
      | Some n \<Rightarrow> dict_set STREAM_CONSUMER_NAME_ARG (PyStr n) (start_arguments (st_offset c)))"

definition offset_key :: "stream_config \<Rightarrow> string \<Rightarrow> string" where
  "offset_key c q = (case st_consumer_name c of Some n \<Rightarrow> (if n = '''' then q else n) | None \<Rightarrow> q)"

section \<open>The tracker\<close>

record tracker =
  tk_config :: stream_config
  tk_key :: string
  tk_processed :: "int option"
  tk_committed :: "int option"
  tk_pending :: "(int, bool) dict"
  tk_last_tag :: "int option"
  tk_last_offset :: "int option"
  tk_generation :: int
  tk_since_commit :: int
  tk_last_commit_at :: real
  tk_closing :: bool
  tk_subscribed_at :: "real option"
  tk_arguments :: headers
  tk_commit_failures :: int
  tk_failed :: int

text \<open>\<open>stored\<close> is what the store loads under the key of this consumer.\<close>

definition stream_tracker_init :: "real \<Rightarrow> stream_config \<Rightarrow> string \<Rightarrow> int option \<Rightarrow> tracker" where
  "stream_tracker_init now c q stored =
     \<lparr>tk_config = c, tk_key = offset_key c q, tk_processed = stored, tk_committed = stored, tk_pending = [],
      tk_last_tag = None, tk_last_offset = None, tk_generation = 0, tk_since_commit = 0, tk_last_commit_at = now,
      tk_closing = False, tk_subscribed_at = None,
      tk_arguments = (case stored of None \<Rightarrow> consume_arguments c
        | Some n \<Rightarrow> dict_set STREAM_OFFSET_ARG (PyInt (n + 1)) (consume_arguments c)),
      tk_commit_failures = 0, tk_failed = 0\<rparr>"

definition subscribed :: "real \<Rightarrow> tracker \<Rightarrow> tracker" where
  "subscribed wall tk =
     (let first_at = (case tk_subscribed_at tk of None \<Rightarrow> wall | Some t \<Rightarrow> t);
          tk1 = tk\<lparr>tk_closing := False, tk_subscribed_at := Some first_at\<rparr>
      in if tk_processed tk1 = None \<and> sp_type (st_offset (tk_config tk1)) \<in> {SO_NEXT, SO_LAST}
         then tk1\<lparr>tk_arguments := dict_set STREAM_OFFSET_ARG (PyTime (first_at - RESUBSCRIBE_CLOCK_MARGIN)) (tk_arguments tk1)\<rparr>
         else tk1)"

definition begin_shutdown :: "tracker \<Rightarrow> tracker" where
  "begin_shutdown tk = tk\<lparr>tk_closing := True\<rparr>"

definition restarted :: "int option \<Rightarrow> int \<Rightarrow> tracker \<Rightarrow> bool" where
  "restarted tag off tk \<longleftrightarrow>
     (case (tag, tk_last_tag tk) of (Some t, Some l) \<Rightarrow> t \<le> l | _ \<Rightarrow> False)
     \<or> (case tk_last_offset tk of Some l \<Rightarrow> off \<le> l | None \<Rightarrow> False)"

text \<open>The locked part of \<^verbatim>\<open>track\<close>: the generation to hook the delivery with, if it is to be tracked.\<close>

definition track_delivery :: "int option \<Rightarrow> int \<Rightarrow> tracker \<Rightarrow> int option \<times> tracker" where
  "track_delivery tag off tk =
     (let tk1 = (if restarted tag off tk then tk\<lparr>tk_generation := tk_generation tk + 1, tk_pending := []\<rparr> else tk);
          tk2 = tk1\<lparr>tk_last_tag := tag, tk_last_offset := Some off\<rparr>
      in case tk_processed tk2 of
           Some p \<Rightarrow> (if off \<le> p then (None, tk2)
                      else (Some (tk_generation tk2), tk2\<lparr>tk_pending := dict_set off False (tk_pending tk2)\<rparr>))
         | None \<Rightarrow> (Some (tk_generation tk2), tk2\<lparr>tk_pending := dict_set off False (tk_pending tk2)\<rparr>))"

text \<open>The loop of \<^verbatim>\<open>_settled\<close>: the settled deliveries at the front leave the dictionary.\<close>

fun advance :: "(int, bool) dict \<Rightarrow> int option \<Rightarrow> int \<Rightarrow> (int, bool) dict \<times> int option \<times> int" where
  "advance [] p n = ([], p, n)"
| "advance ((first, False) # d) p n = ((first, False) # d, p, n)"
| "advance ((first, True) # d) p n = advance d (Some first) (n + 1)"

definition commit_due :: "real \<Rightarrow> tracker \<Rightarrow> bool" where
  "commit_due now tk \<longleftrightarrow> tk_since_commit tk \<ge> st_commit_every (tk_config tk)
     \<or> (case st_commit_interval (tk_config tk) of None \<Rightarrow> False | Some i \<Rightarrow> now - tk_last_commit_at tk \<ge> i)"

definition settled :: "real \<Rightarrow> int \<Rightarrow> int \<Rightarrow> bool \<Rightarrow> tracker \<Rightarrow> bool \<times> tracker" where
  "settled now off gen failed tk =
     (if gen \<noteq> tk_generation tk \<or> \<not> dict_has (tk_pending tk) off then (False, tk)
      else if failed \<and> tk_closing tk then (False, tk)
      else case advance (dict_set off True (tk_pending tk)) (tk_processed tk) 0 of (pending, processed, advanced) \<Rightarrow>
        (let tk1 = tk\<lparr>tk_pending := pending, tk_processed := processed,
               tk_failed := tk_failed tk + (if failed then 1 else 0)\<rparr>;
             tk2 = (if advanced > 0
                    then tk1\<lparr>tk_arguments := (case processed of Some p \<Rightarrow> dict_set STREAM_OFFSET_ARG (PyInt (p + 1)) (tk_arguments tk)
                               | None \<Rightarrow> tk_arguments tk),
                             tk_since_commit := tk_since_commit tk1 + advanced\<rparr>
                    else tk1)
         in (advanced > 0 \<and> commit_due now tk2, tk2)))"

text \<open>The two locked parts of \<^verbatim>\<open>commit\<close>, around the call of the store.\<close>

definition commit_target :: "tracker \<Rightarrow> (int \<times> int) option" where
  "commit_target tk =
     (case tk_processed tk of
        None \<Rightarrow> None
      | Some target \<Rightarrow>
         (if (case tk_committed tk of Some c \<Rightarrow> target \<le> c | None \<Rightarrow> False) then None else Some (target, tk_since_commit tk)))"

definition commit_done :: "real \<Rightarrow> int \<Rightarrow> int \<Rightarrow> tracker \<Rightarrow> tracker" where
  "commit_done now target covered tk =
     tk\<lparr>tk_committed := Some target, tk_since_commit := max 0 (tk_since_commit tk - covered), tk_last_commit_at := now\<rparr>"

definition commit_failed :: "tracker \<Rightarrow> tracker" where
  "commit_failed tk = tk\<lparr>tk_commit_failures := tk_commit_failures tk + 1\<rparr>"

section \<open>Hooks\<close>

text \<open>\<open>se_create_task\<close> starts the commit of an asynchronous settlement in the background.\<close>

type_synonym 'x sworld = "tracker \<times> 'x"

record 'x stream_env =
  se_save :: "string \<Rightarrow> int \<Rightarrow> ('x, py_exc, unit) act"
  se_clock :: "'x \<Rightarrow> real"
  se_offload :: bool
  se_create_task :: "'x sworld settle_fn"

definition commit :: "'x stream_env \<Rightarrow> 'x sworld settle_fn" where
  "commit env = (\<lambda>(tk, x).
     case commit_target tk of
       None \<Rightarrow> (Inr (), (tk, x))
     | Some (target, covered) \<Rightarrow>
        (case se_save env (tk_key tk) target x of
           (Inl e, x') \<Rightarrow> (if is_exception e then (Inr (), (commit_failed tk, x')) else (Inl e, (tk, x')))
         | (Inr _, x') \<Rightarrow> (Inr (), (commit_done (se_clock env x') target covered tk, x'))))"

definition commit_soon :: "'x stream_env \<Rightarrow> 'x sworld settle_fn" where
  "commit_soon env = (if \<not> se_offload env then commit env else se_create_task env)"

definition settle_wrapper ::
    "'x stream_env \<Rightarrow> 'x sworld settle_fn \<Rightarrow> int \<Rightarrow> int \<Rightarrow> bool \<Rightarrow> 'x sworld settle_fn \<Rightarrow> 'x sworld settle_fn" where
  "settle_wrapper env committing off gen failed fn = act_bind fn (\<lambda>_ (tk, x).
     case settled (se_clock env x) off gen failed tk of
       (due, tk') \<Rightarrow> (if due then committing (tk', x) else (Inr (), (tk', x))))"

definition sync_wrapper where "sync_wrapper env = settle_wrapper env (commit env)"
definition async_wrapper where "async_wrapper env = settle_wrapper env (commit_soon env)"

definition hook_settlement :: "'x stream_env \<Rightarrow> int \<Rightarrow> int \<Rightarrow> 'x sworld msg \<Rightarrow> 'x sworld msg" where
  "hook_settlement env off gen m =
     m\<lparr>m_ack_fn := map_option (sync_wrapper env off gen False) (m_ack_fn m),
       m_nack_fn := map_option (\<lambda>f b. sync_wrapper env off gen True (f b)) (m_nack_fn m),
       m_reject_fn := map_option (\<lambda>f b. sync_wrapper env off gen True (f b)) (m_reject_fn m),
       m_ack_async_fn := map_option (async_wrapper env off gen False) (m_ack_async_fn m),
       m_nack_async_fn := map_option (\<lambda>f b. async_wrapper env off gen True (f b)) (m_nack_async_fn m),
       m_reject_async_fn := map_option (\<lambda>f b. async_wrapper env off gen True (f b)) (m_reject_async_fn m)\<rparr>"

definition track :: "'x stream_env \<Rightarrow> 'x sworld msg \<Rightarrow> tracker \<Rightarrow> 'x sworld msg \<times> tracker" where
  "track env m tk =
     (case stream_offset m of
        None \<Rightarrow> (m, tk)
      | Some off \<Rightarrow>
         (case track_delivery (m_delivery_tag m) off tk of
            (None, tk') \<Rightarrow> (m, tk')
          | (Some gen, tk') \<Rightarrow> (hook_settlement env off gen m, tk')))"

section \<open>The tracker against a broker\<close>

text \<open>
  \<open>ss_next\<close> is the offset the broker delivers next, \<open>ss_fresh\<close> whether the current subscription has not
  delivered anything yet, \<open>ss_tag\<close> the last delivery tag of the channel, and \<open>ss_low\<close> where the
  last subscription started that had no processed offset to resume from.  \<open>ss_open\<close> holds the hooked deliveries with their generation,
  \<open>ss_commit\<close> a running commit and whether the store has saved, \<open>ss_store\<close> what the store holds, and
  \<open>ss_handled\<close> the offsets that were acked, or nacked or rejected while the consumer was not closing.
\<close>

record stream_sys =
  ss_tracker :: tracker
  ss_store :: "int option"
  ss_next :: int
  ss_fresh :: bool
  ss_tag :: int
  ss_low :: int
  ss_open :: "(int \<times> int) set"
  ss_commit :: "((int \<times> int) \<times> bool) option"
  ss_handled :: "int set"

text \<open>
  Where the broker may start: at or before the numeric offset in the consume arguments.  As long as
  nothing is processed the arguments are the configured start, or the time of the first subscription, and
  the broker starts where it did before or earlier.  Every offset from there on holds a message.
\<close>

definition start_ok :: "stream_sys \<Rightarrow> tracker \<Rightarrow> int \<Rightarrow> bool" where
  "start_ok s tk n \<longleftrightarrow>
     (case dict_get (tk_arguments tk) STREAM_OFFSET_ARG of Some (PyInt a) \<Rightarrow> n \<le> a | _ \<Rightarrow> True)
     \<and> (tk_processed tk = None \<longrightarrow> n \<le> ss_low s)"

definition new_low :: "stream_sys \<Rightarrow> tracker \<Rightarrow> int \<Rightarrow> int" where
  "new_low s tk n = (if tk_processed tk = None then n else ss_low s)"

definition stream_init :: "tracker \<Rightarrow> int \<Rightarrow> stream_sys" where
  "stream_init tk n =
     \<lparr>ss_tracker = tk, ss_store = tk_processed tk, ss_next = n, ss_fresh = True, ss_tag = 0, ss_low = n,
      ss_open = {}, ss_commit = None, ss_handled = {}\<rparr>"

definition delivered :: "stream_sys \<Rightarrow> stream_sys" where
  "delivered s =
     (case track_delivery (Some (ss_tag s + 1)) (ss_next s) (ss_tracker s) of (hook, tk) \<Rightarrow>
        s\<lparr>ss_tracker := tk, ss_tag := ss_tag s + 1, ss_next := ss_next s + 1, ss_fresh := False,
          ss_open := (case hook of None \<Rightarrow> ss_open s | Some gen \<Rightarrow> insert (ss_next s, gen) (ss_open s))\<rparr>)"

inductive stream_step :: "stream_sys \<Rightarrow> stream_sys \<Rightarrow> bool" where
  deliver: "stream_step s (delivered s)"
| settle: "(off, gen) \<in> ss_open s \<Longrightarrow> settled now off gen failed (ss_tracker s) = (due, tk) \<Longrightarrow>
    stream_step s (s\<lparr>ss_tracker := tk,
      ss_handled := (if failed \<and> tk_closing (ss_tracker s) then ss_handled s else insert off (ss_handled s))\<rparr>)"
| resubscribe: "start_ok s (ss_tracker s) n \<Longrightarrow> tag = 0 \<or> tag = ss_tag s \<Longrightarrow>
    stream_step s (s\<lparr>ss_tracker := subscribed wall (ss_tracker s), ss_next := n, ss_fresh := True, ss_tag := tag,
      ss_low := new_low s (ss_tracker s) n\<rparr>)"
| shutdown: "stream_step s (s\<lparr>ss_tracker := begin_shutdown (ss_tracker s)\<rparr>)"
| commit_begin: "ss_commit s = None \<Longrightarrow> commit_target (ss_tracker s) = Some tc \<Longrightarrow>
    stream_step s (s\<lparr>ss_commit := Some (tc, False)\<rparr>)"
| save: "ss_commit s = Some (tc, False) \<Longrightarrow>
    stream_step s (s\<lparr>ss_store := Some (fst tc), ss_commit := Some (tc, True)\<rparr>)"
| save_fails: "ss_commit s = Some (tc, saved) \<Longrightarrow>
    stream_step s (s\<lparr>ss_tracker := commit_failed (ss_tracker s), ss_commit := None\<rparr>)"
| commit_end: "ss_commit s = Some (tc, True) \<Longrightarrow>
    stream_step s (s\<lparr>ss_tracker := commit_done now (fst tc) (snd tc) (ss_tracker s), ss_commit := None\<rparr>)"
| crash: "tk = stream_tracker_init now (tk_config (ss_tracker s)) q (ss_store s) \<Longrightarrow> start_ok s tk n \<Longrightarrow>
    stream_step s (s\<lparr>ss_tracker := tk, ss_next := n, ss_fresh := True, ss_tag := 0, ss_low := new_low s tk n,
      ss_open := {}, ss_commit := None\<rparr>)"

inductive stream_reachable :: "stream_sys \<Rightarrow> stream_sys \<Rightarrow> bool" for s0 where
  start: "stream_reachable s0 s0"
| step: "stream_reachable s0 s \<Longrightarrow> stream_step s s' \<Longrightarrow> stream_reachable s0 s'"

text \<open>The first offset the consumer has not processed; \<open>base\<close> is where its work began.\<close>

definition watermark :: "int \<Rightarrow> tracker \<Rightarrow> int" where
  "watermark base tk = (case tk_processed tk of None \<Rightarrow> base | Some p \<Rightarrow> p + 1)"

text \<open>The tracked deliveries are consecutive from the watermark to the last delivery.\<close>

definition pending_ok :: "int \<Rightarrow> int \<Rightarrow> tracker \<Rightarrow> bool" where
  "pending_ok base low tk \<longleftrightarrow> tk_pending tk = [] \<or>
     (\<exists>a l. dict_keys (tk_pending tk) = [a..l] \<and> tk_last_offset tk = Some l
        \<and> (case tk_processed tk of None \<Rightarrow> low \<le> a \<and> a \<le> base | Some p \<Rightarrow> a = p + 1))"

text \<open>Where the next delivery comes from, for a subscription that started at \<open>low\<close> and has delivered up to \<open>tag\<close>.\<close>

definition next_ok :: "bool \<Rightarrow> int \<Rightarrow> int \<Rightarrow> int \<Rightarrow> tracker \<Rightarrow> bool" where
  "next_ok fresh n low tag tk \<longleftrightarrow>
     (if fresh \<or> tk_pending tk = []
      then (case tk_processed tk of None \<Rightarrow> fresh \<and> n = low | Some p \<Rightarrow> n \<le> p + 1)
      else tk_last_offset tk = Some (n - 1))
     \<and> (fresh \<or> (case tk_last_tag tk of None \<Rightarrow> True | Some t \<Rightarrow> t \<le> tag))"

definition position_ok :: "tracker \<Rightarrow> int option \<Rightarrow> bool" where
  "position_ok tk v \<longleftrightarrow> (case v of None \<Rightarrow> True | Some n \<Rightarrow> (case tk_processed tk of None \<Rightarrow> False | Some p \<Rightarrow> n \<le> p))"

definition arguments_ok :: "tracker \<Rightarrow> bool" where
  "arguments_ok tk \<longleftrightarrow> (case tk_processed tk of None \<Rightarrow> True
     | Some p \<Rightarrow> dict_get (tk_arguments tk) STREAM_OFFSET_ARG = Some (PyInt (p + 1)))"

definition stream_inv :: "int \<Rightarrow> stream_sys \<Rightarrow> bool" where
  "stream_inv base s \<longleftrightarrow>
     (\<forall>off. base \<le> off \<and> off < watermark base (ss_tracker s) \<longrightarrow> off \<in> ss_handled s)
     \<and> (\<forall>off. (off, True) \<in> set (tk_pending (ss_tracker s)) \<longrightarrow> off \<in> ss_handled s)
     \<and> pending_ok base (ss_low s) (ss_tracker s)
     \<and> next_ok (ss_fresh s) (ss_next s) (ss_low s) (ss_tag s) (ss_tracker s)
     \<and> ss_low s \<le> base
     \<and> position_ok (ss_tracker s) (ss_store s)
     \<and> position_ok (ss_tracker s) (map_option (fst \<circ> fst) (ss_commit s))
     \<and> arguments_ok (ss_tracker s)"

lemma upto_Cons: "a # ks = [b..l] \<Longrightarrow> a = b \<and> ks = [b + 1..l] \<and> b \<le> l"
  by (cases "b \<le> l") (auto simp: upto_rec1)

lemma advance_keys:
  assumes "dict_keys d = [a..l]" and "advance d p n = (d', p', n')"
  shows "\<exists>b. a \<le> b \<and> b \<le> max a (l + 1) \<and> dict_keys d' = [b..l] \<and> set d' \<subseteq> set d \<and> n' = n + (b - a)
    \<and> p' = (if b = a then p else Some (b - 1)) \<and> (\<forall>off. a \<le> off \<and> off < b \<longrightarrow> (off, True) \<in> set d)"
  using assms
proof (induction d p n arbitrary: a rule: advance.induct)
  case (3 first d p n)
  then have ks: "first = a" "dict_keys d = [a + 1..l]" "a \<le> l" using upto_Cons [of first "dict_keys d" a l] by auto
  have "advance d (Some first) (n + 1) = (d', p', n')" using "3.prems"(2) by simp
  from "3.IH" [OF ks(2) this] obtain b where b: "a + 1 \<le> b" "b \<le> max (a + 1) (l + 1)" "dict_keys d' = [b..l]" "set d' \<subseteq> set d"
      "n' = (n + 1) + (b - (a + 1))" "p' = (if b = a + 1 then Some first else Some (b - 1))"
      "\<forall>off. a + 1 \<le> off \<and> off < b \<longrightarrow> (off, True) \<in> set d"
    by blast
  have "(off, True) \<in> set ((first, True) # d)" if "a \<le> off" "off < b" for off
    using that b(7) ks(1) by (cases "off = a") auto
  then show ?case by (intro exI [of _ b]) (use b ks in auto)
qed auto

lemma stream_invE:
  assumes "stream_inv base s"
  shows inv_covered: "base \<le> off \<Longrightarrow> off < watermark base (ss_tracker s) \<Longrightarrow> off \<in> ss_handled s"
    and inv_flagged: "(off, True) \<in> set (tk_pending (ss_tracker s)) \<Longrightarrow> off \<in> ss_handled s"
    and inv_pending: "pending_ok base (ss_low s) (ss_tracker s)" and inv_next: "next_ok (ss_fresh s) (ss_next s) (ss_low s) (ss_tag s) (ss_tracker s)"
    and inv_low: "ss_low s \<le> base"
    and inv_store: "position_ok (ss_tracker s) (ss_store s)"
    and inv_commit: "position_ok (ss_tracker s) (map_option (fst \<circ> fst) (ss_commit s))"
    and inv_arguments: "tk_processed (ss_tracker s) = Some p \<Longrightarrow>
      dict_get (tk_arguments (ss_tracker s)) STREAM_OFFSET_ARG = Some (PyInt (p + 1))"
  using assms by (auto simp: stream_inv_def arguments_ok_def)

text \<open>A delivery continues the pending ones, or the pending ones are forgotten and it is at the watermark at most.\<close>

lemma delivery_cases:
  assumes "stream_inv base s"
  obtains (forget) "(if restarted (Some (ss_tag s + 1)) (ss_next s) (ss_tracker s) then [] else tk_pending (ss_tracker s)) = []"
      "case tk_processed (ss_tracker s) of None \<Rightarrow> ss_next s = ss_low s | Some p \<Rightarrow> ss_next s \<le> p + 1"
  | (continue) a where "\<not> restarted (Some (ss_tag s + 1)) (ss_next s) (ss_tracker s)"
      "dict_keys (tk_pending (ss_tracker s)) = [a..ss_next s - 1]" "a \<le> ss_next s - 1"
      "case tk_processed (ss_tracker s) of None \<Rightarrow> ss_low s \<le> a \<and> a \<le> base | Some p \<Rightarrow> a = p + 1"
proof (cases "tk_pending (ss_tracker s) = []")
  case True
  then show ?thesis using inv_next [OF assms] by (intro forget) (auto simp: next_ok_def split: option.splits)
next
  case False
  then obtain a l where al: "dict_keys (tk_pending (ss_tracker s)) = [a..l]" "tk_last_offset (ss_tracker s) = Some l"
      "case tk_processed (ss_tracker s) of None \<Rightarrow> ss_low s \<le> a \<and> a \<le> base | Some p \<Rightarrow> a = p + 1"
    using inv_pending [OF assms] by (auto simp: pending_ok_def)
  have "[a..l] \<noteq> []" using False al(1) by (metis map_is_Nil_conv)
  then have le: "a \<le> l" by simp
  show ?thesis
  proof (cases "ss_fresh s")
    case True
    then have start: "case tk_processed (ss_tracker s) of None \<Rightarrow> ss_next s = ss_low s | Some p \<Rightarrow> ss_next s \<le> p + 1"
      using inv_next [OF assms] by (auto simp: next_ok_def split: option.splits)
    then have "ss_next s \<le> l" using al(3) le by (auto split: option.splits)
    then show ?thesis using start by (intro forget) (simp_all add: restarted_def al(2))
  next
    case stale: False
    then have l: "l = ss_next s - 1" and tag: "case tk_last_tag (ss_tracker s) of None \<Rightarrow> True | Some t \<Rightarrow> t \<le> ss_tag s"
      using inv_next [OF assms] False al(2) by (auto simp: next_ok_def)
    then have "\<not> restarted (Some (ss_tag s + 1)) (ss_next s) (ss_tracker s)"
      by (auto simp: restarted_def al(2) split: option.splits)
    then show ?thesis using al le l by (intro continue [of a]) simp_all
  qed
qed

lemma delivered_fields:
  "ss_store (delivered s) = ss_store s" "ss_next (delivered s) = ss_next s + 1" "\<not> ss_fresh (delivered s)"
  "ss_tag (delivered s) = ss_tag s + 1" "ss_low (delivered s) = ss_low s" "ss_commit (delivered s) = ss_commit s"
  "ss_handled (delivered s) = ss_handled s"
  "ss_tracker (delivered s) = snd (track_delivery (Some (ss_tag s + 1)) (ss_next s) (ss_tracker s))"
  by (simp_all add: delivered_def split: prod.split)

lemma track_fields:
  "tk_processed (snd (track_delivery tag off tk)) = tk_processed tk"
  "tk_last_tag (snd (track_delivery tag off tk)) = tag"
  "tk_last_offset (snd (track_delivery tag off tk)) = Some off"
  "tk_arguments (snd (track_delivery tag off tk)) = tk_arguments tk"
  "tk_pending (snd (track_delivery tag off tk)) =
     (let d = (if restarted tag off tk then [] else tk_pending tk)
      in case tk_processed tk of
           Some p \<Rightarrow> (if off \<le> p then d else dict_set off False d)
         | None \<Rightarrow> dict_set off False d)"
  by (simp_all add: track_delivery_def Let_def split: option.split)

lemma same_position:
  assumes "tk_processed tk' = tk_processed tk"
  shows "watermark base tk' = watermark base tk" "position_ok tk' v = position_ok tk v"
  using assms by (simp_all add: watermark_def position_ok_def split: option.split)

lemma pending_okI:
  "dict_keys (tk_pending tk) = [a..l] \<Longrightarrow> tk_last_offset tk = Some l \<Longrightarrow>
   (case tk_processed tk of None \<Rightarrow> low \<le> a \<and> a \<le> base | Some p \<Rightarrow> a = p + 1) \<Longrightarrow> pending_ok base low tk"
  by (auto simp: pending_ok_def)

lemma delivered_inv:
  assumes "stream_inv base s"
  shows "stream_inv base (delivered s)"
proof -
  define tk tk' where "tk = ss_tracker s" and "tk' = ss_tracker (delivered s)"
  let ?n = "ss_next s"
  have f: "tk_processed tk' = tk_processed tk" "tk_last_tag tk' = Some (ss_tag s + 1)" "tk_last_offset tk' = Some ?n"
      "tk_arguments tk' = tk_arguments tk"
    and d: "tk_pending tk' = (let d = (if restarted (Some (ss_tag s + 1)) ?n tk then [] else tk_pending tk)
      in case tk_processed tk of Some p \<Rightarrow> (if ?n \<le> p then d else dict_set ?n False d) | None \<Rightarrow> dict_set ?n False d)"
    by (simp_all add: tk_def tk'_def delivered_fields track_fields)
  note same = same_position [OF f(1)]
  have arguments: "arguments_ok tk' = arguments_ok tk" by (simp add: arguments_ok_def f split: option.split)
  have next': "next_ok False (?n + 1) (ss_low s) (ss_tag s + 1) tk' = (if tk_pending tk' = []
      then (case tk_processed tk of None \<Rightarrow> False | Some p \<Rightarrow> ?n + 1 \<le> p + 1) else True)"
    by (simp add: next_ok_def f split: option.split)
  have parts: "pending_ok base (ss_low s) tk' \<and> next_ok False (?n + 1) (ss_low s) (ss_tag s + 1) tk'
      \<and> (\<forall>off. (off, True) \<in> set (tk_pending tk') \<longrightarrow> (off, True) \<in> set (tk_pending tk))"
  proof (cases rule: delivery_cases [OF assms, folded tk_def])
    case 1
    then have "tk_pending tk' = (case tk_processed tk of
        Some p \<Rightarrow> (if ?n \<le> p then [] else [(?n, False)]) | None \<Rightarrow> [(?n, False)])"
      unfolding d by (simp split: option.split)
    then consider p where "tk_pending tk' = []" "tk_processed tk = Some p" "?n \<le> p"
      | "tk_pending tk' = [(?n, False)]"
          "case tk_processed tk of None \<Rightarrow> ss_low s \<le> ?n \<and> ?n \<le> base | Some p \<Rightarrow> ?n = p + 1"
      using 1(2) inv_low [OF assms] by (auto split: option.splits if_splits)
    then show ?thesis
    proof cases
      case 1
      then show ?thesis by (simp add: pending_ok_def next')
    next
      case 2
      then show ?thesis using pending_okI [of tk' ?n ?n "ss_low s" base] by (simp add: f next')
    qed
  next
    case (2 a)
    then have new: "\<not> (\<exists>p. tk_processed tk = Some p \<and> ?n \<le> p)" by (auto split: option.splits)
    have absent: "?n \<notin> set (dict_keys (tk_pending tk))" unfolding 2(2) by simp
    have new_d: "tk_pending tk' = tk_pending tk @ [(?n, False)]"
      using 2(1) new dict_set_absent [OF absent] unfolding d by (auto simp: Let_def split: option.split)
    have "dict_keys (tk_pending tk') = [a..?n]" using 2(2,3) upto_rec2 [of a ?n] new_d by simp
    then show ?thesis using 2(4) pending_okI [of tk' a ?n "ss_low s" base] new_d by (simp add: f next')
  qed
  then show ?thesis
    using assms unfolding stream_inv_def delivered_fields(1-7) tk'_def [symmetric] tk_def [symmetric] same arguments f(1)
    by (simp add: delivered_fields(3))
qed

lemma set_flag: "(x, True) \<in> set (dict_set off True d) \<Longrightarrow> x = off \<or> (x, True) \<in> set d"
  by (induction d) (auto split: if_splits)

lemma handled_mono:
  "stream_inv base s \<Longrightarrow> stream_inv base (s\<lparr>ss_handled := insert off (ss_handled s)\<rparr>)"
  by (auto simp: stream_inv_def)

text \<open>What the settlement of a pending delivery does to the tracker.\<close>

lemma settled_run:
  assumes "settled now off gen failed tk = (due, tk')" and "tk' \<noteq> tk" and "dict_keys (tk_pending tk) = [a..l]"
  obtains b where "a \<le> b" "b \<le> max a (l + 1)" "dict_keys (tk_pending tk') = [b..l]"
    "\<forall>x. (x, True) \<in> set (tk_pending tk') \<longrightarrow> x = off \<or> (x, True) \<in> set (tk_pending tk)"
    "tk_processed tk' = (if b = a then tk_processed tk else Some (b - 1))"
    "\<forall>x. a \<le> x \<and> x < b \<longrightarrow> x = off \<or> (x, True) \<in> set (tk_pending tk)"
    "tk_last_offset tk' = tk_last_offset tk" "tk_last_tag tk' = tk_last_tag tk" "tk_pending tk \<noteq> []"
    "\<not> (failed \<and> tk_closing tk)"
    "dict_get (tk_arguments tk') STREAM_OFFSET_ARG =
       (if b = a then dict_get (tk_arguments tk) STREAM_OFFSET_ARG else Some (PyInt b))"
proof -
  let ?d = "dict_set off True (tk_pending tk)"
  obtain d' p' n' where adv: "advance ?d (tk_processed tk) 0 = (d', p', n')" by (cases "advance ?d (tk_processed tk) 0")
  have go: "gen = tk_generation tk" "dict_has (tk_pending tk) off" "\<not> (failed \<and> tk_closing tk)"
    using assms(1,2) by (auto simp: settled_def split: if_splits)
  have tk': "tk' = snd (settled now off gen failed tk)" and stays: "(failed \<and> tk_closing tk) = False"
    using assms(1) go(3) by simp_all
  have "dict_keys ?d = [a..l]" using go(2) assms(3) dict_keys_set_present [of off "tk_pending tk" True] by (simp add: dict_has_iff)
  from advance_keys [OF this adv] obtain b where b: "a \<le> b" "b \<le> max a (l + 1)" "dict_keys d' = [b..l]" "set d' \<subseteq> set ?d"
      "n' = b - a" "p' = (if b = a then tk_processed tk else Some (b - 1))"
      "\<And>x. a \<le> x \<Longrightarrow> x < b \<Longrightarrow> (x, True) \<in> set ?d"
    by auto
  have f: "tk_pending tk' = d'" "tk_processed tk' = p'" "tk_last_offset tk' = tk_last_offset tk" "tk_last_tag tk' = tk_last_tag tk"
      "tk_arguments tk' = (if n' > 0 then (case p' of Some p \<Rightarrow> dict_set STREAM_OFFSET_ARG (PyInt (p + 1)) (tk_arguments tk)
         | None \<Rightarrow> tk_arguments tk) else tk_arguments tk)"
    unfolding tk' by (simp_all add: settled_def go(1,2) stays adv Let_def)
  have flags: "x = off \<or> (x, True) \<in> set (tk_pending tk)" if "(x, True) \<in> set (tk_pending tk')" for x
    by (rule set_flag) (use that b(4) f(1) in auto)
  have settled_now: "x = off \<or> (x, True) \<in> set (tk_pending tk)" if "a \<le> x" "x < b" for x
    by (rule set_flag) (rule b(7) [OF that])
  have arg: "dict_get (tk_arguments tk') STREAM_OFFSET_ARG =
       (if b = a then dict_get (tk_arguments tk) STREAM_OFFSET_ARG else Some (PyInt b))"
    using b(1,5,6) by (simp add: f(5))
  have nonempty: "tk_pending tk \<noteq> []" using go(2) by (auto simp: dict_has_def)
  show ?thesis
    by (rule that [OF b(1,2) _ _ _ _ f(3,4) nonempty go(3) arg]) (use flags settled_now in \<open>simp_all add: f(1,2) b(3,6)\<close>)
qed

lemma settled_inv:
  assumes inv: "stream_inv base s" and run: "settled now off gen failed (ss_tracker s) = (due, tk')"
  shows "stream_inv base (s\<lparr>ss_tracker := tk',
    ss_handled := (if failed \<and> tk_closing (ss_tracker s) then ss_handled s else insert off (ss_handled s))\<rparr>)"
proof (cases "tk' = ss_tracker s")
  case True
  then show ?thesis using inv handled_mono [OF inv, of off] by auto
next
  case False
  define tk where "tk = ss_tracker s"
  have "tk_pending tk \<noteq> []" using False run by (auto simp: tk_def settled_def dict_has_def split: if_splits)
  with inv_pending [OF inv] obtain a l where al: "dict_keys (tk_pending tk) = [a..l]" "tk_last_offset tk = Some l"
      "case tk_processed tk of None \<Rightarrow> ss_low s \<le> a \<and> a \<le> base | Some p \<Rightarrow> a = p + 1"
    by (auto simp: tk_def pending_ok_def)
  have le: "a \<le> l" using al(1) \<open>tk_pending tk \<noteq> []\<close> by (cases "a \<le> l") auto
  obtain b where
    b: "a \<le> b" "b \<le> max a (l + 1)" "dict_keys (tk_pending tk') = [b..l]"
      "\<forall>x. (x, True) \<in> set (tk_pending tk') \<longrightarrow> x = off \<or> (x, True) \<in> set (tk_pending tk)"
      "tk_processed tk' = (if b = a then tk_processed tk else Some (b - 1))"
      "\<forall>x. a \<le> x \<and> x < b \<longrightarrow> x = off \<or> (x, True) \<in> set (tk_pending tk)"
      "tk_last_offset tk' = tk_last_offset tk" "tk_last_tag tk' = tk_last_tag tk" "tk_pending tk \<noteq> []"
      "\<not> (failed \<and> tk_closing tk)"
      "dict_get (tk_arguments tk') STREAM_OFFSET_ARG =
         (if b = a then dict_get (tk_arguments tk) STREAM_OFFSET_ARG else Some (PyInt b))"
    by (rule settled_run [OF run [folded tk_def] False [folded tk_def] al(1)], rule that)
  let ?H = "insert off (ss_handled s)" and ?s = "s\<lparr>ss_tracker := tk', ss_handled := insert off (ss_handled s)\<rparr>"
  have handled: "x \<in> ?H" if "x = off \<or> (x, True) \<in> set (tk_pending tk)" for x
    using that inv_flagged [OF inv, folded tk_def] by blast
  have mark: "watermark base tk \<le> base \<or> watermark base tk = a" "a \<le> watermark base tk"
    using al(3) by (auto simp: watermark_def split: option.splits)
  have mark': "watermark base tk' = (if b = a then watermark base tk else b)" by (simp add: watermark_def b(5))
  have covered: "x \<in> ?H" if "base \<le> x" "x < watermark base tk'" for x
  proof (cases "x < watermark base tk")
    case True
    then show ?thesis using inv_covered [OF inv, folded tk_def] that by simp
  next
    case False
    then show ?thesis using that mark mark' spec [OF b(6), of x] handled by (auto split: if_splits)
  qed
  have ends: "b = l + 1" if "tk_pending tk' = []"
    using that b(2,3) le by (cases "b \<le> l") auto
  have pending: "pending_ok base (ss_low s) tk'"
    by (rule pending_okI [OF b(3)]) (use al b in \<open>auto split: option.splits\<close>)
  have position: "position_ok tk' v" if "position_ok tk v" for v
    using that al(3) b(1,5) by (auto simp: position_ok_def split: option.splits if_splits)
  have "next_ok (ss_fresh s) (ss_next s) (ss_low s) (ss_tag s) tk'"
    using inv_next [OF inv, folded tk_def] al b(1,2,5,7,8) ends le \<open>tk_pending tk \<noteq> []\<close>
    by (auto simp: next_ok_def split: option.splits if_splits)
  moreover have "arguments_ok tk'"
    using b(5,11) inv_arguments [OF inv, folded tk_def] by (auto simp: arguments_ok_def split: option.splits)
  moreover have "ss_low s \<le> base" by (rule inv_low [OF inv])
  ultimately have "stream_inv base ?s"
    unfolding stream_inv_def using covered handled b(4) pending position inv_store [OF inv, folded tk_def] inv_commit [OF inv, folded tk_def]
    by auto
  then show ?thesis using b(10) by (auto simp: tk_def)
qed

lemma subscribed_fields:
  "tk_processed (subscribed wall tk) = tk_processed tk" "tk_pending (subscribed wall tk) = tk_pending tk"
  "tk_last_offset (subscribed wall tk) = tk_last_offset tk" "tk_last_tag (subscribed wall tk) = tk_last_tag tk"
  "tk_processed tk \<noteq> None \<Longrightarrow> tk_arguments (subscribed wall tk) = tk_arguments tk"
  by (auto simp: subscribed_def Let_def)

lemma start_at:
  assumes "start_ok s tk n" and "arguments_ok tk"
  shows "case tk_processed tk of None \<Rightarrow> n \<le> ss_low s | Some p \<Rightarrow> n \<le> p + 1"
  using assms by (auto simp: start_ok_def arguments_ok_def split: option.splits)

lemma resubscribe_inv:
  assumes inv: "stream_inv base s" and start: "start_ok s (ss_tracker s) n"
  shows "stream_inv base (s\<lparr>ss_tracker := subscribed wall (ss_tracker s), ss_next := n, ss_fresh := True, ss_tag := tag,
    ss_low := new_low s (ss_tracker s) n\<rparr>)"
proof -
  define tk tk' where "tk = ss_tracker s" and "tk' = subscribed wall tk"
  note f = subscribed_fields(1-4) [of wall tk, folded tk'_def]
  note same = same_position [OF f(1)]
  have args: "arguments_ok tk'"
    using inv f subscribed_fields(5) [of tk wall] by (auto simp: stream_inv_def arguments_ok_def tk_def tk'_def split: option.splits)
  have at: "case tk_processed tk of None \<Rightarrow> n \<le> ss_low s | Some p \<Rightarrow> n \<le> p + 1"
    using start_at [OF start] inv by (simp add: stream_inv_def tk_def)
  have "pending_ok base (new_low s tk n) tk'"
    using inv_pending [OF inv, folded tk_def] at unfolding pending_ok_def f by (auto simp: new_low_def split: option.splits)
  moreover have "next_ok True n (new_low s tk n) tag tk'" using at f(1) by (auto simp: next_ok_def new_low_def split: option.splits)
  moreover have "new_low s tk n \<le> base" using at inv_low [OF inv] by (auto simp: new_low_def)
  ultimately show ?thesis
    using inv args unfolding stream_inv_def by (simp add: same f flip: tk_def tk'_def)
qed

lemma init_inv:
  assumes "arguments_ok tk" and "tk_pending tk = []" and "position_ok tk store" and "start_ok s tk n" and "ss_low s \<le> base"
    and "\<And>off. base \<le> off \<Longrightarrow> off < watermark base tk \<Longrightarrow> off \<in> handled"
    and s': "ss_tracker s' = tk" "ss_store s' = store" "ss_next s' = n" "ss_low s' = new_low s tk n" "ss_fresh s'"
      "ss_commit s' = None" "ss_handled s' = handled"
  shows "stream_inv base s'"
proof -
  have at: "case tk_processed tk of None \<Rightarrow> n \<le> ss_low s | Some p \<Rightarrow> n \<le> p + 1" by (rule start_at [OF assms(4,1)])
  then have "next_ok True n (new_low s tk n) tag tk" for tag by (auto simp: next_ok_def new_low_def split: option.splits)
  moreover have "new_low s tk n \<le> base" using at assms(5) by (auto simp: new_low_def)
  ultimately show ?thesis
    using assms(1-3,6) unfolding stream_inv_def s' by (simp add: s' pending_ok_def position_ok_def)
qed

lemma stream_tracker_init_ok:
  "arguments_ok (stream_tracker_init now c q stored)" "tk_pending (stream_tracker_init now c q stored) = []"
  "position_ok (stream_tracker_init now c q stored) stored" "tk_processed (stream_tracker_init now c q stored) = stored"
  by (auto simp: stream_tracker_init_def arguments_ok_def position_ok_def split: option.split)

lemma store_covered:
  assumes "stream_inv base s" and "ss_store s = Some v" and "base \<le> off" and "off \<le> v"
  shows "off \<in> ss_handled s"
proof -
  obtain p where "tk_processed (ss_tracker s) = Some p" "v \<le> p"
    using inv_store [OF assms(1)] assms(2) by (auto simp: position_ok_def split: option.splits)
  then show ?thesis using inv_covered [OF assms(1,3)] assms(4) by (simp add: watermark_def)
qed

lemma crash_inv:
  assumes inv: "stream_inv base s" and "start_ok s (stream_tracker_init now c q (ss_store s)) n"
  shows "stream_inv base (s\<lparr>ss_tracker := stream_tracker_init now c q (ss_store s), ss_next := n, ss_fresh := True, ss_tag := 0,
    ss_low := new_low s (stream_tracker_init now c q (ss_store s)) n, ss_open := {}, ss_commit := None\<rparr>)"
proof (rule init_inv [OF stream_tracker_init_ok(1-3) assms(2) inv_low [OF inv], where handled = "ss_handled s"])
  fix off
  assume "base \<le> off" and "off < watermark base (stream_tracker_init now c q (ss_store s))"
  then show "off \<in> ss_handled s"
    using store_covered [OF inv] by (auto simp: watermark_def stream_tracker_init_ok(4) split: option.splits)
qed simp_all

lemma stream_step_inv:
  assumes "stream_step s s'" and "stream_inv base s"
  shows "stream_inv base s'"
  using assms
proof (cases rule: stream_step.cases)
  case deliver
  then show ?thesis using delivered_inv [OF assms(2)] by simp
next
  case (settle off gen now failed due tk)
  then show ?thesis using settled_inv [OF assms(2)] by simp
next
  case (resubscribe n tag wall)
  then show ?thesis using resubscribe_inv [OF assms(2)] by simp
next
  case shutdown
  then show ?thesis using assms(2)
    by (simp add: stream_inv_def begin_shutdown_def watermark_def pending_ok_def next_ok_def position_ok_def arguments_ok_def
      cong: option.case_cong)
next
  case (commit_begin tc)
  then have "position_ok (ss_tracker s) (Some (fst tc))"
    by (auto simp: commit_target_def position_ok_def split: option.splits if_splits)
  then show ?thesis using commit_begin assms(2) by (simp add: stream_inv_def)
next
  case (save tc)
  then show ?thesis using assms(2) inv_commit [OF assms(2)] by (simp add: stream_inv_def)
next
  case (save_fails tc saved)
  then show ?thesis using assms(2)
    by (simp add: stream_inv_def commit_failed_def watermark_def pending_ok_def next_ok_def position_ok_def arguments_ok_def
      cong: option.case_cong)
next
  case (commit_end tc now)
  then show ?thesis using assms(2)
    by (simp add: stream_inv_def commit_done_def watermark_def pending_ok_def next_ok_def position_ok_def arguments_ok_def
      cong: option.case_cong)
next
  case (crash tk now q n)
  then show ?thesis using crash_inv [OF assms(2)] by simp
qed

text \<open>Where the work of a consumer begins: after what is stored, or at the first offset of its first subscription.\<close>

definition first_offset :: "tracker \<Rightarrow> int \<Rightarrow> int" where
  "first_offset tk n = (case tk_processed tk of None \<Rightarrow> n | Some p \<Rightarrow> p + 1)"

lemma stream_init_inv:
  assumes "tk = stream_tracker_init now c q stored" and "start_ok (stream_init tk n) tk n"
  shows "stream_inv (first_offset tk n) (stream_init tk n)"
proof (rule init_inv [of tk "ss_store (stream_init tk n)" "stream_init tk n" n _ "{}"])
  have at: "case tk_processed tk of None \<Rightarrow> n \<le> ss_low (stream_init tk n) | Some p \<Rightarrow> n \<le> p + 1"
    using start_at [OF assms(2)] assms(1) by (simp add: stream_tracker_init_ok)
  then show "ss_low (stream_init tk n) \<le> first_offset tk n"
    by (auto simp: stream_init_def first_offset_def split: option.splits)
  show "off \<in> {}" if "first_offset tk n \<le> off" "off < watermark (first_offset tk n) tk" for off
    using that by (auto simp: first_offset_def watermark_def split: option.splits)
qed (use assms in \<open>simp_all add: stream_tracker_init_ok stream_init_def new_low_def position_ok_def split: option.split\<close>)


definition example_stream :: stream_config where
  "example_stream = \<lparr>st_offset = \<lparr>sp_type = SO_FIRST, sp_value = PyNone\<rparr>, st_consumer_name = None,
     st_commit_every = 1, st_commit_interval = None\<rparr>"


end
