(* ===== verification/Spec2Isabelle.thy ===== *)
theory Spec2Isabelle
  imports Rk_Channel Rk_Retry Rk_Pipeline Rk_Flow Rk_Dedup Rk_Streams
begin

text \<open>
  A verification development for rabbitkit, a RabbitMQ toolkit for Python (\<^verbatim>\<open>src/src/rabbitkit\<close>; the paths
  below are relative to it).

  \<^bold>\<open>The program.\<close>  A transport hands a delivery to the handler pipeline (\<^verbatim>\<open>core/pipeline.py\<close>).  The pipeline
  runs the delivery through the middlewares of its route and the handler, publishes the handler's
  result, and settles the delivery: an ack on success, otherwise an ack after a confirmed dead-letter
  copy, a requeue, or a rejection that the broker dead-letters.  The retry middleware takes a failed
  delivery out of this path by publishing a copy to a delay queue.  The dead-letter guard and copier
  (\<^verbatim>\<open>core/dead_letter.py\<close>) decide whether a rejection would lose the message.  Deduplication and rate
  limiting are middlewares around the handler; the flow controller stands in front of publishers.
  The settlement coordinator (\<^verbatim>\<open>core/settlement.py\<close>) coalesces the acks of one channel into cumulative ones.

  \<^bold>\<open>Conventions.\<close>  An operation that may raise is a function from a state to a result and a state, the
  result an exception or a value (\<open>act\<close> in \<open>Rk_Prelude\<close>).  The state is the object, the message and the
  world outside, which is a type variable, paired with the local cache in the deduplication middleware
  and with the tracker in the stream hooks.  Transport calls,
  publish functions, Redis, hooks, serializers, clocks, sleeps and random numbers are functions of records
  and are arguments of the definitions.  Exceptions are records that list the classes they are
  instances of.  Dictionaries are association lists in insertion order, integers are unbounded as in
  Python, floats are real numbers, and text is a list of characters.  Log lines are left out.

  \<^bold>\<open>Theories.\<close>
    \<^item> \<open>Rk_Prelude\<close>: dictionaries, the \<open>act\<close> combinators for \<^verbatim>\<open>try\<close>, \<^verbatim>\<open>finally\<close> and sequencing, a calculus of
      weakest preconditions for them, generic list lemmas.
    \<^item> \<open>Rk_Types\<close>, \<open>Rk_Strings\<close>: the enumerations and records of \<^verbatim>\<open>core/types.py\<close>, exceptions and header
      values; Python's text and integer primitives.
    \<^item> \<open>Rk_Errors\<close>: error classification and the exception middleware (\<^verbatim>\<open>core/errors.py\<close>,
      \<^verbatim>\<open>middleware/error_classifier.py\<close>, \<^verbatim>\<open>middleware/exception.py\<close>).
    \<^item> \<open>Rk_Message\<close>: \<^verbatim>\<open>RabbitMessage\<close> (\<^verbatim>\<open>core/message.py\<close>) and its idempotent settlement, synchronous,
      asynchronous and with interleaved coroutines.
    \<^item> \<open>Rk_Coordinator\<close>, \<open>Rk_Plan\<close>, \<open>Rk_Emission\<close>, \<open>Rk_Channel\<close>: the ledger of the settlement coordinator, its
      planning walk, the emission of a batch, and the coordinator against a broker in a step relation
      with reconnects, failing frames and concurrent batches.
    \<^item> \<open>Rk_Topology\<close>: exchange and queue definitions, quorum rules, topic paths, reserved headers.
    \<^item> \<open>Rk_Handoff\<close>, \<open>Rk_FailureCopy\<close>, \<open>Rk_Retry\<close>: retry configuration and hand-off tracker, the copies of a
      failed delivery, the retry middleware and the topology of its delay queues
      (\<^verbatim>\<open>core/retry_handoff.py\<close>, \<^verbatim>\<open>core/failure_copy.py\<close>, \<^verbatim>\<open>core/sanitizer.py\<close>, \<^verbatim>\<open>middleware/retry.py\<close>).
    \<^item> \<open>Rk_DeadLetter\<close>, \<open>Rk_Pipeline\<close>: the dead-letter guard and copier, and both pipelines.
    \<^item> \<open>Rk_RateLimit\<close>, \<open>Rk_Flow\<close>: token buckets and the rate-limiting middleware
      (\<^verbatim>\<open>middleware/rate_limit.py\<close>), the flow controller (\<^verbatim>\<open>highload/backpressure.py\<close>).
    \<^item> \<open>Rk_Dedup\<close>: the deduplication middleware (\<^verbatim>\<open>middleware/deduplication.py\<close>).
    \<^item> \<open>Rk_Streams\<close>: start positions and the offset tracker of stream consumers (\<^verbatim>\<open>core/streams.py\<close>), alone and
      in a step relation with a broker and an offset store.

  \<^bold>\<open>What the theorems show.\<close>
    \<^item> Settlement: at most one transport call settles a message.  A cumulative ack reaches only deliveries
      whose handler reported success, on every reachable state of the channel; plans are sound,
      complete and not held back for ever; the ledger moves only on evidence.
    \<^item> No loss on failure: the pipeline and the retry middleware ack a failed delivery only on a confirmed
      copy, the pipeline leaves no delivery unsettled, a missing dead-letter queue leads to a requeue,
      and copies keep the message and reach declared queues.
    \<^item> No endless loops: retries are bounded by the count in the copies, a redelivered failure is not
      requeued, hand-off backoffs are bounded.
    \<^item> The synchronous and the asynchronous pipeline agree.
    \<^item> Deduplication marks a message exactly when it is acked, keeps concurrent duplicates away from the
      handler, and meets a Redis outage as configured.
    \<^item> A stream consumer commits no offset beyond a message it has not handled, through reconnects and
      crashes.
    \<^item> A rate limiter grants no more than its burst and rate allow and its scope returns; the flow
      controller never exceeds its limit and never leaves a free slot unannounced.
    \<^item> Configuration and topology: accepted definitions can be declared, named path segments are
      extracted, classification is consistent, the delay schedule has its closed form.

  \<^bold>\<open>Bounds and fuel.\<close>  The only fuel is that of the waiting loop of the rate limiter; the theorem about it
  shows that two rounds are enough for a worker that has the bucket to itself.  Every other loop is a
  total function.

  \<^bold>\<open>Not modelled.\<close>  The transports, connections, pools and brokers, which are socket I/O and event loops
  around pika and aio-pika; serializers, dependency injection, result backends, web and command-line
  front ends, test doubles.  Of the rest: \<^verbatim>\<open>ack_many\<close> and \<^verbatim>\<open>nack_many\<close> of the coordinator, bulk and batch
  publishing, the offset stores of streams, RPC clients, health checks, dead-letter browsing and replay, route
  registration and topology verification, the compression, signing, timeout, metrics, tracing and
  circuit-breaker middlewares, and the asynchronous half of the flow controller.  Scheduling within the
  pipeline is not modelled: a delivery is processed from start to end, and a timeout or cancellation
  is an outcome of the call it interrupts.
\<close>

end
